(* ===== verification/GD_Prelude.thy ===== *)
theory GD_Prelude
  imports Main "HOL-Library.Word" "HOL-Library.AList"
begin

text \<open>
  Shared vocabulary of the development: the error values of the fallible code, the
  sequencing of fallible computations, the fixed-width integer types, and the generic
  lemmas on lists, maps and association lists that several components use.
\<close>

section \<open>Automation collections\<close>

named_theorems opcode_info \<open>rows of the opcode metadata table\<close>
named_theorems res_simps \<open>unfolding fallible computations\<close>

section \<open>Machine integers\<close>

type_synonym int64 = "64 word"
type_synonym uint32 = "32 word"
type_synonym uint8 = "8 word"

section \<open>Errors\<close>

text \<open>
  \<open>ErrorType\<close> of \<^verbatim>\<open>compiler_exception.h\<close>. A thrown \<open>CompilerException\<close> is the
  error type together with the reason it was thrown for; the message text, which only a
  person reads, is replaced by the reason. \<open>StdException\<close> is an exception of the C++ library
  (\<open>vector::at\<close>, \<open>vector::reserve\<close>, \<open>std::get\<close>). \<open>UndefinedBehaviour\<close> marks a point
  where the C++ standard gives the code no meaning (a signed overflow, a division that
  traps, a conversion out of range). \<open>Diverges\<close> is a loop that never ends; the loops that could
  be given it are proved to end.
\<close>

datatype ErrorType =
    LEXER_ERROR | PARSER_ERROR | SEMANTIC_ERROR | CODEGEN_ERROR | RISCV_codegen_ERROR
  | OPTIMIZER_ERROR | IR_VERIFIER_ERROR | ELF_ERROR | UNKNOWN_ERROR

datatype reason =
    CallDepthExceeded | StepLimitExceeded | MissingLabel | StringIndexRange
  | GlobalIndexRange | ConvertUnsupported | CoerceUnsupported | NeedsHost
  | UnknownFunction | NoTableEntry | NotIntegerOp | NotFloatOp | TooFewArguments
  | UnknownUtilityOp | StringOperator | NotFloatBinary | NotIntegerBinary | NotUnary
  | NullOrdering | StringOrdering | NotFusedBranch | UnknownPass | UnexpectedCompare
  | AwaitOutsideCoroutine | NegativeMaxRegisters | ParametersNotCovered
  | NegativeRegister | RegisterOutsideMax | TooFewOperands | TooManyOperands
  | OperandKindMismatch | NegativeArgumentCount | ArgumentCountMismatch
  | DestinationIsArgument | DuplicateLabel | BranchTargetMissing | ReadUndefined
  | ConvertWithoutHint | CoerceWithoutHint | HintMismatch | ScopeNotMarked

datatype std_exception = OutOfRange | LengthError | BadVariantAccess

datatype fault =
    CompilerException ErrorType reason
  | StdException std_exception
  | UndefinedBehaviour
  | Diverges

type_synonym 'a res = "fault + 'a"

definition bind_res :: "'a res \<Rightarrow> ('a \<Rightarrow> 'b res) \<Rightarrow> 'b res" where
  "bind_res r f = (case r of Inl e \<Rightarrow> Inl e | Inr x \<Rightarrow> f x)"

lemma bind_res_Inl [simp, res_simps]: "bind_res (Inl e) f = Inl e"
  by (simp add: bind_res_def)

lemma bind_res_Inr [simp, res_simps]: "bind_res (Inr x) f = f x"
  by (simp add: bind_res_def)

lemma bind_res_eq_Inr [res_simps]:
  "bind_res r f = Inr y \<longleftrightarrow> (\<exists>x. r = Inr x \<and> f x = Inr y)"
  by (cases r) auto

lemma bind_res_eq_Inl:
  "bind_res r f = Inl e \<longleftrightarrow> r = Inl e \<or> (\<exists>x. r = Inr x \<and> f x = Inl e)"
  by (cases r) auto

lemma bind_res_assoc: "bind_res (bind_res r f) g = bind_res r (\<lambda>x. bind_res (f x) g)"
  by (cases r) auto

lemma bind_res_cong [fundef_cong]:
  "r = r' \<Longrightarrow> (\<And>x. r' = Inr x \<Longrightarrow> f x = f' x) \<Longrightarrow> bind_res r f = bind_res r' f'"
  by (cases r') auto

text \<open>A check that throws: \<open>Inr ()\<close> when it passes.\<close>

definition guard_res :: "bool \<Rightarrow> ErrorType \<Rightarrow> reason \<Rightarrow> unit res" where
  "guard_res b t r = (if b then Inr () else Inl (CompilerException t r))"

lemma guard_res_eq_Inr [simp]: "guard_res b t r = Inr u \<longleftrightarrow> b"
  by (simp add: guard_res_def)

text \<open>Running a fallible check over a list, stopping at the first throw.\<close>

primrec each_res :: "('a \<Rightarrow> unit res) \<Rightarrow> 'a list \<Rightarrow> unit res" where
  "each_res f [] = Inr ()"
| "each_res f (x # xs) = bind_res (f x) (\<lambda>_. each_res f xs)"

lemma each_res_eq_Inr [simp]: "each_res f xs = Inr u \<longleftrightarrow> (\<forall>x \<in> set xs. f x = Inr ())"
  by (induction xs) (auto simp: res_simps)

text \<open>Mapping a fallible function over a list, left to right.\<close>

primrec map_res :: "('a \<Rightarrow> 'b res) \<Rightarrow> 'a list \<Rightarrow> 'b list res" where
  "map_res f [] = Inr []"
| "map_res f (x # xs) = bind_res (f x) (\<lambda>y. bind_res (map_res f xs) (\<lambda>ys. Inr (y # ys)))"

lemma map_res_length: "map_res f xs = Inr ys \<Longrightarrow> length ys = length xs"
  by (induction xs arbitrary: ys) (auto simp: res_simps)

section \<open>Lists\<close>

lemma nth_in_filter_upt: "i < length xs \<Longrightarrow> P (xs ! i) \<Longrightarrow> i \<in> set (filter (\<lambda>i. P (xs ! i)) [0..<length xs])"
  by simp

lemma set_enumerate: "(i, x) \<in> set (enumerate 0 xs) \<longleftrightarrow> i < length xs \<and> xs ! i = x"
  by (auto simp: in_set_enumerate_eq)

lemma list_all_nth: "list_all P xs \<longleftrightarrow> (\<forall>i < length xs. P (xs ! i))"
  by (simp add: list_all_length)

section \<open>Association lists\<close>

lemma map_of_update [simp]: "map_of (AList.update k v al) = (map_of al)(k \<mapsto> v)"
  by (simp add: update_conv')

lemma map_of_delete [simp]: "map_of (AList.delete k al) = (map_of al)(k := None)"
  by (simp add: delete_conv')

end
