(* ===== verification/Double.thy ===== *)
theory Double
  imports GD_Prelude
begin

unbundle bit_operations_syntax

text \<open>
  C++ \<open>double\<close>: IEEE 754 binary64 with round-to-nearest, ties to even. A value is its
  64-bit pattern. Every operation the compiler performs on doubles is computed exactly on
  integers and rounded once. A result that is not a number is the canonical quiet NaN; a
  processor may choose another payload, and nothing here depends on it. The functions of
  the mathematics library that IEEE 754 does not determine (\<open>sin\<close>, \<open>pow\<close>, ...) are the
  fields of \<open>libm\<close>, a parameter of the models that call them.
\<close>

section \<open>Representation\<close>

datatype double = Double (dbl_bits: "64 word")

definition d_sign :: "double \<Rightarrow> bool" where
  "d_sign d = bit (dbl_bits d) 63"

definition d_exp :: "double \<Rightarrow> nat" where
  "d_exp d = unat (drop_bit 52 (dbl_bits d)) mod 2048"

definition d_mant :: "double \<Rightarrow> nat" where
  "d_mant d = unat (dbl_bits d) mod 2 ^ 52"

text \<open>\<open>FpFin s m e\<close> is \<open>(-1)\<^sup>s * m * 2\<^sup>e\<close>.\<close>

datatype fp = FpNaN | FpInf bool | FpFin bool nat int

definition fp_decode :: "double \<Rightarrow> fp" where
  "fp_decode d =
     (if d_exp d = 2047 then (if d_mant d = 0 then FpInf (d_sign d) else FpNaN)
      else if d_exp d = 0 then FpFin (d_sign d) (d_mant d) (-1074)
      else FpFin (d_sign d) (d_mant d + 2 ^ 52) (int (d_exp d) - 1075))"

definition sign_bits :: "bool \<Rightarrow> nat" where
  "sign_bits s = (if s then 2 ^ 63 else 0)"

definition d_nan :: double where
  "d_nan = Double 0x7FF8000000000000"

definition d_inf :: "bool \<Rightarrow> double" where
  "d_inf s = Double (of_nat (sign_bits s + 2047 * 2 ^ 52))"

definition d_zero :: "bool \<Rightarrow> double" where
  "d_zero s = Double (of_nat (sign_bits s))"

section \<open>Rounding\<close>

fun nat_bits :: "nat \<Rightarrow> nat" where
  "nat_bits n = (if n = 0 then 0 else Suc (nat_bits (n div 2)))"

declare nat_bits.simps [simp del]

text \<open>Quotient, remainder and divisor of \<open>n / (d * 2\<^sup>k)\<close>.\<close>

definition scaled_div :: "nat \<Rightarrow> nat \<Rightarrow> int \<Rightarrow> nat \<times> nat \<times> nat" where
  "scaled_div n d k =
     (if 0 \<le> k then let dd = d * 2 ^ nat k in (n div dd, n mod dd, dd)
      else let nn = n * 2 ^ nat (- k) in (nn div d, nn mod d, d))"

definition round_half_even :: "nat \<times> nat \<times> nat \<Rightarrow> nat" where
  "round_half_even qrd = (case qrd of (q, r, d) \<Rightarrow>
     if 2 * r < d then q else if 2 * r > d then Suc q else if even q then q else Suc q)"

text \<open>The bit pattern of \<open>q * 2\<^sup>x\<close> for \<open>q \<le> 2\<^sup>5\<^sup>3\<close>, infinity past the largest finite value.\<close>

definition fp_pack :: "bool \<Rightarrow> nat \<Rightarrow> int \<Rightarrow> double" where
  "fp_pack s q x =
     (if q < 2 ^ 52 then Double (of_nat (sign_bits s + q))
      else let b = nat (x + 1075) * 2 ^ 52 + (q - 2 ^ 52)
           in if 2047 * 2 ^ 52 \<le> b then d_inf s else Double (of_nat (sign_bits s + b)))"

text \<open>\<open>(-1)\<^sup>s * (n / d) * 2\<^sup>e\<close>, rounded.\<close>

definition fp_round :: "bool \<Rightarrow> nat \<Rightarrow> nat \<Rightarrow> int \<Rightarrow> double" where
  "fp_round s n d e =
     (if n = 0 then d_zero s
      else let k0 = int (nat_bits n) - int (nat_bits d) - 53;
               k1 = (if 2 ^ 53 \<le> fst (scaled_div n d k0) then k0 + 1 else k0);
               k = max k1 (- 1074 - e)
           in fp_pack s (round_half_even (scaled_div n d k)) (k + e))"

section \<open>Arithmetic\<close>

definition fp_int :: "bool \<Rightarrow> nat \<Rightarrow> int \<Rightarrow> int \<Rightarrow> int" where
  "fp_int s m e e0 = (if s then - 1 else 1) * int (m * 2 ^ nat (e - e0))"

definition fneg :: "double \<Rightarrow> double" where
  "fneg d = Double (dbl_bits d XOR 0x8000000000000000)"

definition fabs :: "double \<Rightarrow> double" where
  "fabs d = Double (dbl_bits d AND 0x7FFFFFFFFFFFFFFF)"

fun fp_add :: "fp \<Rightarrow> fp \<Rightarrow> double" where
  "fp_add FpNaN b = d_nan"
| "fp_add a FpNaN = d_nan"
| "fp_add (FpInf s) (FpInf t) = (if s = t then d_inf s else d_nan)"
| "fp_add (FpInf s) (FpFin _ _ _) = d_inf s"
| "fp_add (FpFin _ _ _) (FpInf t) = d_inf t"
| "fp_add (FpFin s m e) (FpFin t n f) =
     (let e0 = min e f; v = fp_int s m e e0 + fp_int t n f e0
      in if v = 0 then d_zero (s \<and> t) else fp_round (v < 0) (nat \<bar>v\<bar>) 1 e0)"

definition fadd :: "double \<Rightarrow> double \<Rightarrow> double" where
  "fadd a b = fp_add (fp_decode a) (fp_decode b)"

definition fsub :: "double \<Rightarrow> double \<Rightarrow> double" where
  "fsub a b = fadd a (fneg b)"

fun fp_mul :: "fp \<Rightarrow> fp \<Rightarrow> double" where
  "fp_mul FpNaN b = d_nan"
| "fp_mul a FpNaN = d_nan"
| "fp_mul (FpInf s) (FpInf t) = d_inf (s \<noteq> t)"
| "fp_mul (FpInf s) (FpFin t n _) = (if n = 0 then d_nan else d_inf (s \<noteq> t))"
| "fp_mul (FpFin s m _) (FpInf t) = (if m = 0 then d_nan else d_inf (s \<noteq> t))"
| "fp_mul (FpFin s m e) (FpFin t n f) = fp_round (s \<noteq> t) (m * n) 1 (e + f)"

definition fmul :: "double \<Rightarrow> double \<Rightarrow> double" where
  "fmul a b = fp_mul (fp_decode a) (fp_decode b)"

fun fp_div :: "fp \<Rightarrow> fp \<Rightarrow> double" where
  "fp_div FpNaN b = d_nan"
| "fp_div a FpNaN = d_nan"
| "fp_div (FpInf s) (FpInf t) = d_nan"
| "fp_div (FpInf s) (FpFin t _ _) = d_inf (s \<noteq> t)"
| "fp_div (FpFin s _ _) (FpInf t) = d_zero (s \<noteq> t)"
| "fp_div (FpFin s m e) (FpFin t n f) =
     (if n = 0 then (if m = 0 then d_nan else d_inf (s \<noteq> t))
      else fp_round (s \<noteq> t) m n (e - f))"

definition fdiv :: "double \<Rightarrow> double \<Rightarrow> double" where
  "fdiv a b = fp_div (fp_decode a) (fp_decode b)"

text \<open>\<open>std::fmod\<close>: the exact remainder with the sign of the dividend.\<close>

definition fmod :: "double \<Rightarrow> double \<Rightarrow> double" where
  "fmod a b = (case (fp_decode a, fp_decode b) of
     (FpFin s m e, FpFin t n f) \<Rightarrow>
       if n = 0 then d_nan
       else let e0 = min e f
            in fp_round s ((m * 2 ^ nat (e - e0)) mod (n * 2 ^ nat (f - e0))) 1 e0
   | (FpFin s m e, FpInf t) \<Rightarrow> a
   | _ \<Rightarrow> d_nan)"

section \<open>Comparison and classification\<close>

definition is_nan :: "double \<Rightarrow> bool" where
  "is_nan d = (fp_decode d = FpNaN)"

definition is_inf :: "double \<Rightarrow> bool" where
  "is_inf d = (case fp_decode d of FpInf _ \<Rightarrow> True | _ \<Rightarrow> False)"

definition is_finite :: "double \<Rightarrow> bool" where
  "is_finite d = (case fp_decode d of FpFin _ _ _ \<Rightarrow> True | _ \<Rightarrow> False)"

fun fp_less :: "fp \<Rightarrow> fp \<Rightarrow> bool" where
  "fp_less FpNaN b = False"
| "fp_less a FpNaN = False"
| "fp_less (FpInf s) (FpInf t) = (s \<and> \<not> t)"
| "fp_less (FpInf s) (FpFin _ _ _) = s"
| "fp_less (FpFin _ _ _) (FpInf t) = (\<not> t)"
| "fp_less (FpFin s m e) (FpFin t n f) =
     (let e0 = min e f in fp_int s m e e0 < fp_int t n f e0)"

fun fp_equal :: "fp \<Rightarrow> fp \<Rightarrow> bool" where
  "fp_equal FpNaN b = False"
| "fp_equal a FpNaN = False"
| "fp_equal (FpInf s) (FpInf t) = (s = t)"
| "fp_equal (FpInf s) (FpFin _ _ _) = False"
| "fp_equal (FpFin _ _ _) (FpInf t) = False"
| "fp_equal (FpFin s m e) (FpFin t n f) =
     (let e0 = min e f in fp_int s m e e0 = fp_int t n f e0)"

definition flt :: "double \<Rightarrow> double \<Rightarrow> bool" where
  "flt a b = fp_less (fp_decode a) (fp_decode b)"

definition feq :: "double \<Rightarrow> double \<Rightarrow> bool" where
  "feq a b = fp_equal (fp_decode a) (fp_decode b)"

definition fle :: "double \<Rightarrow> double \<Rightarrow> bool" where
  "fle a b = (flt a b \<or> feq a b)"

section \<open>Conversions and integral parts\<close>

definition of_int64 :: "int64 \<Rightarrow> double" where
  "of_int64 i = fp_round (sint i < 0) (nat \<bar>sint i\<bar>) 1 0"

text \<open>
  \<open>static_cast<int64_t>(double)\<close> truncates towards zero; it has no meaning when the
  truncated value does not fit, or there is none.
\<close>

definition fp_trunc :: "nat \<Rightarrow> int \<Rightarrow> nat" where
  "fp_trunc m e = (if 0 \<le> e then m * 2 ^ nat e else m div 2 ^ nat (- e))"

definition to_int64 :: "double \<Rightarrow> int64 option" where
  "to_int64 d = (case fp_decode d of
     FpFin s m e \<Rightarrow>
       let v = (if s then - int (fp_trunc m e) else int (fp_trunc m e))
       in if - (2 ^ 63) \<le> v \<and> v < 2 ^ 63 then Some (word_of_int v) else None
   | _ \<Rightarrow> None)"

text \<open>\<open>std::floor\<close> and \<open>std::ceil\<close>; a zero result keeps the sign of the argument.\<close>

definition ffloor :: "double \<Rightarrow> double" where
  "ffloor d = (case fp_decode d of
     FpFin s m e \<Rightarrow>
       if 0 \<le> e \<or> m = 0 then d
       else let q = m div 2 ^ nat (- e); r = m mod 2 ^ nat (- e)
            in fp_round s (if s \<and> r \<noteq> 0 then Suc q else q) 1 0
   | _ \<Rightarrow> d)"

definition fceil :: "double \<Rightarrow> double" where
  "fceil d = fneg (ffloor (fneg d))"

fun nat_sqrt :: "nat \<Rightarrow> nat" where
  "nat_sqrt n =
     (if n = 0 then 0
      else let r = 2 * nat_sqrt (n div 4) in if Suc r * Suc r \<le> n then Suc r else r)"

declare nat_sqrt.simps [simp del]

text \<open>
  \<open>std::sqrt\<close>: the integer square root of the mantissa scaled to at least 55 result bits,
  with a sticky bit below it, rounded once.
\<close>

definition fsqrt :: "double \<Rightarrow> double" where
  "fsqrt d = (case fp_decode d of
     FpNaN \<Rightarrow> d_nan
   | FpInf s \<Rightarrow> if s then d_nan else d
   | FpFin s m e \<Rightarrow>
       if m = 0 then d
       else if s then d_nan
       else let m' = (if even e then m else 2 * m); e' = (if even e then e else e - 1);
                n = m' * 2 ^ 110; r = nat_sqrt n
            in fp_round False (2 * r + (if r * r = n then 0 else 1)) 1 (e' div 2 - 56))"

section \<open>The mathematics library\<close>

record libm =
  lm_sin :: "double \<Rightarrow> double"
  lm_cos :: "double \<Rightarrow> double"
  lm_tan :: "double \<Rightarrow> double"
  lm_asin :: "double \<Rightarrow> double"
  lm_acos :: "double \<Rightarrow> double"
  lm_atan :: "double \<Rightarrow> double"
  lm_sinh :: "double \<Rightarrow> double"
  lm_cosh :: "double \<Rightarrow> double"
  lm_tanh :: "double \<Rightarrow> double"
  lm_asinh :: "double \<Rightarrow> double"
  lm_acosh :: "double \<Rightarrow> double"
  lm_atanh :: "double \<Rightarrow> double"
  lm_exp :: "double \<Rightarrow> double"
  lm_log :: "double \<Rightarrow> double"
  lm_atan2 :: "double \<Rightarrow> double \<Rightarrow> double"
  lm_pow :: "double \<Rightarrow> double \<Rightarrow> double"

section \<open>Laws\<close>

lemma feq_refl_iff: "feq a a \<longleftrightarrow> \<not> is_nan a"
  by (cases "fp_decode a") (auto simp: feq_def is_nan_def)

lemma flt_irrefl [simp]: "\<not> flt a a"
  by (cases "fp_decode a") (auto simp: flt_def)

lemma flt_feq_trichotomy:
  "\<not> is_nan a \<Longrightarrow> \<not> is_nan b \<Longrightarrow> flt a b \<or> feq a b \<or> flt b a"
  by (cases "fp_decode a"; cases "fp_decode b")
     (auto simp: flt_def feq_def is_nan_def min.commute Let_def)

lemma flt_not_feq: "flt a b \<Longrightarrow> \<not> feq a b \<and> \<not> flt b a"
  by (cases "fp_decode a"; cases "fp_decode b")
     (auto simp: flt_def feq_def min.commute Let_def)

lemma feq_sym: "feq a b \<longleftrightarrow> feq b a"
  by (cases "fp_decode a"; cases "fp_decode b")
     (auto simp: feq_def min.commute Let_def)

text \<open>
  The negation of \<open><\<close> is \<open>>=\<close> exactly when neither side is NaN: the fact that decides
  whether an inverted branch condition is sound.
\<close>

lemma not_flt_iff_fle: "\<not> is_nan a \<Longrightarrow> \<not> is_nan b \<Longrightarrow> (\<not> flt a b) \<longleftrightarrow> fle b a"
  using flt_feq_trichotomy [of a b] flt_not_feq [of a b] flt_not_feq [of b a]
  by (auto simp: fle_def feq_sym)

lemma nan_unordered: "is_nan a \<or> is_nan b \<Longrightarrow> \<not> flt a b \<and> \<not> fle a b \<and> \<not> feq a b"
  by (cases "fp_decode a"; cases "fp_decode b")
     (auto simp: flt_def feq_def fle_def is_nan_def)

lemma fneg_fneg [simp]: "fneg (fneg d) = d"
  by (cases d) (simp add: fneg_def xor.assoc)

end
