(* ===== verification/Globals.thy ===== *)
theory Globals
  imports Double "HOL-Library.Signed_Division"
begin

unbundle bit_operations_syntax

text \<open>
  The global functions of \<^verbatim>\<open>globals.h\<close> and \<^verbatim>\<open>globals.cpp\<close>: the table that says how each
  one is lowered, the lookups in it, and the evaluators the interpreter and the constant
  folder share. \<open>GFn_X\<close> names \<open>GlobalFn::X\<close>.
\<close>

section \<open>Identifiers\<close>

datatype GlobalFn = GlobalFn (fn_index: int)

abbreviation (input) GFn_PRINT :: GlobalFn where
  "GFn_PRINT \<equiv> GlobalFn 0"

abbreviation (input) GFn_PRINTERR :: GlobalFn where
  "GFn_PRINTERR \<equiv> GlobalFn 1"

abbreviation (input) GFn_PRINTRAW :: GlobalFn where
  "GFn_PRINTRAW \<equiv> GlobalFn 2"

abbreviation (input) GFn_PRINT_RICH :: GlobalFn where
  "GFn_PRINT_RICH \<equiv> GlobalFn 3"

abbreviation (input) GFn_PRINT_VERBOSE :: GlobalFn where
  "GFn_PRINT_VERBOSE \<equiv> GlobalFn 4"

abbreviation (input) GFn_PRINTS :: GlobalFn where
  "GFn_PRINTS \<equiv> GlobalFn 5"

abbreviation (input) GFn_PRINTT :: GlobalFn where
  "GFn_PRINTT \<equiv> GlobalFn 6"

abbreviation (input) GFn_PUSH_ERROR :: GlobalFn where
  "GFn_PUSH_ERROR \<equiv> GlobalFn 7"

abbreviation (input) GFn_PUSH_WARNING :: GlobalFn where
  "GFn_PUSH_WARNING \<equiv> GlobalFn 8"

abbreviation (input) GFn_ABS :: GlobalFn where
  "GFn_ABS \<equiv> GlobalFn 9"

abbreviation (input) GFn_SIGN :: GlobalFn where
  "GFn_SIGN \<equiv> GlobalFn 10"

abbreviation (input) GFn_FLOOR :: GlobalFn where
  "GFn_FLOOR \<equiv> GlobalFn 11"

abbreviation (input) GFn_CEIL :: GlobalFn where
  "GFn_CEIL \<equiv> GlobalFn 12"

abbreviation (input) GFn_ROUND :: GlobalFn where
  "GFn_ROUND \<equiv> GlobalFn 13"

abbreviation (input) GFn_MIN :: GlobalFn where
  "GFn_MIN \<equiv> GlobalFn 14"

abbreviation (input) GFn_MAX :: GlobalFn where
  "GFn_MAX \<equiv> GlobalFn 15"

abbreviation (input) GFn_CLAMP :: GlobalFn where
  "GFn_CLAMP \<equiv> GlobalFn 16"

abbreviation (input) GFn_SNAPPED :: GlobalFn where
  "GFn_SNAPPED \<equiv> GlobalFn 17"

abbreviation (input) GFn_WRAP :: GlobalFn where
  "GFn_WRAP \<equiv> GlobalFn 18"

abbreviation (input) GFn_ABSI :: GlobalFn where
  "GFn_ABSI \<equiv> GlobalFn 19"

abbreviation (input) GFn_SIGNI :: GlobalFn where
  "GFn_SIGNI \<equiv> GlobalFn 20"

abbreviation (input) GFn_MINI :: GlobalFn where
  "GFn_MINI \<equiv> GlobalFn 21"

abbreviation (input) GFn_MAXI :: GlobalFn where
  "GFn_MAXI \<equiv> GlobalFn 22"

abbreviation (input) GFn_CLAMPI :: GlobalFn where
  "GFn_CLAMPI \<equiv> GlobalFn 23"

abbreviation (input) GFn_WRAPI :: GlobalFn where
  "GFn_WRAPI \<equiv> GlobalFn 24"

abbreviation (input) GFn_POSMOD :: GlobalFn where
  "GFn_POSMOD \<equiv> GlobalFn 25"

abbreviation (input) GFn_INT_IDENTITY :: GlobalFn where
  "GFn_INT_IDENTITY \<equiv> GlobalFn 26"

abbreviation (input) GFn_ABSF :: GlobalFn where
  "GFn_ABSF \<equiv> GlobalFn 27"

abbreviation (input) GFn_MINF :: GlobalFn where
  "GFn_MINF \<equiv> GlobalFn 28"

abbreviation (input) GFn_MAXF :: GlobalFn where
  "GFn_MAXF \<equiv> GlobalFn 29"

abbreviation (input) GFn_CLAMPF :: GlobalFn where
  "GFn_CLAMPF \<equiv> GlobalFn 30"

abbreviation (input) GFn_SQRT :: GlobalFn where
  "GFn_SQRT \<equiv> GlobalFn 31"

abbreviation (input) GFn_SIGNF :: GlobalFn where
  "GFn_SIGNF \<equiv> GlobalFn 32"

abbreviation (input) GFn_FLOORF :: GlobalFn where
  "GFn_FLOORF \<equiv> GlobalFn 33"

abbreviation (input) GFn_CEILF :: GlobalFn where
  "GFn_CEILF \<equiv> GlobalFn 34"

abbreviation (input) GFn_ROUNDF :: GlobalFn where
  "GFn_ROUNDF \<equiv> GlobalFn 35"

abbreviation (input) GFn_FLOORI :: GlobalFn where
  "GFn_FLOORI \<equiv> GlobalFn 36"

abbreviation (input) GFn_CEILI :: GlobalFn where
  "GFn_CEILI \<equiv> GlobalFn 37"

abbreviation (input) GFn_ROUNDI :: GlobalFn where
  "GFn_ROUNDI \<equiv> GlobalFn 38"

abbreviation (input) GFn_SNAPPEDF :: GlobalFn where
  "GFn_SNAPPEDF \<equiv> GlobalFn 39"

abbreviation (input) GFn_SNAPPEDI :: GlobalFn where
  "GFn_SNAPPEDI \<equiv> GlobalFn 40"

abbreviation (input) GFn_WRAPF :: GlobalFn where
  "GFn_WRAPF \<equiv> GlobalFn 41"

abbreviation (input) GFn_SIN :: GlobalFn where
  "GFn_SIN \<equiv> GlobalFn 42"

abbreviation (input) GFn_COS :: GlobalFn where
  "GFn_COS \<equiv> GlobalFn 43"

abbreviation (input) GFn_TAN :: GlobalFn where
  "GFn_TAN \<equiv> GlobalFn 44"

abbreviation (input) GFn_ASIN :: GlobalFn where
  "GFn_ASIN \<equiv> GlobalFn 45"

abbreviation (input) GFn_ACOS :: GlobalFn where
  "GFn_ACOS \<equiv> GlobalFn 46"

abbreviation (input) GFn_ATAN :: GlobalFn where
  "GFn_ATAN \<equiv> GlobalFn 47"

abbreviation (input) GFn_ATAN2 :: GlobalFn where
  "GFn_ATAN2 \<equiv> GlobalFn 48"

abbreviation (input) GFn_SINH :: GlobalFn where
  "GFn_SINH \<equiv> GlobalFn 49"

abbreviation (input) GFn_COSH :: GlobalFn where
  "GFn_COSH \<equiv> GlobalFn 50"

abbreviation (input) GFn_TANH :: GlobalFn where
  "GFn_TANH \<equiv> GlobalFn 51"

abbreviation (input) GFn_ASINH :: GlobalFn where
  "GFn_ASINH \<equiv> GlobalFn 52"

abbreviation (input) GFn_ACOSH :: GlobalFn where
  "GFn_ACOSH \<equiv> GlobalFn 53"

abbreviation (input) GFn_ATANH :: GlobalFn where
  "GFn_ATANH \<equiv> GlobalFn 54"

abbreviation (input) GFn_EXP :: GlobalFn where
  "GFn_EXP \<equiv> GlobalFn 55"

abbreviation (input) GFn_LOG :: GlobalFn where
  "GFn_LOG \<equiv> GlobalFn 56"

abbreviation (input) GFn_POW :: GlobalFn where
  "GFn_POW \<equiv> GlobalFn 57"

abbreviation (input) GFn_FMOD :: GlobalFn where
  "GFn_FMOD \<equiv> GlobalFn 58"

abbreviation (input) GFn_FPOSMOD :: GlobalFn where
  "GFn_FPOSMOD \<equiv> GlobalFn 59"

abbreviation (input) GFn_DEG_TO_RAD :: GlobalFn where
  "GFn_DEG_TO_RAD \<equiv> GlobalFn 60"

abbreviation (input) GFn_RAD_TO_DEG :: GlobalFn where
  "GFn_RAD_TO_DEG \<equiv> GlobalFn 61"

abbreviation (input) GFn_LINEAR_TO_DB :: GlobalFn where
  "GFn_LINEAR_TO_DB \<equiv> GlobalFn 62"

abbreviation (input) GFn_DB_TO_LINEAR :: GlobalFn where
  "GFn_DB_TO_LINEAR \<equiv> GlobalFn 63"

abbreviation (input) GFn_LERP :: GlobalFn where
  "GFn_LERP \<equiv> GlobalFn 64"

abbreviation (input) GFn_LERPF :: GlobalFn where
  "GFn_LERPF \<equiv> GlobalFn 65"

abbreviation (input) GFn_INVERSE_LERP :: GlobalFn where
  "GFn_INVERSE_LERP \<equiv> GlobalFn 66"

abbreviation (input) GFn_REMAP :: GlobalFn where
  "GFn_REMAP \<equiv> GlobalFn 67"

abbreviation (input) GFn_SMOOTHSTEP :: GlobalFn where
  "GFn_SMOOTHSTEP \<equiv> GlobalFn 68"

abbreviation (input) GFn_MOVE_TOWARD :: GlobalFn where
  "GFn_MOVE_TOWARD \<equiv> GlobalFn 69"

abbreviation (input) GFn_LERP_ANGLE :: GlobalFn where
  "GFn_LERP_ANGLE \<equiv> GlobalFn 70"

abbreviation (input) GFn_ANGLE_DIFFERENCE :: GlobalFn where
  "GFn_ANGLE_DIFFERENCE \<equiv> GlobalFn 71"

abbreviation (input) GFn_ROTATE_TOWARD :: GlobalFn where
  "GFn_ROTATE_TOWARD \<equiv> GlobalFn 72"

abbreviation (input) GFn_PINGPONG :: GlobalFn where
  "GFn_PINGPONG \<equiv> GlobalFn 73"

abbreviation (input) GFn_CUBIC_INTERPOLATE :: GlobalFn where
  "GFn_CUBIC_INTERPOLATE \<equiv> GlobalFn 74"

abbreviation (input) GFn_CUBIC_INTERPOLATE_ANGLE :: GlobalFn where
  "GFn_CUBIC_INTERPOLATE_ANGLE \<equiv> GlobalFn 75"

abbreviation (input) GFn_CUBIC_INTERPOLATE_IN_TIME :: GlobalFn where
  "GFn_CUBIC_INTERPOLATE_IN_TIME \<equiv> GlobalFn 76"

abbreviation (input) GFn_CUBIC_INTERPOLATE_ANGLE_IN_TIME :: GlobalFn where
  "GFn_CUBIC_INTERPOLATE_ANGLE_IN_TIME \<equiv> GlobalFn 77"

abbreviation (input) GFn_BEZIER_INTERPOLATE :: GlobalFn where
  "GFn_BEZIER_INTERPOLATE \<equiv> GlobalFn 78"

abbreviation (input) GFn_BEZIER_DERIVATIVE :: GlobalFn where
  "GFn_BEZIER_DERIVATIVE \<equiv> GlobalFn 79"

abbreviation (input) GFn_IS_NAN :: GlobalFn where
  "GFn_IS_NAN \<equiv> GlobalFn 80"

abbreviation (input) GFn_IS_INF :: GlobalFn where
  "GFn_IS_INF \<equiv> GlobalFn 81"

abbreviation (input) GFn_IS_FINITE :: GlobalFn where
  "GFn_IS_FINITE \<equiv> GlobalFn 82"

abbreviation (input) GFn_IS_ZERO_APPROX :: GlobalFn where
  "GFn_IS_ZERO_APPROX \<equiv> GlobalFn 83"

abbreviation (input) GFn_IS_EQUAL_APPROX :: GlobalFn where
  "GFn_IS_EQUAL_APPROX \<equiv> GlobalFn 84"

abbreviation (input) GFn_EASE :: GlobalFn where
  "GFn_EASE \<equiv> GlobalFn 85"

abbreviation (input) GFn_STEP_DECIMALS :: GlobalFn where
  "GFn_STEP_DECIMALS \<equiv> GlobalFn 86"

abbreviation (input) GFn_NEAREST_PO2 :: GlobalFn where
  "GFn_NEAREST_PO2 \<equiv> GlobalFn 87"

abbreviation (input) GFn_STR :: GlobalFn where
  "GFn_STR \<equiv> GlobalFn 88"

abbreviation (input) GFn_LEN :: GlobalFn where
  "GFn_LEN \<equiv> GlobalFn 89"

abbreviation (input) GFn_HASH :: GlobalFn where
  "GFn_HASH \<equiv> GlobalFn 90"

abbreviation (input) GFn_VAR_TO_STR :: GlobalFn where
  "GFn_VAR_TO_STR \<equiv> GlobalFn 91"

abbreviation (input) GFn_STR_TO_VAR :: GlobalFn where
  "GFn_STR_TO_VAR \<equiv> GlobalFn 92"

abbreviation (input) GFn_VAR_TO_BYTES :: GlobalFn where
  "GFn_VAR_TO_BYTES \<equiv> GlobalFn 93"

abbreviation (input) GFn_BYTES_TO_VAR :: GlobalFn where
  "GFn_BYTES_TO_VAR \<equiv> GlobalFn 94"

abbreviation (input) GFn_TYPE_STRING :: GlobalFn where
  "GFn_TYPE_STRING \<equiv> GlobalFn 95"

abbreviation (input) GFn_TYPE_CONVERT :: GlobalFn where
  "GFn_TYPE_CONVERT \<equiv> GlobalFn 96"

abbreviation (input) GFn_ERROR_STRING :: GlobalFn where
  "GFn_ERROR_STRING \<equiv> GlobalFn 97"

abbreviation (input) GFn_IS_SAME :: GlobalFn where
  "GFn_IS_SAME \<equiv> GlobalFn 98"

abbreviation (input) GFn_IS_INSTANCE_VALID :: GlobalFn where
  "GFn_IS_INSTANCE_VALID \<equiv> GlobalFn 99"

abbreviation (input) GFn_IS_INSTANCE_OF :: GlobalFn where
  "GFn_IS_INSTANCE_OF \<equiv> GlobalFn 100"

abbreviation (input) GFn_CHAR :: GlobalFn where
  "GFn_CHAR \<equiv> GlobalFn 101"

abbreviation (input) GFn_ORD :: GlobalFn where
  "GFn_ORD \<equiv> GlobalFn 102"

abbreviation (input) GFn_RAND_FROM_SEED :: GlobalFn where
  "GFn_RAND_FROM_SEED \<equiv> GlobalFn 103"

abbreviation (input) GFn_RANDOMIZE :: GlobalFn where
  "GFn_RANDOMIZE \<equiv> GlobalFn 104"

abbreviation (input) GFn_SEED :: GlobalFn where
  "GFn_SEED \<equiv> GlobalFn 105"

abbreviation (input) GFn_RANDF :: GlobalFn where
  "GFn_RANDF \<equiv> GlobalFn 106"

abbreviation (input) GFn_RANDF_RANGE :: GlobalFn where
  "GFn_RANDF_RANGE \<equiv> GlobalFn 107"

abbreviation (input) GFn_RANDFN :: GlobalFn where
  "GFn_RANDFN \<equiv> GlobalFn 108"

abbreviation (input) GFn_RANDI :: GlobalFn where
  "GFn_RANDI \<equiv> GlobalFn 109"

abbreviation (input) GFn_RANDI_RANGE :: GlobalFn where
  "GFn_RANDI_RANGE \<equiv> GlobalFn 110"

abbreviation (input) GFn_TO_INT :: GlobalFn where
  "GFn_TO_INT \<equiv> GlobalFn 111"

abbreviation (input) GFn_TO_FLOAT :: GlobalFn where
  "GFn_TO_FLOAT \<equiv> GlobalFn 112"

abbreviation (input) GFn_TO_BOOL :: GlobalFn where
  "GFn_TO_BOOL \<equiv> GlobalFn 113"

abbreviation (input) GFn_TO_STRING :: GlobalFn where
  "GFn_TO_STRING \<equiv> GlobalFn 114"

abbreviation (input) GFn_FLOAT_IDENTITY :: GlobalFn where
  "GFn_FLOAT_IDENTITY \<equiv> GlobalFn 115"

abbreviation (input) GFn_BOOLEANIZE :: GlobalFn where
  "GFn_BOOLEANIZE \<equiv> GlobalFn 116"

text \<open>\<open>static_cast<GlobalFn>(int64_t)\<close>: the low sixteen bits, signed.\<close>

definition global_fn_of :: "int64 \<Rightarrow> GlobalFn" where
  "global_fn_of i = GlobalFn (sint (ucast i :: 16 word))"

datatype GlobalKind =
    KIND_PRINT | KIND_NUMERIC | KIND_INT_OP | KIND_FLOAT_OP | KIND_SYSCALL
  | KIND_SYSCALL_INT | KIND_CAST | KIND_HOST

datatype GlobalResult =
    RESULT_NIL | RESULT_BOOL | RESULT_INT | RESULT_FLOAT | RESULT_STRING
  | RESULT_NUMERIC | RESULT_VARIANT

abbreviation (input) UTILITY_STR :: int where
  "UTILITY_STR \<equiv> 0"

abbreviation (input) UTILITY_LEN :: int where
  "UTILITY_LEN \<equiv> 1"

abbreviation (input) UTILITY_FLOOR :: int where
  "UTILITY_FLOOR \<equiv> 2"

abbreviation (input) UTILITY_CEIL :: int where
  "UTILITY_CEIL \<equiv> 3"

abbreviation (input) UTILITY_ROUND :: int where
  "UTILITY_ROUND \<equiv> 4"

abbreviation (input) UTILITY_SIGN :: int where
  "UTILITY_SIGN \<equiv> 5"

abbreviation (input) UTILITY_SIN :: int where
  "UTILITY_SIN \<equiv> 6"

abbreviation (input) UTILITY_COS :: int where
  "UTILITY_COS \<equiv> 7"

abbreviation (input) UTILITY_TAN :: int where
  "UTILITY_TAN \<equiv> 8"

abbreviation (input) UTILITY_ASIN :: int where
  "UTILITY_ASIN \<equiv> 9"

abbreviation (input) UTILITY_ACOS :: int where
  "UTILITY_ACOS \<equiv> 10"

abbreviation (input) UTILITY_ATAN :: int where
  "UTILITY_ATAN \<equiv> 11"

abbreviation (input) UTILITY_SINH :: int where
  "UTILITY_SINH \<equiv> 12"

abbreviation (input) UTILITY_COSH :: int where
  "UTILITY_COSH \<equiv> 13"

abbreviation (input) UTILITY_TANH :: int where
  "UTILITY_TANH \<equiv> 14"

abbreviation (input) UTILITY_ASINH :: int where
  "UTILITY_ASINH \<equiv> 15"

abbreviation (input) UTILITY_ACOSH :: int where
  "UTILITY_ACOSH \<equiv> 16"

abbreviation (input) UTILITY_ATANH :: int where
  "UTILITY_ATANH \<equiv> 17"

abbreviation (input) UTILITY_EXP :: int where
  "UTILITY_EXP \<equiv> 18"

abbreviation (input) UTILITY_LOG :: int where
  "UTILITY_LOG \<equiv> 19"

abbreviation (input) UTILITY_DEG_TO_RAD :: int where
  "UTILITY_DEG_TO_RAD \<equiv> 20"

abbreviation (input) UTILITY_RAD_TO_DEG :: int where
  "UTILITY_RAD_TO_DEG \<equiv> 21"

abbreviation (input) UTILITY_LINEAR_TO_DB :: int where
  "UTILITY_LINEAR_TO_DB \<equiv> 22"

abbreviation (input) UTILITY_DB_TO_LINEAR :: int where
  "UTILITY_DB_TO_LINEAR \<equiv> 23"

abbreviation (input) UTILITY_IS_NAN :: int where
  "UTILITY_IS_NAN \<equiv> 24"

abbreviation (input) UTILITY_IS_INF :: int where
  "UTILITY_IS_INF \<equiv> 25"

abbreviation (input) UTILITY_IS_FINITE :: int where
  "UTILITY_IS_FINITE \<equiv> 26"

abbreviation (input) UTILITY_IS_ZERO_APPROX :: int where
  "UTILITY_IS_ZERO_APPROX \<equiv> 27"

abbreviation (input) UTILITY_ATAN2 :: int where
  "UTILITY_ATAN2 \<equiv> 28"

abbreviation (input) UTILITY_POW :: int where
  "UTILITY_POW \<equiv> 29"

abbreviation (input) UTILITY_FMOD :: int where
  "UTILITY_FMOD \<equiv> 30"

abbreviation (input) UTILITY_FPOSMOD :: int where
  "UTILITY_FPOSMOD \<equiv> 31"

abbreviation (input) UTILITY_SNAPPED :: int where
  "UTILITY_SNAPPED \<equiv> 32"

abbreviation (input) UTILITY_IS_EQUAL_APPROX :: int where
  "UTILITY_IS_EQUAL_APPROX \<equiv> 33"

abbreviation (input) UTILITY_ANGLE_DIFFERENCE :: int where
  "UTILITY_ANGLE_DIFFERENCE \<equiv> 34"

abbreviation (input) UTILITY_PINGPONG :: int where
  "UTILITY_PINGPONG \<equiv> 35"

abbreviation (input) UTILITY_LERP :: int where
  "UTILITY_LERP \<equiv> 36"

abbreviation (input) UTILITY_INVERSE_LERP :: int where
  "UTILITY_INVERSE_LERP \<equiv> 37"

abbreviation (input) UTILITY_SMOOTHSTEP :: int where
  "UTILITY_SMOOTHSTEP \<equiv> 38"

abbreviation (input) UTILITY_MOVE_TOWARD :: int where
  "UTILITY_MOVE_TOWARD \<equiv> 39"

abbreviation (input) UTILITY_LERP_ANGLE :: int where
  "UTILITY_LERP_ANGLE \<equiv> 40"

abbreviation (input) UTILITY_ROTATE_TOWARD :: int where
  "UTILITY_ROTATE_TOWARD \<equiv> 41"

abbreviation (input) UTILITY_WRAP :: int where
  "UTILITY_WRAP \<equiv> 42"

abbreviation (input) UTILITY_REMAP :: int where
  "UTILITY_REMAP \<equiv> 43"

abbreviation (input) UTILITY_CUBIC_INTERPOLATE :: int where
  "UTILITY_CUBIC_INTERPOLATE \<equiv> 44"

abbreviation (input) UTILITY_BEZIER_INTERPOLATE :: int where
  "UTILITY_BEZIER_INTERPOLATE \<equiv> 45"

abbreviation (input) UTILITY_BEZIER_DERIVATIVE :: int where
  "UTILITY_BEZIER_DERIVATIVE \<equiv> 46"

abbreviation (input) UTILITY_TO_INT :: int where
  "UTILITY_TO_INT \<equiv> 47"

abbreviation (input) UTILITY_TO_FLOAT :: int where
  "UTILITY_TO_FLOAT \<equiv> 48"

abbreviation (input) UTILITY_TO_BOOL :: int where
  "UTILITY_TO_BOOL \<equiv> 49"

abbreviation (input) UTILITY_RANDF :: int where
  "UTILITY_RANDF \<equiv> 50"

abbreviation (input) UTILITY_RANDF_RANGE :: int where
  "UTILITY_RANDF_RANGE \<equiv> 51"

abbreviation (input) UTILITY_RANDFN :: int where
  "UTILITY_RANDFN \<equiv> 52"

abbreviation (input) UTILITY_RANDI :: int where
  "UTILITY_RANDI \<equiv> 53"

abbreviation (input) UTILITY_RANDI_RANGE :: int where
  "UTILITY_RANDI_RANGE \<equiv> 54"

abbreviation (input) UTILITY_EASE :: int where
  "UTILITY_EASE \<equiv> 55"

abbreviation (input) UTILITY_STEP_DECIMALS :: int where
  "UTILITY_STEP_DECIMALS \<equiv> 56"

abbreviation (input) UTILITY_NEAREST_PO2 :: int where
  "UTILITY_NEAREST_PO2 \<equiv> 57"

abbreviation (input) UTILITY_HASH :: int where
  "UTILITY_HASH \<equiv> 58"

abbreviation (input) UTILITY_VAR_TO_STR :: int where
  "UTILITY_VAR_TO_STR \<equiv> 59"

abbreviation (input) UTILITY_STR_TO_VAR :: int where
  "UTILITY_STR_TO_VAR \<equiv> 60"

abbreviation (input) UTILITY_VAR_TO_BYTES :: int where
  "UTILITY_VAR_TO_BYTES \<equiv> 61"

abbreviation (input) UTILITY_BYTES_TO_VAR :: int where
  "UTILITY_BYTES_TO_VAR \<equiv> 62"

abbreviation (input) UTILITY_TYPE_STRING :: int where
  "UTILITY_TYPE_STRING \<equiv> 63"

abbreviation (input) UTILITY_TYPE_CONVERT :: int where
  "UTILITY_TYPE_CONVERT \<equiv> 64"

abbreviation (input) UTILITY_ERROR_STRING :: int where
  "UTILITY_ERROR_STRING \<equiv> 65"

abbreviation (input) UTILITY_IS_SAME :: int where
  "UTILITY_IS_SAME \<equiv> 66"

abbreviation (input) UTILITY_IS_INSTANCE_VALID :: int where
  "UTILITY_IS_INSTANCE_VALID \<equiv> 69"

abbreviation (input) UTILITY_CHAR :: int where
  "UTILITY_CHAR \<equiv> 67"

abbreviation (input) UTILITY_ORD :: int where
  "UTILITY_ORD \<equiv> 68"

abbreviation (input) UTILITY_CUBIC_INTERPOLATE_ANGLE :: int where
  "UTILITY_CUBIC_INTERPOLATE_ANGLE \<equiv> 70"

abbreviation (input) UTILITY_CUBIC_INTERPOLATE_IN_TIME :: int where
  "UTILITY_CUBIC_INTERPOLATE_IN_TIME \<equiv> 71"

abbreviation (input) UTILITY_CUBIC_INTERPOLATE_ANGLE_IN_TIME :: int where
  "UTILITY_CUBIC_INTERPOLATE_ANGLE_IN_TIME \<equiv> 72"

abbreviation (input) UTILITY_RAND_FROM_SEED :: int where
  "UTILITY_RAND_FROM_SEED \<equiv> 73"

abbreviation (input) UTILITY_RANDOMIZE :: int where
  "UTILITY_RANDOMIZE \<equiv> 74"

abbreviation (input) UTILITY_SEED :: int where
  "UTILITY_SEED \<equiv> 75"

abbreviation (input) UTILITY_IS_INSTANCE_OF :: int where
  "UTILITY_IS_INSTANCE_OF \<equiv> 76"

section \<open>The table\<close>

record GlobalFunction =
  gf_name :: string
  gf_fn :: GlobalFn
  gf_kind :: GlobalKind
  gf_min_args :: nat
  gf_max_args :: nat
  gf_result :: GlobalResult
  gf_utility_op :: int
  gf_float_args :: nat
  gf_int_form :: GlobalFn
  gf_float_form :: GlobalFn
  gf_impure :: bool
  gf_unrestricted_only :: bool

definition gf_row ::
  "string \<Rightarrow> GlobalFn \<Rightarrow> GlobalKind \<Rightarrow> nat \<Rightarrow> nat \<Rightarrow> GlobalResult \<Rightarrow> int \<Rightarrow> nat \<Rightarrow>
   GlobalFn \<Rightarrow> GlobalFn \<Rightarrow> bool \<Rightarrow> bool \<Rightarrow> GlobalFunction" where
  "gf_row n f k mn mx r u fa i fl im un =
     \<lparr>gf_name = n, gf_fn = f, gf_kind = k, gf_min_args = mn, gf_max_args = mx,
      gf_result = r, gf_utility_op = u, gf_float_args = fa, gf_int_form = i,
      gf_float_form = fl, gf_impure = im, gf_unrestricted_only = un\<rparr>"

definition GLOBAL_FUNCTIONS :: "GlobalFunction list" where
  "GLOBAL_FUNCTIONS = [
    gf_row ''print'' GFn_PRINT KIND_PRINT 0 63 RESULT_NIL 0 0 GFn_PRINT GFn_PRINT False False,
    gf_row ''prints'' GFn_PRINTS KIND_PRINT 0 63 RESULT_NIL 1 0 GFn_PRINT GFn_PRINT False False,
    gf_row ''printt'' GFn_PRINTT KIND_PRINT 0 63 RESULT_NIL 2 0 GFn_PRINT GFn_PRINT False False,
    gf_row ''printraw'' GFn_PRINTRAW KIND_PRINT 0 63 RESULT_NIL 3 0 GFn_PRINT GFn_PRINT False False,
    gf_row ''print_rich'' GFn_PRINT_RICH KIND_PRINT 0 63 RESULT_NIL 4 0 GFn_PRINT GFn_PRINT False False,
    gf_row ''printerr'' GFn_PRINTERR KIND_PRINT 0 63 RESULT_NIL 5 0 GFn_PRINT GFn_PRINT False False,
    gf_row ''print_verbose'' GFn_PRINT_VERBOSE KIND_PRINT 0 63 RESULT_NIL 6 0 GFn_PRINT GFn_PRINT False False,
    gf_row ''push_error'' GFn_PUSH_ERROR KIND_PRINT 1 63 RESULT_NIL 7 0 GFn_PRINT GFn_PRINT False False,
    gf_row ''push_warning'' GFn_PUSH_WARNING KIND_PRINT 1 63 RESULT_NIL 8 0 GFn_PRINT GFn_PRINT False False,
    gf_row ''abs'' GFn_ABS KIND_NUMERIC 1 1 RESULT_NUMERIC (- 1) 0 GFn_ABSI GFn_ABSF False False,
    gf_row ''absi'' GFn_ABSI KIND_INT_OP 1 1 RESULT_INT (- 1) 0 GFn_PRINT GFn_PRINT False False,
    gf_row ''absf'' GFn_ABSF KIND_FLOAT_OP 1 1 RESULT_FLOAT (- 1) 0 GFn_PRINT GFn_PRINT False False,
    gf_row ''sign'' GFn_SIGN KIND_NUMERIC 1 1 RESULT_NUMERIC (- 1) 0 GFn_SIGNI GFn_SIGNF False False,
    gf_row ''signi'' GFn_SIGNI KIND_INT_OP 1 1 RESULT_INT (- 1) 0 GFn_PRINT GFn_PRINT False False,
    gf_row ''signf'' GFn_SIGNF KIND_SYSCALL 1 1 RESULT_FLOAT UTILITY_SIGN 1 GFn_PRINT GFn_PRINT False False,
    gf_row ''floor'' GFn_FLOOR KIND_NUMERIC 1 1 RESULT_NUMERIC (- 1) 0 GFn_INT_IDENTITY GFn_FLOORF False False,
    gf_row ''floorf'' GFn_FLOORF KIND_SYSCALL 1 1 RESULT_FLOAT UTILITY_FLOOR 1 GFn_PRINT GFn_PRINT False False,
    gf_row ''floori'' GFn_FLOORI KIND_SYSCALL 1 1 RESULT_INT UTILITY_FLOOR 1 GFn_PRINT GFn_PRINT False False,
    gf_row ''ceil'' GFn_CEIL KIND_NUMERIC 1 1 RESULT_NUMERIC (- 1) 0 GFn_INT_IDENTITY GFn_CEILF False False,
    gf_row ''ceilf'' GFn_CEILF KIND_SYSCALL 1 1 RESULT_FLOAT UTILITY_CEIL 1 GFn_PRINT GFn_PRINT False False,
    gf_row ''ceili'' GFn_CEILI KIND_SYSCALL 1 1 RESULT_INT UTILITY_CEIL 1 GFn_PRINT GFn_PRINT False False,
    gf_row ''round'' GFn_ROUND KIND_NUMERIC 1 1 RESULT_NUMERIC (- 1) 0 GFn_INT_IDENTITY GFn_ROUNDF False False,
    gf_row ''roundf'' GFn_ROUNDF KIND_SYSCALL 1 1 RESULT_FLOAT UTILITY_ROUND 1 GFn_PRINT GFn_PRINT False False,
    gf_row ''roundi'' GFn_ROUNDI KIND_SYSCALL 1 1 RESULT_INT UTILITY_ROUND 1 GFn_PRINT GFn_PRINT False False,
    gf_row ''snapped'' GFn_SNAPPED KIND_NUMERIC 2 2 RESULT_NUMERIC (- 1) 0 GFn_SNAPPEDI GFn_SNAPPEDF False False,
    gf_row ''snappedf'' GFn_SNAPPEDF KIND_SYSCALL 2 2 RESULT_FLOAT UTILITY_SNAPPED 2 GFn_PRINT GFn_PRINT False False,
    gf_row ''snappedi'' GFn_SNAPPEDI KIND_SYSCALL 2 2 RESULT_INT UTILITY_SNAPPED 2 GFn_PRINT GFn_PRINT False False,
    gf_row ''min'' GFn_MIN KIND_NUMERIC 2 63 RESULT_NUMERIC (- 1) 0 GFn_MINI GFn_MINF False False,
    gf_row ''mini'' GFn_MINI KIND_INT_OP 2 2 RESULT_INT (- 1) 0 GFn_PRINT GFn_PRINT False False,
    gf_row ''minf'' GFn_MINF KIND_FLOAT_OP 2 2 RESULT_FLOAT (- 1) 0 GFn_PRINT GFn_PRINT False False,
    gf_row ''max'' GFn_MAX KIND_NUMERIC 2 63 RESULT_NUMERIC (- 1) 0 GFn_MAXI GFn_MAXF False False,
    gf_row ''maxi'' GFn_MAXI KIND_INT_OP 2 2 RESULT_INT (- 1) 0 GFn_PRINT GFn_PRINT False False,
    gf_row ''maxf'' GFn_MAXF KIND_FLOAT_OP 2 2 RESULT_FLOAT (- 1) 0 GFn_PRINT GFn_PRINT False False,
    gf_row ''clamp'' GFn_CLAMP KIND_NUMERIC 3 3 RESULT_NUMERIC (- 1) 0 GFn_CLAMPI GFn_CLAMPF False False,
    gf_row ''clampi'' GFn_CLAMPI KIND_INT_OP 3 3 RESULT_INT (- 1) 0 GFn_PRINT GFn_PRINT False False,
    gf_row ''clampf'' GFn_CLAMPF KIND_FLOAT_OP 3 3 RESULT_FLOAT (- 1) 0 GFn_PRINT GFn_PRINT False False,
    gf_row ''posmod'' GFn_POSMOD KIND_INT_OP 2 2 RESULT_INT (- 1) 0 GFn_PRINT GFn_PRINT False False,
    gf_row ''fmod'' GFn_FMOD KIND_SYSCALL 2 2 RESULT_FLOAT UTILITY_FMOD 2 GFn_PRINT GFn_PRINT False False,
    gf_row ''fposmod'' GFn_FPOSMOD KIND_SYSCALL 2 2 RESULT_FLOAT UTILITY_FPOSMOD 2 GFn_PRINT GFn_PRINT False False,
    gf_row ''wrap'' GFn_WRAP KIND_NUMERIC 3 3 RESULT_NUMERIC (- 1) 0 GFn_WRAPI GFn_WRAPF False False,
    gf_row ''wrapi'' GFn_WRAPI KIND_INT_OP 3 3 RESULT_INT (- 1) 0 GFn_PRINT GFn_PRINT False False,
    gf_row ''wrapf'' GFn_WRAPF KIND_SYSCALL 3 3 RESULT_FLOAT UTILITY_WRAP 3 GFn_PRINT GFn_PRINT False False,
    gf_row ''sqrt'' GFn_SQRT KIND_FLOAT_OP 1 1 RESULT_FLOAT (- 1) 0 GFn_PRINT GFn_PRINT False False,
    gf_row ''pow'' GFn_POW KIND_SYSCALL 2 2 RESULT_FLOAT UTILITY_POW 2 GFn_PRINT GFn_PRINT False False,
    gf_row ''exp'' GFn_EXP KIND_SYSCALL 1 1 RESULT_FLOAT UTILITY_EXP 1 GFn_PRINT GFn_PRINT False False,
    gf_row ''log'' GFn_LOG KIND_SYSCALL 1 1 RESULT_FLOAT UTILITY_LOG 1 GFn_PRINT GFn_PRINT False False,
    gf_row ''sin'' GFn_SIN KIND_SYSCALL 1 1 RESULT_FLOAT UTILITY_SIN 1 GFn_PRINT GFn_PRINT False False,
    gf_row ''cos'' GFn_COS KIND_SYSCALL 1 1 RESULT_FLOAT UTILITY_COS 1 GFn_PRINT GFn_PRINT False False,
    gf_row ''tan'' GFn_TAN KIND_SYSCALL 1 1 RESULT_FLOAT UTILITY_TAN 1 GFn_PRINT GFn_PRINT False False,
    gf_row ''asin'' GFn_ASIN KIND_SYSCALL 1 1 RESULT_FLOAT UTILITY_ASIN 1 GFn_PRINT GFn_PRINT False False,
    gf_row ''acos'' GFn_ACOS KIND_SYSCALL 1 1 RESULT_FLOAT UTILITY_ACOS 1 GFn_PRINT GFn_PRINT False False,
    gf_row ''atan'' GFn_ATAN KIND_SYSCALL 1 1 RESULT_FLOAT UTILITY_ATAN 1 GFn_PRINT GFn_PRINT False False,
    gf_row ''atan2'' GFn_ATAN2 KIND_SYSCALL 2 2 RESULT_FLOAT UTILITY_ATAN2 2 GFn_PRINT GFn_PRINT False False,
    gf_row ''sinh'' GFn_SINH KIND_SYSCALL 1 1 RESULT_FLOAT UTILITY_SINH 1 GFn_PRINT GFn_PRINT False False,
    gf_row ''cosh'' GFn_COSH KIND_SYSCALL 1 1 RESULT_FLOAT UTILITY_COSH 1 GFn_PRINT GFn_PRINT False False,
    gf_row ''tanh'' GFn_TANH KIND_SYSCALL 1 1 RESULT_FLOAT UTILITY_TANH 1 GFn_PRINT GFn_PRINT False False,
    gf_row ''asinh'' GFn_ASINH KIND_SYSCALL 1 1 RESULT_FLOAT UTILITY_ASINH 1 GFn_PRINT GFn_PRINT False False,
    gf_row ''acosh'' GFn_ACOSH KIND_SYSCALL 1 1 RESULT_FLOAT UTILITY_ACOSH 1 GFn_PRINT GFn_PRINT False False,
    gf_row ''atanh'' GFn_ATANH KIND_SYSCALL 1 1 RESULT_FLOAT UTILITY_ATANH 1 GFn_PRINT GFn_PRINT False False,
    gf_row ''deg_to_rad'' GFn_DEG_TO_RAD KIND_SYSCALL 1 1 RESULT_FLOAT UTILITY_DEG_TO_RAD 1 GFn_PRINT GFn_PRINT False False,
    gf_row ''rad_to_deg'' GFn_RAD_TO_DEG KIND_SYSCALL 1 1 RESULT_FLOAT UTILITY_RAD_TO_DEG 1 GFn_PRINT GFn_PRINT False False,
    gf_row ''angle_difference'' GFn_ANGLE_DIFFERENCE KIND_SYSCALL 2 2 RESULT_FLOAT UTILITY_ANGLE_DIFFERENCE 2 GFn_PRINT GFn_PRINT False False,
    gf_row ''linear_to_db'' GFn_LINEAR_TO_DB KIND_SYSCALL 1 1 RESULT_FLOAT UTILITY_LINEAR_TO_DB 1 GFn_PRINT GFn_PRINT False False,
    gf_row ''db_to_linear'' GFn_DB_TO_LINEAR KIND_SYSCALL 1 1 RESULT_FLOAT UTILITY_DB_TO_LINEAR 1 GFn_PRINT GFn_PRINT False False,
    gf_row ''lerp'' GFn_LERP KIND_SYSCALL 3 3 RESULT_FLOAT UTILITY_LERP 3 GFn_PRINT GFn_PRINT False False,
    gf_row ''lerpf'' GFn_LERPF KIND_SYSCALL 3 3 RESULT_FLOAT UTILITY_LERP 3 GFn_PRINT GFn_PRINT False False,
    gf_row ''lerp_angle'' GFn_LERP_ANGLE KIND_SYSCALL 3 3 RESULT_FLOAT UTILITY_LERP_ANGLE 3 GFn_PRINT GFn_PRINT False False,
    gf_row ''inverse_lerp'' GFn_INVERSE_LERP KIND_SYSCALL 3 3 RESULT_FLOAT UTILITY_INVERSE_LERP 3 GFn_PRINT GFn_PRINT False False,
    gf_row ''remap'' GFn_REMAP KIND_SYSCALL 5 5 RESULT_FLOAT UTILITY_REMAP 5 GFn_PRINT GFn_PRINT False False,
    gf_row ''smoothstep'' GFn_SMOOTHSTEP KIND_SYSCALL 3 3 RESULT_FLOAT UTILITY_SMOOTHSTEP 3 GFn_PRINT GFn_PRINT False False,
    gf_row ''move_toward'' GFn_MOVE_TOWARD KIND_SYSCALL 3 3 RESULT_FLOAT UTILITY_MOVE_TOWARD 3 GFn_PRINT GFn_PRINT False False,
    gf_row ''rotate_toward'' GFn_ROTATE_TOWARD KIND_SYSCALL 3 3 RESULT_FLOAT UTILITY_ROTATE_TOWARD 3 GFn_PRINT GFn_PRINT False False,
    gf_row ''pingpong'' GFn_PINGPONG KIND_SYSCALL 2 2 RESULT_FLOAT UTILITY_PINGPONG 2 GFn_PRINT GFn_PRINT False False,
    gf_row ''cubic_interpolate'' GFn_CUBIC_INTERPOLATE KIND_SYSCALL 5 5 RESULT_FLOAT UTILITY_CUBIC_INTERPOLATE 5 GFn_PRINT GFn_PRINT False False,
    gf_row ''cubic_interpolate_angle'' GFn_CUBIC_INTERPOLATE_ANGLE KIND_SYSCALL 5 5 RESULT_FLOAT UTILITY_CUBIC_INTERPOLATE_ANGLE 5 GFn_PRINT GFn_PRINT False False,
    gf_row ''cubic_interpolate_in_time'' GFn_CUBIC_INTERPOLATE_IN_TIME KIND_SYSCALL 8 8 RESULT_FLOAT UTILITY_CUBIC_INTERPOLATE_IN_TIME 8 GFn_PRINT GFn_PRINT False False,
    gf_row ''cubic_interpolate_angle_in_time'' GFn_CUBIC_INTERPOLATE_ANGLE_IN_TIME KIND_SYSCALL 8 8 RESULT_FLOAT UTILITY_CUBIC_INTERPOLATE_ANGLE_IN_TIME 8 GFn_PRINT GFn_PRINT False False,
    gf_row ''bezier_interpolate'' GFn_BEZIER_INTERPOLATE KIND_SYSCALL 5 5 RESULT_FLOAT UTILITY_BEZIER_INTERPOLATE 5 GFn_PRINT GFn_PRINT False False,
    gf_row ''bezier_derivative'' GFn_BEZIER_DERIVATIVE KIND_SYSCALL 5 5 RESULT_FLOAT UTILITY_BEZIER_DERIVATIVE 5 GFn_PRINT GFn_PRINT False False,
    gf_row ''is_nan'' GFn_IS_NAN KIND_SYSCALL 1 1 RESULT_BOOL UTILITY_IS_NAN 1 GFn_PRINT GFn_PRINT False False,
    gf_row ''is_inf'' GFn_IS_INF KIND_SYSCALL 1 1 RESULT_BOOL UTILITY_IS_INF 1 GFn_PRINT GFn_PRINT False False,
    gf_row ''is_finite'' GFn_IS_FINITE KIND_SYSCALL 1 1 RESULT_BOOL UTILITY_IS_FINITE 1 GFn_PRINT GFn_PRINT False False,
    gf_row ''is_zero_approx'' GFn_IS_ZERO_APPROX KIND_SYSCALL 1 1 RESULT_BOOL UTILITY_IS_ZERO_APPROX 1 GFn_PRINT GFn_PRINT False False,
    gf_row ''is_equal_approx'' GFn_IS_EQUAL_APPROX KIND_SYSCALL 2 2 RESULT_BOOL UTILITY_IS_EQUAL_APPROX 2 GFn_PRINT GFn_PRINT False False,
    gf_row ''ease'' GFn_EASE KIND_SYSCALL 2 2 RESULT_FLOAT UTILITY_EASE 2 GFn_PRINT GFn_PRINT False False,
    gf_row ''step_decimals'' GFn_STEP_DECIMALS KIND_SYSCALL 1 1 RESULT_INT UTILITY_STEP_DECIMALS 1 GFn_PRINT GFn_PRINT False False,
    gf_row ''nearest_po2'' GFn_NEAREST_PO2 KIND_SYSCALL_INT 1 1 RESULT_INT UTILITY_NEAREST_PO2 0 GFn_PRINT GFn_PRINT False False,
    gf_row ''str'' GFn_STR KIND_HOST 1 63 RESULT_STRING UTILITY_STR 0 GFn_PRINT GFn_PRINT False False,
    gf_row ''len'' GFn_LEN KIND_HOST 1 1 RESULT_INT UTILITY_LEN 0 GFn_PRINT GFn_PRINT False False,
    gf_row ''hash'' GFn_HASH KIND_HOST 1 1 RESULT_INT UTILITY_HASH 0 GFn_PRINT GFn_PRINT False False,
    gf_row ''var_to_str'' GFn_VAR_TO_STR KIND_HOST 1 1 RESULT_STRING UTILITY_VAR_TO_STR 0 GFn_PRINT GFn_PRINT False False,
    gf_row ''str_to_var'' GFn_STR_TO_VAR KIND_HOST 1 1 RESULT_VARIANT UTILITY_STR_TO_VAR 0 GFn_PRINT GFn_PRINT False False,
    gf_row ''var_to_bytes'' GFn_VAR_TO_BYTES KIND_HOST 1 1 RESULT_VARIANT UTILITY_VAR_TO_BYTES 0 GFn_PRINT GFn_PRINT False False,
    gf_row ''bytes_to_var'' GFn_BYTES_TO_VAR KIND_HOST 1 1 RESULT_VARIANT UTILITY_BYTES_TO_VAR 0 GFn_PRINT GFn_PRINT False False,
    gf_row ''type_string'' GFn_TYPE_STRING KIND_HOST 1 1 RESULT_STRING UTILITY_TYPE_STRING 0 GFn_PRINT GFn_PRINT False False,
    gf_row ''type_convert'' GFn_TYPE_CONVERT KIND_HOST 2 2 RESULT_VARIANT UTILITY_TYPE_CONVERT 0 GFn_PRINT GFn_PRINT False False,
    gf_row ''error_string'' GFn_ERROR_STRING KIND_HOST 1 1 RESULT_STRING UTILITY_ERROR_STRING 0 GFn_PRINT GFn_PRINT False False,
    gf_row ''is_same'' GFn_IS_SAME KIND_HOST 2 2 RESULT_BOOL UTILITY_IS_SAME 0 GFn_PRINT GFn_PRINT False False,
    gf_row ''is_instance_valid'' GFn_IS_INSTANCE_VALID KIND_HOST 1 1 RESULT_BOOL UTILITY_IS_INSTANCE_VALID 0 GFn_PRINT GFn_PRINT False False,
    gf_row ''is_instance_of'' GFn_IS_INSTANCE_OF KIND_HOST 2 2 RESULT_BOOL UTILITY_IS_INSTANCE_OF 0 GFn_PRINT GFn_PRINT False False,
    gf_row ''char'' GFn_CHAR KIND_HOST 1 1 RESULT_STRING UTILITY_CHAR 0 GFn_PRINT GFn_PRINT False False,
    gf_row ''ord'' GFn_ORD KIND_HOST 1 1 RESULT_INT UTILITY_ORD 0 GFn_PRINT GFn_PRINT False False,
    gf_row ''rand_from_seed'' GFn_RAND_FROM_SEED KIND_HOST 1 1 RESULT_VARIANT UTILITY_RAND_FROM_SEED 0 GFn_PRINT GFn_PRINT False False,
    gf_row ''int'' GFn_TO_INT KIND_CAST 1 1 RESULT_INT UTILITY_TO_INT 0 GFn_INT_IDENTITY GFn_PRINT False False,
    gf_row ''float'' GFn_TO_FLOAT KIND_CAST 1 1 RESULT_FLOAT UTILITY_TO_FLOAT 0 GFn_FLOAT_IDENTITY GFn_PRINT False False,
    gf_row ''bool'' GFn_TO_BOOL KIND_CAST 1 1 RESULT_BOOL UTILITY_TO_BOOL 0 GFn_BOOLEANIZE GFn_PRINT False False,
    gf_row ''String'' GFn_TO_STRING KIND_HOST 0 1 RESULT_STRING UTILITY_STR 0 GFn_PRINT GFn_PRINT False False,
    gf_row ''randf'' GFn_RANDF KIND_SYSCALL 0 0 RESULT_FLOAT UTILITY_RANDF 0 GFn_PRINT GFn_PRINT True False,
    gf_row ''randf_range'' GFn_RANDF_RANGE KIND_SYSCALL 2 2 RESULT_FLOAT UTILITY_RANDF_RANGE 2 GFn_PRINT GFn_PRINT True False,
    gf_row ''randfn'' GFn_RANDFN KIND_SYSCALL 2 2 RESULT_FLOAT UTILITY_RANDFN 2 GFn_PRINT GFn_PRINT True False,
    gf_row ''randi'' GFn_RANDI KIND_SYSCALL_INT 0 0 RESULT_INT UTILITY_RANDI 0 GFn_PRINT GFn_PRINT True False,
    gf_row ''randi_range'' GFn_RANDI_RANGE KIND_SYSCALL_INT 2 2 RESULT_INT UTILITY_RANDI_RANGE 0 GFn_PRINT GFn_PRINT True False,
    gf_row ''randomize'' GFn_RANDOMIZE KIND_HOST 0 0 RESULT_NIL UTILITY_RANDOMIZE 0 GFn_PRINT GFn_PRINT True True,
    gf_row ''seed'' GFn_SEED KIND_HOST 1 1 RESULT_NIL UTILITY_SEED 0 GFn_PRINT GFn_PRINT True True,
    gf_row ''.int_identity'' GFn_INT_IDENTITY KIND_INT_OP 1 1 RESULT_INT (- 1) 0 GFn_PRINT GFn_PRINT False False,
    gf_row ''.float_identity'' GFn_FLOAT_IDENTITY KIND_FLOAT_OP 1 1 RESULT_FLOAT (- 1) 0 GFn_PRINT GFn_PRINT False False,
    gf_row ''.booleanize'' GFn_BOOLEANIZE KIND_FLOAT_OP 1 1 RESULT_BOOL (- 1) 0 GFn_PRINT GFn_PRINT False False]"

section \<open>Lookups\<close>

text \<open>
  The maps are filled in row order, so the last row with a key is the one found.
\<close>

definition find_row :: "(GlobalFunction \<Rightarrow> bool) \<Rightarrow> GlobalFunction option" where
  "find_row P = List.find P (rev GLOBAL_FUNCTIONS)"

definition find_global_function :: "string \<Rightarrow> GlobalFunction option" where
  "find_global_function n = find_row (\<lambda>row. gf_name row = n)"

definition global_function :: "GlobalFn \<Rightarrow> GlobalFunction res" where
  "global_function fn = (case find_row (\<lambda>row. gf_fn row = fn) of
     None \<Rightarrow> Inl (CompilerException CODEGEN_ERROR NoTableEntry)
   | Some row \<Rightarrow> Inr row)"

definition global_function_count :: nat where
  "global_function_count = length GLOBAL_FUNCTIONS"

definition global_function_name :: "nat \<Rightarrow> string option" where
  "global_function_name index =
     (let n = gf_name (GLOBAL_FUNCTIONS ! index)
      in if n \<noteq> [] \<and> hd n = CHR ''.'' then None else Some n)"

definition resolve_numeric_form :: "GlobalFunction \<Rightarrow> bool \<Rightarrow> GlobalFn" where
  "resolve_numeric_form info all_integer =
     (if gf_kind info \<noteq> KIND_NUMERIC then gf_fn info
      else if all_integer then gf_int_form info else gf_float_form info)"

text \<open>\<open>hint\<close> is a variant type: INT (2), FLOAT (3) and BOOL (1) take the inline form.\<close>

definition resolve_cast_form :: "GlobalFunction \<Rightarrow> int \<Rightarrow> GlobalFn" where
  "resolve_cast_form info hint =
     (if gf_kind info \<noteq> KIND_CAST then gf_fn info
      else if hint = 2 \<or> hint = 3 \<or> hint = 1 then gf_int_form info
      else gf_fn info)"

section \<open>Evaluation\<close>

text \<open>The floating-point literals of the evaluators, as the nearest doubles.\<close>

abbreviation (input) D_0 :: double where
  "D_0 \<equiv> Double 0x0000000000000000"

abbreviation (input) D_1 :: double where
  "D_1 \<equiv> Double 0x3FF0000000000000"

abbreviation (input) D_m1 :: double where
  "D_m1 \<equiv> Double 0xBFF0000000000000"

abbreviation (input) D_2 :: double where
  "D_2 \<equiv> Double 0x4000000000000000"

abbreviation (input) D_3 :: double where
  "D_3 \<equiv> Double 0x4008000000000000"

abbreviation (input) D_4 :: double where
  "D_4 \<equiv> Double 0x4010000000000000"

abbreviation (input) D_5 :: double where
  "D_5 \<equiv> Double 0x4014000000000000"

abbreviation (input) D_6 :: double where
  "D_6 \<equiv> Double 0x4018000000000000"

abbreviation (input) D_half :: double where
  "D_half \<equiv> Double 0x3FE0000000000000"

abbreviation (input) D_180 :: double where
  "D_180 \<equiv> Double 0x4066800000000000"

abbreviation (input) MATH_PI :: double where
  "MATH_PI \<equiv> Double 0x400921FB54442D18"

abbreviation (input) MATH_TAU :: double where
  "MATH_TAU \<equiv> Double 0x401921FB54442D18"

abbreviation (input) CMP_EPSILON :: double where
  "CMP_EPSILON \<equiv> Double 0x3EE4F8B588E368F1"

abbreviation (input) DB_PER_NEPER :: double where
  "DB_PER_NEPER \<equiv> Double 0x40215F2CED384F29"

abbreviation (input) NEPER_PER_DB :: double where
  "NEPER_PER_DB \<equiv> Double 0x3FBD791C5F888822"

definition eval_sign :: "double \<Rightarrow> double" where
  "eval_sign x = (if flt x D_0 then D_m1 else if flt D_0 x then D_1 else D_0)"

definition eval_is_equal_approx :: "double \<Rightarrow> double \<Rightarrow> bool" where
  "eval_is_equal_approx a b =
     (if feq a b then True
      else let tolerance = fmul CMP_EPSILON (fabs a);
               tolerance = (if flt tolerance CMP_EPSILON then CMP_EPSILON else tolerance)
           in flt (fabs (fsub a b)) tolerance)"

definition eval_is_zero_approx :: "double \<Rightarrow> bool" where
  "eval_is_zero_approx x = flt (fabs x) CMP_EPSILON"

definition eval_fposmod :: "double \<Rightarrow> double \<Rightarrow> double" where
  "eval_fposmod x y =
     (let value = fmod x y;
          value = (if (flt value D_0 \<and> flt D_0 y) \<or> (flt D_0 value \<and> flt y D_0)
                   then fadd value y else value)
      in fadd value D_0)"

definition eval_lerp :: "double \<Rightarrow> double \<Rightarrow> double \<Rightarrow> double" where
  "eval_lerp from to weight = fadd from (fmul weight (fsub to from))"

definition eval_inverse_lerp :: "double \<Rightarrow> double \<Rightarrow> double \<Rightarrow> double" where
  "eval_inverse_lerp from to value = fdiv (fsub value from) (fsub to from)"

definition eval_angle_difference :: "double \<Rightarrow> double \<Rightarrow> double" where
  "eval_angle_difference from to =
     (let difference = fmod (fsub to from) MATH_TAU
      in fsub (fmod (fmul D_2 difference) MATH_TAU) difference)"

definition eval_cubic_interpolate :: "double \<Rightarrow> double \<Rightarrow> double \<Rightarrow> double \<Rightarrow> double \<Rightarrow> double" where
  "eval_cubic_interpolate from to pre post weight =
     fmul D_half
       (fadd (fadd (fadd (fmul from D_2)
          (fmul (fadd (fneg pre) to) weight))
          (fmul (fsub (fadd (fsub (fmul D_2 pre) (fmul D_5 from)) (fmul D_4 to)) post)
            (fmul weight weight)))
          (fmul (fadd (fsub (fadd (fneg pre) (fmul D_3 from)) (fmul D_3 to)) post)
            (fmul (fmul weight weight) weight)))"

definition eval_cubic_interpolate_in_time ::
  "double \<Rightarrow> double \<Rightarrow> double \<Rightarrow> double \<Rightarrow> double \<Rightarrow> double \<Rightarrow> double \<Rightarrow> double \<Rightarrow> double" where
  "eval_cubic_interpolate_in_time from to pre post weight to_t pre_t post_t =
     (let t = eval_lerp D_0 to_t weight;
          a1 = eval_lerp pre from
                 (if feq pre_t D_0 then D_0 else fdiv (fsub t pre_t) (fneg pre_t));
          a2 = eval_lerp from to (if feq to_t D_0 then D_half else fdiv t to_t);
          a3 = eval_lerp to post
                 (if feq (fsub post_t to_t) D_0 then D_1
                  else fdiv (fsub t to_t) (fsub post_t to_t));
          b1 = eval_lerp a1 a2
                 (if feq (fsub to_t pre_t) D_0 then D_0
                  else fdiv (fsub t pre_t) (fsub to_t pre_t));
          b2 = eval_lerp a2 a3 (if feq post_t D_0 then D_1 else fdiv t post_t)
      in eval_lerp b1 b2 (if feq to_t D_0 then D_half else fdiv t to_t))"

text \<open>The rotated \<open>from\<close>, \<open>to\<close>, \<open>pre\<close> and \<open>post\<close>, in that order.\<close>

definition eval_cubic_angles ::
  "double \<Rightarrow> double \<Rightarrow> double \<Rightarrow> double \<Rightarrow> double \<times> double \<times> double \<times> double" where
  "eval_cubic_angles from to pre post =
     (let from_rot = fmod from MATH_TAU;
          pre_diff = fmod (fsub pre from_rot) MATH_TAU;
          pre_rot = fsub (fadd from_rot (fmod (fmul D_2 pre_diff) MATH_TAU)) pre_diff;
          to_diff = fmod (fsub to from_rot) MATH_TAU;
          to_rot = fsub (fadd from_rot (fmod (fmul D_2 to_diff) MATH_TAU)) to_diff;
          post_diff = fmod (fsub post to_rot) MATH_TAU;
          post_rot = fsub (fadd to_rot (fmod (fmul D_2 post_diff) MATH_TAU)) post_diff
      in (from_rot, to_rot, pre_rot, post_rot))"

definition eval_snapped :: "double \<Rightarrow> double \<Rightarrow> double" where
  "eval_snapped value step =
     (if \<not> feq step D_0 then fmul (ffloor (fadd (fdiv value step) D_half)) step else value)"

definition eval_wrapf :: "double \<Rightarrow> double \<Rightarrow> double \<Rightarrow> double" where
  "eval_wrapf value lo hi =
     (let range = fsub hi lo
      in if eval_is_zero_approx range then lo
         else let result = fsub value (fmul range (ffloor (fdiv (fsub value lo) range)))
              in if eval_is_equal_approx result hi then lo else result)"

definition bool_double :: "bool \<Rightarrow> double" where
  "bool_double b = (if b then D_1 else D_0)"

definition eval_ease :: "libm \<Rightarrow> double \<Rightarrow> double \<Rightarrow> double" where
  "eval_ease lm a b =
     (let x = (if flt a D_0 then D_0 else if flt D_1 a then D_1 else a)
      in if flt D_0 b
         then (if flt b D_1 then fsub D_1 (lm_pow lm (fsub D_1 x) (fdiv D_1 b))
               else lm_pow lm x b)
         else if flt b D_0
         then (if flt x D_half then fmul (lm_pow lm (fmul x D_2) (fneg b)) D_half
               else fadd (fmul (fsub D_1
                      (lm_pow lm (fsub D_1 (fmul (fsub x D_half) D_2)) (fneg b))) D_half) D_half)
         else D_0)"

definition step_thresholds :: "double list" where
  "step_thresholds =
     [Double 0x3FEFFF2E48E8A71E,
      Double 0x3FB998F1D3ED527E,
      Double 0x3F847A5B0FF10ECB,
      Double 0x3F5061E273273F09,
      Double 0x3F1A36371EA531A8,
      Double 0x3EE4F82C188427BA,
      Double 0x3EB0C689AD36862E,
      Double 0x3E7AD742AEBDA37D,
      Double 0x3E457902256482CB,
      Double 0x3E112D9B511D356F]"

definition eval_step_decimals :: "double \<Rightarrow> double" where
  "eval_step_decimals a =
     (let magnitude = fabs a; decimals = fsub magnitude (ffloor magnitude)
      in case List.find (\<lambda>i. fle (step_thresholds ! i) decimals) [0..<10] of
           None \<Rightarrow> D_0
         | Some i \<Rightarrow> of_int64 (of_nat i))"

definition eval_pingpong :: "double \<Rightarrow> double \<Rightarrow> double" where
  "eval_pingpong a b =
     (if feq b D_0 then D_0
      else let x = fdiv (fsub a b) (fmul b D_2); fract = fsub x (ffloor x)
           in fabs (fsub (fmul (fmul fract b) D_2) b))"

definition eval_smoothstep :: "double \<Rightarrow> double \<Rightarrow> double \<Rightarrow> double" where
  "eval_smoothstep a b c =
     (if eval_is_equal_approx a b then a
      else let x = eval_inverse_lerp a b c;
               x = (if flt x D_0 then D_0 else if flt D_1 x then D_1 else x)
           in fmul (fmul x x) (fsub D_3 (fmul D_2 x)))"

definition eval_rotate_toward :: "double \<Rightarrow> double \<Rightarrow> double \<Rightarrow> double" where
  "eval_rotate_toward a b c =
     (let difference = eval_angle_difference a b;
          abs_difference = fabs difference;
          lower = fsub abs_difference MATH_PI;
          delta = (if flt c lower then lower
                   else if flt abs_difference c then abs_difference else c)
      in fadd a (fmul delta (if fle D_0 difference then D_1 else D_m1)))"

definition eval_bezier_interpolate ::
  "double \<Rightarrow> double \<Rightarrow> double \<Rightarrow> double \<Rightarrow> double \<Rightarrow> double" where
  "eval_bezier_interpolate a b c d e =
     (let omt = fsub D_1 e; omt2 = fmul omt omt; omt3 = fmul omt2 omt;
          t2 = fmul e e; t3 = fmul t2 e
      in fadd (fadd (fadd (fmul a omt3) (fmul (fmul (fmul b omt2) e) D_3))
           (fmul (fmul (fmul c omt) t2) D_3)) (fmul d t3))"

definition eval_bezier_derivative ::
  "double \<Rightarrow> double \<Rightarrow> double \<Rightarrow> double \<Rightarrow> double \<Rightarrow> double" where
  "eval_bezier_derivative a b c d e =
     (let omt = fsub D_1 e; omt2 = fmul omt omt; t2 = fmul e e
      in fadd (fadd (fmul (fmul (fsub b a) D_3) omt2)
           (fmul (fmul (fmul (fsub c b) D_6) omt) e))
           (fmul (fmul (fsub d c) D_3) t2))"

text \<open>
  \<open>eval_utility_op\<close>: the unary forms, then the rest. \<open>args\<close> holds the eight argument
  slots.
\<close>

definition eval_utility_unary :: "libm \<Rightarrow> int \<Rightarrow> double \<Rightarrow> double option" where
  "eval_utility_unary lm op a =
     (if op = UTILITY_FLOOR then Some (ffloor a)
      else if op = UTILITY_CEIL then Some (fceil a)
      else if op = UTILITY_ROUND then
        Some (if fle D_0 a then ffloor (fadd a D_half) else fneg (ffloor (fadd (fneg a) D_half)))
      else if op = UTILITY_SIGN then Some (eval_sign a)
      else if op = UTILITY_SIN then Some (lm_sin lm a)
      else if op = UTILITY_COS then Some (lm_cos lm a)
      else if op = UTILITY_TAN then Some (lm_tan lm a)
      else if op = UTILITY_ASIN then Some (lm_asin lm a)
      else if op = UTILITY_ACOS then Some (lm_acos lm a)
      else if op = UTILITY_ATAN then Some (lm_atan lm a)
      else if op = UTILITY_SINH then Some (lm_sinh lm a)
      else if op = UTILITY_COSH then Some (lm_cosh lm a)
      else if op = UTILITY_TANH then Some (lm_tanh lm a)
      else if op = UTILITY_ASINH then Some (lm_asinh lm a)
      else if op = UTILITY_ACOSH then Some (lm_acosh lm a)
      else if op = UTILITY_ATANH then Some (lm_atanh lm a)
      else if op = UTILITY_EXP then Some (lm_exp lm a)
      else if op = UTILITY_LOG then Some (lm_log lm a)
      else if op = UTILITY_DEG_TO_RAD then Some (fdiv (fmul a MATH_PI) D_180)
      else if op = UTILITY_RAD_TO_DEG then Some (fdiv (fmul a D_180) MATH_PI)
      else if op = UTILITY_LINEAR_TO_DB then Some (fmul (lm_log lm a) DB_PER_NEPER)
      else if op = UTILITY_DB_TO_LINEAR then Some (lm_exp lm (fmul a NEPER_PER_DB))
      else if op = UTILITY_IS_NAN then Some (bool_double (is_nan a))
      else if op = UTILITY_IS_INF then Some (bool_double (is_inf a))
      else if op = UTILITY_IS_FINITE then Some (bool_double (is_finite a))
      else if op = UTILITY_IS_ZERO_APPROX then Some (bool_double (eval_is_zero_approx a))
      else if op = UTILITY_STEP_DECIMALS then Some (eval_step_decimals a)
      else None)"

definition eval_utility_op :: "libm \<Rightarrow> int \<Rightarrow> double list \<Rightarrow> double res" where
  "eval_utility_op lm op args =
     (let a = args ! 0; b = args ! 1; c = args ! 2; d = args ! 3;
          e = args ! 4; f = args ! 5; g = args ! 6; h = args ! 7
      in case eval_utility_unary lm op a of Some r \<Rightarrow> Inr r | None \<Rightarrow>
         if op = UTILITY_EASE then Inr (eval_ease lm a b)
         else if op = UTILITY_ATAN2 then Inr (lm_atan2 lm a b)
         else if op = UTILITY_POW then Inr (lm_pow lm a b)
         else if op = UTILITY_FMOD then Inr (fmod a b)
         else if op = UTILITY_FPOSMOD then Inr (eval_fposmod a b)
         else if op = UTILITY_SNAPPED then Inr (eval_snapped a b)
         else if op = UTILITY_IS_EQUAL_APPROX then Inr (bool_double (eval_is_equal_approx a b))
         else if op = UTILITY_ANGLE_DIFFERENCE then Inr (eval_angle_difference a b)
         else if op = UTILITY_PINGPONG then Inr (eval_pingpong a b)
         else if op = UTILITY_LERP then Inr (eval_lerp a b c)
         else if op = UTILITY_INVERSE_LERP then Inr (eval_inverse_lerp a b c)
         else if op = UTILITY_SMOOTHSTEP then Inr (eval_smoothstep a b c)
         else if op = UTILITY_MOVE_TOWARD then
           Inr (if fle (fabs (fsub b a)) c then b else fadd a (fmul (eval_sign (fsub b a)) c))
         else if op = UTILITY_LERP_ANGLE then Inr (fadd a (fmul (eval_angle_difference a b) c))
         else if op = UTILITY_ROTATE_TOWARD then Inr (eval_rotate_toward a b c)
         else if op = UTILITY_WRAP then Inr (eval_wrapf a b c)
         else if op = UTILITY_REMAP then Inr (eval_lerp d e (eval_inverse_lerp b c a))
         else if op = UTILITY_CUBIC_INTERPOLATE then Inr (eval_cubic_interpolate a b c d e)
         else if op = UTILITY_CUBIC_INTERPOLATE_ANGLE then
           (case eval_cubic_angles a b c d of (fr, t, pr, po) \<Rightarrow>
             Inr (eval_cubic_interpolate fr t pr po e))
         else if op = UTILITY_CUBIC_INTERPOLATE_IN_TIME then
           Inr (eval_cubic_interpolate_in_time a b c d e f g h)
         else if op = UTILITY_CUBIC_INTERPOLATE_ANGLE_IN_TIME then
           (case eval_cubic_angles a b c d of (fr, t, pr, po) \<Rightarrow>
             Inr (eval_cubic_interpolate_in_time fr t pr po e f g h))
         else if op = UTILITY_BEZIER_INTERPOLATE then Inr (eval_bezier_interpolate a b c d e)
         else if op = UTILITY_BEZIER_DERIVATIVE then Inr (eval_bezier_derivative a b c d e)
         else if op \<in> {UTILITY_STR, UTILITY_LEN, UTILITY_TO_INT, UTILITY_TO_FLOAT,
                        UTILITY_TO_BOOL, UTILITY_RAND_FROM_SEED,
                        UTILITY_RANDF, UTILITY_RANDF_RANGE, UTILITY_RANDFN,
                        UTILITY_RANDI, UTILITY_RANDI_RANGE}
           then Inl (CompilerException CODEGEN_ERROR NeedsHost)
         else Inl (CompilerException CODEGEN_ERROR UnknownUtilityOp))"

section \<open>Integer forms\<close>

abbreviation (input) INT64_MIN :: int64 where
  "INT64_MIN \<equiv> 0x8000000000000000"

abbreviation (input) undefined_behaviour :: "'a res" where
  "undefined_behaviour \<equiv> Inl UndefinedBehaviour"

text \<open>Signed \<open>+\<close>, \<open>-\<close> and \<open>%\<close> of \<open>int64_t\<close>: no meaning where the exact result does not fit.\<close>

definition fits64 :: "int \<Rightarrow> bool" where
  "fits64 v = (- (2 ^ 63) \<le> v \<and> v < 2 ^ 63)"

definition signed_add64 :: "int64 \<Rightarrow> int64 \<Rightarrow> int64 res" where
  "signed_add64 a b = (if fits64 (sint a + sint b) then Inr (a + b) else undefined_behaviour)"

definition signed_sub64 :: "int64 \<Rightarrow> int64 \<Rightarrow> int64 res" where
  "signed_sub64 a b = (if fits64 (sint a - sint b) then Inr (a - b) else undefined_behaviour)"

definition sdiv64 :: "int64 \<Rightarrow> int64 \<Rightarrow> int64" where
  "sdiv64 a b = word_of_int (sint a sdiv sint b)"

definition srem64 :: "int64 \<Rightarrow> int64 \<Rightarrow> int64" where
  "srem64 a b = word_of_int (sint a smod sint b)"

definition signed_rem64 :: "int64 \<Rightarrow> int64 \<Rightarrow> int64 res" where
  "signed_rem64 a b =
     (if b = 0 \<or> (a = INT64_MIN \<and> b = - 1) then undefined_behaviour else Inr (srem64 a b))"

definition need_args :: "nat \<Rightarrow> 'a list \<Rightarrow> unit res" where
  "need_args n args = guard_res (n \<le> length args) CODEGEN_ERROR TooFewArguments"

definition eval_posmod :: "int64 \<Rightarrow> int64 \<Rightarrow> int64 res" where
  "eval_posmod a b =
     (if b = 0 then Inr 0
      else bind_res (signed_rem64 a b) (\<lambda>value.
        if (sint value < 0 \<and> sint b > 0) \<or> (sint value > 0 \<and> sint b < 0)
        then signed_add64 value b else Inr value))"

definition eval_wrapi :: "int64 \<Rightarrow> int64 \<Rightarrow> int64 \<Rightarrow> int64 res" where
  "eval_wrapi v lo hi =
     bind_res (signed_sub64 hi lo) (\<lambda>range.
       if range = 0 then Inr lo
       else bind_res (signed_sub64 v lo) (\<lambda>offset.
            bind_res (signed_rem64 offset range) (\<lambda>r1.
            bind_res (signed_add64 r1 range) (\<lambda>r2.
            bind_res (signed_rem64 r2 range) (\<lambda>r3.
            signed_add64 lo r3)))))"

definition eval_global_int :: "GlobalFn \<Rightarrow> int64 list \<Rightarrow> int64 res" where
  "eval_global_int fn args =
     (if fn = GFn_INT_IDENTITY then bind_res (need_args 1 args) (\<lambda>_. Inr (args ! 0))
      else if fn = GFn_ABSI then bind_res (need_args 1 args) (\<lambda>_.
        let mask = signed_drop_bit 63 (args ! 0) in Inr ((args ! 0 XOR mask) - mask))
      else if fn = GFn_SIGNI then bind_res (need_args 1 args) (\<lambda>_.
        Inr (if sint (args ! 0) > 0 then 1 else if sint (args ! 0) < 0 then - 1 else 0))
      else if fn = GFn_MINI then bind_res (need_args 2 args) (\<lambda>_.
        Inr (if sint (args ! 0) < sint (args ! 1) then args ! 0 else args ! 1))
      else if fn = GFn_MAXI then bind_res (need_args 2 args) (\<lambda>_.
        Inr (if sint (args ! 0) > sint (args ! 1) then args ! 0 else args ! 1))
      else if fn = GFn_CLAMPI then bind_res (need_args 3 args) (\<lambda>_.
        Inr (if sint (args ! 0) < sint (args ! 1) then args ! 1
             else if sint (args ! 0) > sint (args ! 2) then args ! 2
             else args ! 0))
      else if fn = GFn_POSMOD then bind_res (need_args 2 args) (\<lambda>_.
        eval_posmod (args ! 0) (args ! 1))
      else if fn = GFn_WRAPI then bind_res (need_args 3 args) (\<lambda>_.
        eval_wrapi (args ! 0) (args ! 1) (args ! 2))
      else Inl (CompilerException CODEGEN_ERROR NotIntegerOp))"

definition eval_global_int_syscall :: "GlobalFn \<Rightarrow> int64 list \<Rightarrow> int64 res" where
  "eval_global_int_syscall fn args = Inl (CompilerException OPTIMIZER_ERROR NeedsHost)"

section \<open>Floating-point forms\<close>

text \<open>\<open>packed\<close>: the arguments, cut or padded with zeros to eight slots.\<close>

definition pack_floats :: "double list \<Rightarrow> double list" where
  "pack_floats args = take 8 (args @ replicate 8 D_0)"

definition eval_global_float :: "libm \<Rightarrow> GlobalFn \<Rightarrow> double list \<Rightarrow> double res" where
  "eval_global_float lm fn args =
     bind_res (global_function fn) (\<lambda>info.
       if gf_kind info = KIND_SYSCALL then eval_utility_op lm (gf_utility_op info) (pack_floats args)
       else if fn = GFn_ABSF then bind_res (need_args 1 args) (\<lambda>_. Inr (fabs (args ! 0)))
       else if fn = GFn_SQRT then bind_res (need_args 1 args) (\<lambda>_. Inr (fsqrt (args ! 0)))
       else if fn = GFn_MINF then bind_res (need_args 2 args) (\<lambda>_.
         Inr (if flt (args ! 0) (args ! 1) then args ! 0 else args ! 1))
       else if fn = GFn_MAXF then bind_res (need_args 2 args) (\<lambda>_.
         Inr (if flt (args ! 1) (args ! 0) then args ! 0 else args ! 1))
       else if fn = GFn_CLAMPF then bind_res (need_args 3 args) (\<lambda>_.
         Inr (if flt (args ! 0) (args ! 1) then args ! 1
              else if flt (args ! 2) (args ! 0) then args ! 2
              else args ! 0))
       else if fn = GFn_FLOAT_IDENTITY then bind_res (need_args 1 args) (\<lambda>_. Inr (args ! 0))
       else if fn = GFn_BOOLEANIZE then bind_res (need_args 1 args) (\<lambda>_.
         Inr (bool_double (\<not> feq (args ! 0) D_0)))
       else Inl (CompilerException CODEGEN_ERROR NotFloatOp))"

section \<open>Properties of the table\<close>

lemma global_names_distinct: "distinct (map gf_name GLOBAL_FUNCTIONS)"
  by code_simp

lemma global_ids_cover:
  "map gf_fn (sort_key (fn_index \<circ> gf_fn) GLOBAL_FUNCTIONS) = map GlobalFn [0..116]"
  by code_simp

lemma global_ids_set: "gf_fn ` set GLOBAL_FUNCTIONS = GlobalFn ` {0..116}"
  using arg_cong [OF global_ids_cover, of set] by simp

lemma find_row_Some: "find_row P = Some row \<Longrightarrow> P row \<and> row \<in> set GLOBAL_FUNCTIONS"
  unfolding find_row_def by (metis find_Some_iff nth_mem set_rev)

lemma find_row_None: "find_row P = None \<longleftrightarrow> (\<forall>row \<in> set GLOBAL_FUNCTIONS. \<not> P row)"
  unfolding find_row_def by (auto simp: find_None_iff)

lemma global_function_Inr: "global_function fn = Inr row \<Longrightarrow> gf_fn row = fn"
  by (auto simp: global_function_def dest: find_row_Some split: option.splits)

lemma find_distinct: "distinct (map f xs) \<Longrightarrow> x \<in> set xs \<Longrightarrow> List.find (\<lambda>y. f y = f x) xs = Some x"
  by (induction xs) (auto simp: image_iff)

lemma global_row_by_name: "row \<in> set GLOBAL_FUNCTIONS \<Longrightarrow> find_global_function (gf_name row) = Some row"
  unfolding find_global_function_def find_row_def
  by (rule find_distinct) (use global_names_distinct in \<open>simp_all flip: rev_map\<close>)

lemma global_ids_distinct: "distinct (map gf_fn GLOBAL_FUNCTIONS)"
proof (rule card_distinct)
  have "length (map gf_fn (sort_key (fn_index \<circ> gf_fn) GLOBAL_FUNCTIONS)) = length (map GlobalFn [0..116])"
    by (simp only: global_ids_cover)
  then have "length GLOBAL_FUNCTIONS = 117" by simp
  moreover have "card (GlobalFn ` {0..116}) = 117" by (simp add: card_image inj_on_def)
  ultimately show "card (set (map gf_fn GLOBAL_FUNCTIONS)) = length (map gf_fn GLOBAL_FUNCTIONS)"
    by (simp add: global_ids_set)
qed

lemma global_row_by_id: "row \<in> set GLOBAL_FUNCTIONS \<Longrightarrow> global_function (gf_fn row) = Inr row"
proof -
  assume row: "row \<in> set GLOBAL_FUNCTIONS"
  have "find_row (\<lambda>r. gf_fn r = gf_fn row) = Some row" unfolding find_row_def
    by (rule find_distinct) (use global_ids_distinct row in \<open>simp_all flip: rev_map\<close>)
  then show ?thesis by (simp add: global_function_def)
qed

section \<open>Properties of the integer forms\<close>

lemma sint_range64: "- (2 ^ 63) \<le> sint (a :: int64) \<and> sint a < 2 ^ 63"
  using sint_ge [of a] sint_lt [of a] by simp

lemma sint_zero_iff: "sint (b :: int64) = 0 \<longleftrightarrow> b = 0"
  by (metis signed_0 signed_word_eqI)

lemma fits64_sint: "fits64 v \<Longrightarrow> sint (word_of_int v :: int64) = v"
  unfolding fits64_def sint_sbintrunc' by (rule signed_take_bit_int_eq_self) simp_all

lemma signed_add64_Inr: "signed_add64 a b = Inr c \<Longrightarrow> sint c = sint a + sint b"
  by (auto simp: signed_add64_def sint_word_add fits64_def signed_take_bit_int_eq_self
    split: if_splits)

lemma signed_sub64_Inr: "signed_sub64 a b = Inr c \<Longrightarrow> sint c = sint a - sint b"
  by (auto simp: signed_sub64_def sint_word_diff fits64_def signed_take_bit_int_eq_self
    split: if_splits)

lemma smod_fits64: "b \<noteq> 0 \<Longrightarrow> fits64 (sint a smod sint (b :: int64))"
  using smod_int_range [of "sint b" "sint a"] sint_range64 [of b]
  by (auto simp: fits64_def sint_zero_iff)

lemma signed_rem64_Inr: "signed_rem64 a b = Inr c \<Longrightarrow> sint c = sint a smod sint b \<and> b \<noteq> 0"
  by (auto simp: signed_rem64_def srem64_def fits64_sint smod_fits64 split: if_splits)

lemma smod_to_mod:
  fixes a b :: int
  assumes "b \<noteq> 0"
  shows "a mod b =
    (if (a smod b < 0 \<and> b > 0) \<or> (a smod b > 0 \<and> b < 0) then a smod b + b else a smod b)"
proof -
  have z: "a smod b = 0 \<longleftrightarrow> b dvd a"
    by (simp add: smod_int_alt_def dvd_eq_mod_eq_0 [symmetric] sgn_0_0) (use assms in auto)
  consider "b dvd a" | "\<not> b dvd a" "a > 0" | "\<not> b dvd a" "a < 0"
    by (metis dvd_0_right linorder_cases)
  then show ?thesis
  proof cases
    case 1
    then show ?thesis using z by (simp add: modulo_int_eq_signed_modulo_int)
  next
    case 2
    then have "a smod b > 0"
      using z assms by (simp add: smod_int_alt_def) (smt (verit) pos_mod_sign)
    then show ?thesis using 2 assms
      by (auto simp: modulo_int_eq_signed_modulo_int [of a b] sgn_if)
  next
    case 3
    then have "a smod b < 0"
      using z assms by (simp add: smod_int_alt_def) (smt (verit) pos_mod_sign)
    then show ?thesis using 3 assms
      by (auto simp: modulo_int_eq_signed_modulo_int [of a b] sgn_if)
  qed
qed

lemma fits64_mod:
  assumes "n \<noteq> 0" "fits64 n" shows "fits64 (x mod n)"
proof (cases "0 < n")
  case True
  from pos_mod_bound[OF this, of x] pos_mod_sign[OF this, of x] assms show ?thesis unfolding fits64_def by linarith
next
  case False
  then have "n < 0" using assms(1) by simp
  from neg_mod_bound[OF this, of x] neg_mod_sign[OF this, of x] assms show ?thesis unfolding fits64_def by linarith
qed

lemma fits64_iff_sint: "fits64 (sint (a :: int64))"
  using sint_range64[of a] by (simp add: fits64_def)

lemma eval_posmod_spec:
  "eval_posmod a b = (if b = 0 then Inr 0 else if a = INT64_MIN \<and> b = - 1 then Inl UndefinedBehaviour
     else Inr (word_of_int (sint a mod sint b)))"
proof (cases "b = 0 \<or> (a = INT64_MIN \<and> b = - 1)")
  case True
  then show ?thesis by (auto simp: eval_posmod_def signed_rem64_def)
next
  case False
  define v where "v = srem64 a b"
  have nz: "sint b \<noteq> 0" using False by (simp add: sint_zero_iff)
  have v: "signed_rem64 a b = Inr v" "sint v = sint a smod sint b"
    using False smod_fits64[of b a] by (auto simp: signed_rem64_def v_def srem64_def fits64_sint)
  note m = smod_to_mod[OF nz, of "sint a"]
  have f: "fits64 (sint a mod sint b)" by (rule fits64_mod[OF nz fits64_iff_sint])
  show ?thesis
  proof (cases "(sint v < 0 \<and> sint b > 0) \<or> (sint v > 0 \<and> sint b < 0)")
    case True
    then have "sint v + sint b = sint a mod sint b" using m v(2) by simp
    moreover have "v + b = word_of_int (sint v + sint b)" by simp
    ultimately have "signed_add64 v b = Inr (word_of_int (sint a mod sint b))" using f by (metis signed_add64_def)
    then show ?thesis using False v(1) True by (auto simp: eval_posmod_def)
  next
    case neg: False
    then have "sint v = sint a mod sint b" using m v(2) by auto
    then have "v = word_of_int (sint a mod sint b)" using fits64_sint[OF f] signed_word_eqI[where ?'a = int] by metis
    then show ?thesis using False v(1) neg by (auto simp: eval_posmod_def)
  qed
qed

lemma smod_add_smod_mod:
  fixes x n :: int
  assumes "n > 0"
  shows "(x smod n + n) smod n = x mod n"
proof -
  have "0 \<le> x smod n + n" using smod_int_range [of n x] assms by auto
  then have "(x smod n + n) smod n = (x smod n + n) mod n"
    using assms by (simp add: smod_mod_positive)
  also have "\<dots> = (x smod n) mod n" by simp
  also have "\<dots> = x mod n"
    by (simp add: signed_modulo_int_eq_modulo_int mod_diff_eq [symmetric])
  finally show ?thesis .
qed

lemma smod_add_smod_mod_neg:
  fixes x n :: int
  assumes "n < 0"
  shows "(x smod n + n) smod n = x mod n"
proof -
  have le: "x smod n + n \<le> 0" using smod_int_range[of n x] assms by auto
  have "(x smod n + n) mod n = x mod n"
    using smod_to_mod[of n x] assms by (metis mod_add_self2 mod_mod_trivial order_less_irrefl)
  then have m: "x mod n = (if (x smod n + n) smod n > 0 then (x smod n + n) smod n + n else (x smod n + n) smod n)"
    using smod_to_mod[of n "x smod n + n"] assms by (simp split: if_splits)
  have "(x smod n + n) smod n \<le> 0"
    using le assms by (simp add: smod_int_alt_def sgn_if)
  then show ?thesis using m by simp
qed

lemma signed_sub64_spec: "signed_sub64 a b = (if fits64 (sint a - sint b) then Inr (word_of_int (sint a - sint b)) else Inl UndefinedBehaviour)"
  by (simp add: signed_sub64_def flip: wi_hom_sub)

lemma signed_add64_spec: "signed_add64 a b = (if fits64 (sint a + sint b) then Inr (word_of_int (sint a + sint b)) else Inl UndefinedBehaviour)"
  by (simp add: signed_add64_def flip: wi_hom_add)

lemma signed_rem64_spec:
  "signed_rem64 a b = (if sint b = 0 \<or> sint a = - (2 ^ 63) \<and> sint b = - 1 then Inl UndefinedBehaviour
     else Inr (word_of_int (sint a smod sint b)))"
proof -
  have "sint a = - (2 ^ 63) \<longleftrightarrow> a = INT64_MIN"
    using signed_word_eqI[of a INT64_MIN] by auto
  moreover have "sint b = - 1 \<longleftrightarrow> b = - 1" using signed_word_eqI[of b "- 1"] by auto
  ultimately show ?thesis by (simp add: signed_rem64_def srem64_def sint_zero_iff)
qed

lemma smod_add_smod:
  fixes x n :: int
  assumes "n \<noteq> 0" shows "(x smod n + n) smod n = x mod n"
  using assms smod_add_smod_mod[of n x] smod_add_smod_mod_neg[of n x] by linarith

lemma fits64_smod: "n \<noteq> 0 \<Longrightarrow> fits64 n \<Longrightarrow> fits64 (x smod n)"
  using smod_int_range[of n x] by (auto simp: fits64_def)

lemma wrap_fits64:
  assumes "lo \<noteq> hi" "fits64 lo" "fits64 hi" shows "fits64 (lo + x mod (hi - lo))"
proof (cases "lo < hi")
  case True
  then have "0 < hi - lo" by simp
  from pos_mod_bound[OF this, of x] pos_mod_sign[OF this, of x] assms show ?thesis unfolding fits64_def by linarith
next
  case False
  then have "hi - lo < 0" using assms(1) by simp
  from neg_mod_bound[OF this, of x] neg_mod_sign[OF this, of x] assms show ?thesis unfolding fits64_def by linarith
qed

lemma wrapi_range_undefined:
  assumes "\<not> fits64 (sint hi - sint lo) \<or> sint hi = sint lo"
  shows "eval_wrapi v lo hi = (if fits64 (sint hi - sint lo) then Inr lo else Inl UndefinedBehaviour)"
proof (cases "fits64 (sint hi - sint lo)")
  case True
  then have "hi = lo" using assms signed_word_eqI[where ?'a = int, of hi lo] by simp
  then show ?thesis using True by (simp add: eval_wrapi_def signed_sub64_spec)
qed (simp add: eval_wrapi_def signed_sub64_spec)

lemma wrapi_offset_undefined:
  fixes v lo hi :: int64
  defines "n \<equiv> sint hi - sint lo" and "d \<equiv> sint v - sint lo"
  assumes n: "fits64 n" "n \<noteq> 0" and d: "\<not> fits64 d \<or> (d = - (2 ^ 63) \<and> n = - 1)"
  shows "eval_wrapi v lo hi = Inl UndefinedBehaviour"
proof -
  have s: "sint (word_of_int n :: int64) = n" by (rule fits64_sint[OF n(1)])
  then have nz: "word_of_int n \<noteq> (0 :: int64)" using n(2) by auto
  have start: "signed_sub64 hi lo = Inr (word_of_int n)" using n(1) by (simp only: signed_sub64_spec n_def if_True)
  show ?thesis
  proof (cases "fits64 d")
    case f: True
    have "signed_sub64 v lo = Inr (word_of_int d)" using f by (simp only: signed_sub64_spec d_def if_True)
    moreover have "signed_rem64 (word_of_int d) (word_of_int n) = Inl UndefinedBehaviour"
      using d f s fits64_sint[OF f] by (simp only: signed_rem64_spec simp_thms if_True)
    ultimately show ?thesis using start nz by (simp only: eval_wrapi_def bind_res_Inl bind_res_Inr simp_thms if_False)
  next
    case False
    then have "signed_sub64 v lo = Inl UndefinedBehaviour" by (simp only: signed_sub64_spec d_def if_False)
    then show ?thesis using start nz by (simp only: eval_wrapi_def bind_res_Inl bind_res_Inr simp_thms if_False)
  qed
qed

lemma eval_wrapi_spec:
  fixes v lo hi :: int64
  defines "n \<equiv> sint hi - sint lo" and "d \<equiv> sint v - sint lo"
  shows "eval_wrapi v lo hi =
    (if \<not> fits64 n then Inl UndefinedBehaviour
     else if n = 0 then Inr lo
     else if \<not> fits64 d \<or> (d = - (2 ^ 63) \<and> n = - 1) \<or> \<not> fits64 (d smod n + n) then Inl UndefinedBehaviour
     else Inr (word_of_int (sint lo + d mod n)))"
proof (cases "fits64 n \<and> n \<noteq> 0 \<and> fits64 d \<and> \<not> (d = - (2 ^ 63) \<and> n = - 1)")
  case True
  let ?r1 = "d smod n"
  have s: "sint (word_of_int n :: int64) = n" "sint (word_of_int d :: int64) = d" "sint (word_of_int ?r1 :: int64) = ?r1"
    "sint (word_of_int (d mod n) :: int64) = d mod n"
    using True fits64_smod[of n d] fits64_mod[of n d] by (simp_all add: fits64_sint)
  have nz: "word_of_int n \<noteq> (0 :: int64)" using s(1) True by auto
  have start: "signed_sub64 hi lo = Inr (word_of_int n)" "signed_sub64 v lo = Inr (word_of_int d)"
    "signed_rem64 (word_of_int d) (word_of_int n) = Inr (word_of_int ?r1)"
    using True s by (simp_all only: signed_sub64_spec signed_rem64_spec n_def d_def simp_thms if_True if_False)
  show ?thesis
  proof (cases "fits64 (?r1 + n)")
    case f: True
    have r2: "sint (word_of_int (?r1 + n) :: int64) = ?r1 + n" by (rule fits64_sint[OF f])
    have "\<not> (?r1 + n = - (2 ^ 63) \<and> n = - 1)" using smod_int_range[of n d] by auto
    then have "signed_rem64 (word_of_int (?r1 + n)) (word_of_int n) = Inr (word_of_int (d mod n))"
      using True by (simp only: signed_rem64_spec r2 s smod_add_smod simp_thms if_False)
    moreover have "signed_add64 (word_of_int ?r1) (word_of_int n) = Inr (word_of_int (?r1 + n))"
      using f by (simp only: signed_add64_spec s if_True)
    moreover have "fits64 (sint lo + d mod n)"
      unfolding n_def by (rule wrap_fits64) (use True in \<open>auto simp: n_def fits64_iff_sint\<close>)
    then have "signed_add64 lo (word_of_int (d mod n)) = Inr (word_of_int (sint lo + d mod n))"
      by (simp only: signed_add64_spec s if_True)
    ultimately show ?thesis using True f nz start by (simp only: eval_wrapi_def bind_res_Inl bind_res_Inr simp_thms if_True if_False)
  next
    case f: False
    then have "signed_add64 (word_of_int ?r1) (word_of_int n) = Inl UndefinedBehaviour"
      by (simp only: signed_add64_spec s if_False)
    then show ?thesis using True f nz start by (simp only: eval_wrapi_def bind_res_Inl bind_res_Inr simp_thms if_True if_False)
  qed
next
  case False
  then consider "\<not> fits64 n \<or> n = 0" | "fits64 n" "n \<noteq> 0" "\<not> fits64 d \<or> (d = - (2 ^ 63) \<and> n = - 1)" by blast
  then show ?thesis
  proof cases
    case 1
    then have "\<not> fits64 (sint hi - sint lo) \<or> sint hi = sint lo" by (auto simp: n_def)
    from wrapi_range_undefined[OF this] show ?thesis using 1 by (auto simp: n_def)
  next
    case 2
    then show ?thesis using wrapi_offset_undefined[OF 2[unfolded n_def d_def]] by auto
  qed
qed

lemma wrapi_value:
  assumes "eval_wrapi v lo hi = Inr r" "sint lo \<noteq> sint hi"
  shows "sint r = sint lo + (sint v - sint lo) mod (sint hi - sint lo)"
proof -
  have "r = word_of_int (sint lo + (sint v - sint lo) mod (sint hi - sint lo))"
    using assms by (auto simp: eval_wrapi_spec split: if_splits)
  then show ?thesis using fits64_sint wrap_fits64[OF assms(2)] fits64_iff_sint by blast
qed

lemma wrapi_bounds:
  assumes "eval_wrapi v lo hi = Inr r"
  shows "sint lo < sint hi \<Longrightarrow> sint lo \<le> sint r \<and> sint r < sint hi"
    "sint hi < sint lo \<Longrightarrow> sint hi < sint r \<and> sint r \<le> sint lo"
    "sint lo \<noteq> sint hi \<Longrightarrow> (sint hi - sint lo) dvd (sint r - sint v)"
proof -
  let ?n = "sint hi - sint lo"
  show "sint lo \<le> sint r \<and> sint r < sint hi" if "sint lo < sint hi"
    using wrapi_value[OF assms] that pos_mod_bound[of ?n "sint v - sint lo"] pos_mod_sign[of ?n "sint v - sint lo"] by linarith
  show "sint hi < sint r \<and> sint r \<le> sint lo" if "sint hi < sint lo"
    using wrapi_value[OF assms] that neg_mod_bound[of ?n "sint v - sint lo"] neg_mod_sign[of ?n "sint v - sint lo"] by linarith
  show "?n dvd (sint r - sint v)" if "sint lo \<noteq> sint hi"
  proof -
    have "sint r - sint v = (sint v - sint lo) mod ?n - (sint v - sint lo)" using wrapi_value[OF assms that] by simp
    then show ?thesis by (metis dvd_minus_mod dvd_minus_iff minus_diff_eq)
  qed
qed

end
