(* ===== verification/IR.thy ===== *)
theory IR
  imports Globals
begin

unbundle bit_operations_syntax

text \<open>
  The intermediate representation: \<^verbatim>\<open>ir.h\<close>, \<^verbatim>\<open>ir.cpp\<close>, \<^verbatim>\<open>ir_opcodes.def\<close> and the
  type tags of \<^verbatim>\<open>variant_types.h\<close>. The opcode enumeration is its index, as the C++
  enumeration is; \<open>OP_X\<close> names the opcode \<open>IROpcode::X\<close>. The metadata table is the one
  place an opcode is described, and every role query (destination, reads, writes, purity)
  is a lookup in it.
\<close>

section \<open>Variant types\<close>

type_synonym TypeHint = int

abbreviation (input) TypeHint_NONE :: TypeHint where
  "TypeHint_NONE \<equiv> - 1"

abbreviation (input) Variant_NIL :: TypeHint where
  "Variant_NIL \<equiv> 0"

abbreviation (input) Variant_BOOL :: TypeHint where
  "Variant_BOOL \<equiv> 1"

abbreviation (input) Variant_INT :: TypeHint where
  "Variant_INT \<equiv> 2"

abbreviation (input) Variant_FLOAT :: TypeHint where
  "Variant_FLOAT \<equiv> 3"

abbreviation (input) Variant_STRING :: TypeHint where
  "Variant_STRING \<equiv> 4"

abbreviation (input) Variant_VECTOR2 :: TypeHint where
  "Variant_VECTOR2 \<equiv> 5"

abbreviation (input) Variant_VECTOR2I :: TypeHint where
  "Variant_VECTOR2I \<equiv> 6"

abbreviation (input) Variant_RECT2 :: TypeHint where
  "Variant_RECT2 \<equiv> 7"

abbreviation (input) Variant_RECT2I :: TypeHint where
  "Variant_RECT2I \<equiv> 8"

abbreviation (input) Variant_VECTOR3 :: TypeHint where
  "Variant_VECTOR3 \<equiv> 9"

abbreviation (input) Variant_VECTOR3I :: TypeHint where
  "Variant_VECTOR3I \<equiv> 10"

abbreviation (input) Variant_TRANSFORM2D :: TypeHint where
  "Variant_TRANSFORM2D \<equiv> 11"

abbreviation (input) Variant_VECTOR4 :: TypeHint where
  "Variant_VECTOR4 \<equiv> 12"

abbreviation (input) Variant_VECTOR4I :: TypeHint where
  "Variant_VECTOR4I \<equiv> 13"

abbreviation (input) Variant_PLANE :: TypeHint where
  "Variant_PLANE \<equiv> 14"

abbreviation (input) Variant_QUATERNION :: TypeHint where
  "Variant_QUATERNION \<equiv> 15"

abbreviation (input) Variant_AABB :: TypeHint where
  "Variant_AABB \<equiv> 16"

abbreviation (input) Variant_BASIS :: TypeHint where
  "Variant_BASIS \<equiv> 17"

abbreviation (input) Variant_TRANSFORM3D :: TypeHint where
  "Variant_TRANSFORM3D \<equiv> 18"

abbreviation (input) Variant_PROJECTION :: TypeHint where
  "Variant_PROJECTION \<equiv> 19"

abbreviation (input) Variant_COLOR :: TypeHint where
  "Variant_COLOR \<equiv> 20"

abbreviation (input) Variant_STRING_NAME :: TypeHint where
  "Variant_STRING_NAME \<equiv> 21"

abbreviation (input) Variant_NODE_PATH :: TypeHint where
  "Variant_NODE_PATH \<equiv> 22"

abbreviation (input) Variant_RID :: TypeHint where
  "Variant_RID \<equiv> 23"

abbreviation (input) Variant_OBJECT :: TypeHint where
  "Variant_OBJECT \<equiv> 24"

abbreviation (input) Variant_CALLABLE :: TypeHint where
  "Variant_CALLABLE \<equiv> 25"

abbreviation (input) Variant_SIGNAL :: TypeHint where
  "Variant_SIGNAL \<equiv> 26"

abbreviation (input) Variant_DICTIONARY :: TypeHint where
  "Variant_DICTIONARY \<equiv> 27"

abbreviation (input) Variant_ARRAY :: TypeHint where
  "Variant_ARRAY \<equiv> 28"

abbreviation (input) Variant_PACKED_BYTE_ARRAY :: TypeHint where
  "Variant_PACKED_BYTE_ARRAY \<equiv> 29"

abbreviation (input) Variant_PACKED_INT32_ARRAY :: TypeHint where
  "Variant_PACKED_INT32_ARRAY \<equiv> 30"

abbreviation (input) Variant_PACKED_INT64_ARRAY :: TypeHint where
  "Variant_PACKED_INT64_ARRAY \<equiv> 31"

abbreviation (input) Variant_PACKED_FLOAT32_ARRAY :: TypeHint where
  "Variant_PACKED_FLOAT32_ARRAY \<equiv> 32"

abbreviation (input) Variant_PACKED_FLOAT64_ARRAY :: TypeHint where
  "Variant_PACKED_FLOAT64_ARRAY \<equiv> 33"

abbreviation (input) Variant_PACKED_STRING_ARRAY :: TypeHint where
  "Variant_PACKED_STRING_ARRAY \<equiv> 34"

abbreviation (input) Variant_PACKED_VECTOR2_ARRAY :: TypeHint where
  "Variant_PACKED_VECTOR2_ARRAY \<equiv> 35"

abbreviation (input) Variant_PACKED_VECTOR3_ARRAY :: TypeHint where
  "Variant_PACKED_VECTOR3_ARRAY \<equiv> 36"

abbreviation (input) Variant_PACKED_COLOR_ARRAY :: TypeHint where
  "Variant_PACKED_COLOR_ARRAY \<equiv> 37"

abbreviation (input) Variant_PACKED_VECTOR4_ARRAY :: TypeHint where
  "Variant_PACKED_VECTOR4_ARRAY \<equiv> 38"

abbreviation (input) VARIANT_MAX :: TypeHint where
  "VARIANT_MAX \<equiv> 39"

section \<open>Opcodes and their metadata\<close>

datatype IROpcode = IROpcode (opcode_index: nat)

abbreviation (input) OP_LOAD_IMM :: IROpcode where
  "OP_LOAD_IMM \<equiv> IROpcode 0"

abbreviation (input) OP_LOAD_FLOAT_IMM :: IROpcode where
  "OP_LOAD_FLOAT_IMM \<equiv> IROpcode 1"

abbreviation (input) OP_LOAD_BOOL :: IROpcode where
  "OP_LOAD_BOOL \<equiv> IROpcode 2"

abbreviation (input) OP_LOAD_STRING :: IROpcode where
  "OP_LOAD_STRING \<equiv> IROpcode 3"

abbreviation (input) OP_LOAD_STRING_AS :: IROpcode where
  "OP_LOAD_STRING_AS \<equiv> IROpcode 4"

abbreviation (input) OP_LOAD_GLOBAL :: IROpcode where
  "OP_LOAD_GLOBAL \<equiv> IROpcode 5"

abbreviation (input) OP_STORE_GLOBAL :: IROpcode where
  "OP_STORE_GLOBAL \<equiv> IROpcode 6"

abbreviation (input) OP_MOVE :: IROpcode where
  "OP_MOVE \<equiv> IROpcode 7"

abbreviation (input) OP_CONVERT :: IROpcode where
  "OP_CONVERT \<equiv> IROpcode 8"

abbreviation (input) OP_COERCE :: IROpcode where
  "OP_COERCE \<equiv> IROpcode 9"

abbreviation (input) OP_TYPE_TEST :: IROpcode where
  "OP_TYPE_TEST \<equiv> IROpcode 10"

abbreviation (input) OP_TYPE_TEST_MASK :: IROpcode where
  "OP_TYPE_TEST_MASK \<equiv> IROpcode 11"

abbreviation (input) OP_TRAIT_TEST :: IROpcode where
  "OP_TRAIT_TEST \<equiv> IROpcode 12"

abbreviation (input) OP_MAKE_SCOPED :: IROpcode where
  "OP_MAKE_SCOPED \<equiv> IROpcode 13"

abbreviation (input) OP_BATCH_GET :: IROpcode where
  "OP_BATCH_GET \<equiv> IROpcode 14"

abbreviation (input) OP_CODEPOINT_GET :: IROpcode where
  "OP_CODEPOINT_GET \<equiv> IROpcode 15"

abbreviation (input) OP_SCOPE_MARK :: IROpcode where
  "OP_SCOPE_MARK \<equiv> IROpcode 16"

abbreviation (input) OP_SCOPE_RELEASE :: IROpcode where
  "OP_SCOPE_RELEASE \<equiv> IROpcode 17"

abbreviation (input) OP_BREAKPOINT :: IROpcode where
  "OP_BREAKPOINT \<equiv> IROpcode 18"

abbreviation (input) OP_TYPE_OF :: IROpcode where
  "OP_TYPE_OF \<equiv> IROpcode 19"

abbreviation (input) OP_LOAD_NIL :: IROpcode where
  "OP_LOAD_NIL \<equiv> IROpcode 20"

abbreviation (input) OP_ADD :: IROpcode where
  "OP_ADD \<equiv> IROpcode 21"

abbreviation (input) OP_SUB :: IROpcode where
  "OP_SUB \<equiv> IROpcode 22"

abbreviation (input) OP_MUL :: IROpcode where
  "OP_MUL \<equiv> IROpcode 23"

abbreviation (input) OP_DIV :: IROpcode where
  "OP_DIV \<equiv> IROpcode 24"

abbreviation (input) OP_MOD :: IROpcode where
  "OP_MOD \<equiv> IROpcode 25"

abbreviation (input) OP_NEG :: IROpcode where
  "OP_NEG \<equiv> IROpcode 26"

abbreviation (input) OP_POW :: IROpcode where
  "OP_POW \<equiv> IROpcode 27"

abbreviation (input) OP_CMP_EQ :: IROpcode where
  "OP_CMP_EQ \<equiv> IROpcode 28"

abbreviation (input) OP_CMP_NEQ :: IROpcode where
  "OP_CMP_NEQ \<equiv> IROpcode 29"

abbreviation (input) OP_CMP_LT :: IROpcode where
  "OP_CMP_LT \<equiv> IROpcode 30"

abbreviation (input) OP_CMP_LTE :: IROpcode where
  "OP_CMP_LTE \<equiv> IROpcode 31"

abbreviation (input) OP_CMP_GT :: IROpcode where
  "OP_CMP_GT \<equiv> IROpcode 32"

abbreviation (input) OP_CMP_GTE :: IROpcode where
  "OP_CMP_GTE \<equiv> IROpcode 33"

abbreviation (input) OP_AND :: IROpcode where
  "OP_AND \<equiv> IROpcode 34"

abbreviation (input) OP_OR :: IROpcode where
  "OP_OR \<equiv> IROpcode 35"

abbreviation (input) OP_NOT :: IROpcode where
  "OP_NOT \<equiv> IROpcode 36"

abbreviation (input) OP_BIT_AND :: IROpcode where
  "OP_BIT_AND \<equiv> IROpcode 37"

abbreviation (input) OP_BIT_OR :: IROpcode where
  "OP_BIT_OR \<equiv> IROpcode 38"

abbreviation (input) OP_BIT_XOR :: IROpcode where
  "OP_BIT_XOR \<equiv> IROpcode 39"

abbreviation (input) OP_BIT_NOT :: IROpcode where
  "OP_BIT_NOT \<equiv> IROpcode 40"

abbreviation (input) OP_SHL :: IROpcode where
  "OP_SHL \<equiv> IROpcode 41"

abbreviation (input) OP_SHR :: IROpcode where
  "OP_SHR \<equiv> IROpcode 42"

abbreviation (input) OP_IN :: IROpcode where
  "OP_IN \<equiv> IROpcode 43"

abbreviation (input) OP_LABEL :: IROpcode where
  "OP_LABEL \<equiv> IROpcode 44"

abbreviation (input) OP_JUMP :: IROpcode where
  "OP_JUMP \<equiv> IROpcode 45"

abbreviation (input) OP_BRANCH_ZERO :: IROpcode where
  "OP_BRANCH_ZERO \<equiv> IROpcode 46"

abbreviation (input) OP_BRANCH_NOT_ZERO :: IROpcode where
  "OP_BRANCH_NOT_ZERO \<equiv> IROpcode 47"

abbreviation (input) OP_BRANCH_EQ :: IROpcode where
  "OP_BRANCH_EQ \<equiv> IROpcode 48"

abbreviation (input) OP_BRANCH_NEQ :: IROpcode where
  "OP_BRANCH_NEQ \<equiv> IROpcode 49"

abbreviation (input) OP_BRANCH_LT :: IROpcode where
  "OP_BRANCH_LT \<equiv> IROpcode 50"

abbreviation (input) OP_BRANCH_LTE :: IROpcode where
  "OP_BRANCH_LTE \<equiv> IROpcode 51"

abbreviation (input) OP_BRANCH_GT :: IROpcode where
  "OP_BRANCH_GT \<equiv> IROpcode 52"

abbreviation (input) OP_BRANCH_GTE :: IROpcode where
  "OP_BRANCH_GTE \<equiv> IROpcode 53"

abbreviation (input) OP_SWITCH :: IROpcode where
  "OP_SWITCH \<equiv> IROpcode 54"

abbreviation (input) OP_CALL :: IROpcode where
  "OP_CALL \<equiv> IROpcode 55"

abbreviation (input) OP_CALL_HOSTED :: IROpcode where
  "OP_CALL_HOSTED \<equiv> IROpcode 56"

abbreviation (input) OP_CALL_SYSCALL :: IROpcode where
  "OP_CALL_SYSCALL \<equiv> IROpcode 57"

abbreviation (input) OP_GET_NODE :: IROpcode where
  "OP_GET_NODE \<equiv> IROpcode 58"

abbreviation (input) OP_MAKE_CALLABLE :: IROpcode where
  "OP_MAKE_CALLABLE \<equiv> IROpcode 59"

abbreviation (input) OP_LOAD_RESOURCE :: IROpcode where
  "OP_LOAD_RESOURCE \<equiv> IROpcode 60"

abbreviation (input) OP_LOAD_RESOURCE_VAR :: IROpcode where
  "OP_LOAD_RESOURCE_VAR \<equiv> IROpcode 61"

abbreviation (input) OP_RETURN :: IROpcode where
  "OP_RETURN \<equiv> IROpcode 62"

abbreviation (input) OP_VCALL :: IROpcode where
  "OP_VCALL \<equiv> IROpcode 63"

abbreviation (input) OP_VGET :: IROpcode where
  "OP_VGET \<equiv> IROpcode 64"

abbreviation (input) OP_VSET :: IROpcode where
  "OP_VSET \<equiv> IROpcode 65"

abbreviation (input) OP_VARIANT_SET :: IROpcode where
  "OP_VARIANT_SET \<equiv> IROpcode 66"

abbreviation (input) OP_PRINT :: IROpcode where
  "OP_PRINT \<equiv> IROpcode 67"

abbreviation (input) OP_THROW :: IROpcode where
  "OP_THROW \<equiv> IROpcode 68"

abbreviation (input) OP_GLOBAL_CALL :: IROpcode where
  "OP_GLOBAL_CALL \<equiv> IROpcode 69"

abbreviation (input) OP_MAKE_VECTOR2 :: IROpcode where
  "OP_MAKE_VECTOR2 \<equiv> IROpcode 70"

abbreviation (input) OP_MAKE_VECTOR3 :: IROpcode where
  "OP_MAKE_VECTOR3 \<equiv> IROpcode 71"

abbreviation (input) OP_MAKE_VECTOR4 :: IROpcode where
  "OP_MAKE_VECTOR4 \<equiv> IROpcode 72"

abbreviation (input) OP_MAKE_VECTOR2I :: IROpcode where
  "OP_MAKE_VECTOR2I \<equiv> IROpcode 73"

abbreviation (input) OP_MAKE_VECTOR3I :: IROpcode where
  "OP_MAKE_VECTOR3I \<equiv> IROpcode 74"

abbreviation (input) OP_MAKE_VECTOR4I :: IROpcode where
  "OP_MAKE_VECTOR4I \<equiv> IROpcode 75"

abbreviation (input) OP_MAKE_COLOR :: IROpcode where
  "OP_MAKE_COLOR \<equiv> IROpcode 76"

abbreviation (input) OP_MAKE_RECT2 :: IROpcode where
  "OP_MAKE_RECT2 \<equiv> IROpcode 77"

abbreviation (input) OP_MAKE_RECT2I :: IROpcode where
  "OP_MAKE_RECT2I \<equiv> IROpcode 78"

abbreviation (input) OP_MAKE_PLANE :: IROpcode where
  "OP_MAKE_PLANE \<equiv> IROpcode 79"

abbreviation (input) OP_CONSTRUCT :: IROpcode where
  "OP_CONSTRUCT \<equiv> IROpcode 80"

abbreviation (input) OP_ARRAY_GET :: IROpcode where
  "OP_ARRAY_GET \<equiv> IROpcode 81"

abbreviation (input) OP_ARRAY_SET :: IROpcode where
  "OP_ARRAY_SET \<equiv> IROpcode 82"

abbreviation (input) OP_ARRAY_APPEND :: IROpcode where
  "OP_ARRAY_APPEND \<equiv> IROpcode 83"

abbreviation (input) OP_DICT_SET :: IROpcode where
  "OP_DICT_SET \<equiv> IROpcode 84"

abbreviation (input) OP_DICT_GET_CONST :: IROpcode where
  "OP_DICT_GET_CONST \<equiv> IROpcode 85"

abbreviation (input) OP_DICT_SET_CONST :: IROpcode where
  "OP_DICT_SET_CONST \<equiv> IROpcode 86"

abbreviation (input) OP_DICT_SET_CONST_STR :: IROpcode where
  "OP_DICT_SET_CONST_STR \<equiv> IROpcode 87"

abbreviation (input) OP_DICT_HAS_CONST :: IROpcode where
  "OP_DICT_HAS_CONST \<equiv> IROpcode 88"

abbreviation (input) OP_STRUCT_CHECK :: IROpcode where
  "OP_STRUCT_CHECK \<equiv> IROpcode 89"

abbreviation (input) OP_MAKE_ARRAY :: IROpcode where
  "OP_MAKE_ARRAY \<equiv> IROpcode 90"

abbreviation (input) OP_MAKE_DICTIONARY :: IROpcode where
  "OP_MAKE_DICTIONARY \<equiv> IROpcode 91"

abbreviation (input) OP_MAKE_DICTIONARY_KEYED :: IROpcode where
  "OP_MAKE_DICTIONARY_KEYED \<equiv> IROpcode 92"

abbreviation (input) OP_MAKE_PACKED_BYTE_ARRAY :: IROpcode where
  "OP_MAKE_PACKED_BYTE_ARRAY \<equiv> IROpcode 93"

abbreviation (input) OP_MAKE_PACKED_INT32_ARRAY :: IROpcode where
  "OP_MAKE_PACKED_INT32_ARRAY \<equiv> IROpcode 94"

abbreviation (input) OP_MAKE_PACKED_INT64_ARRAY :: IROpcode where
  "OP_MAKE_PACKED_INT64_ARRAY \<equiv> IROpcode 95"

abbreviation (input) OP_MAKE_PACKED_FLOAT32_ARRAY :: IROpcode where
  "OP_MAKE_PACKED_FLOAT32_ARRAY \<equiv> IROpcode 96"

abbreviation (input) OP_MAKE_PACKED_FLOAT64_ARRAY :: IROpcode where
  "OP_MAKE_PACKED_FLOAT64_ARRAY \<equiv> IROpcode 97"

abbreviation (input) OP_MAKE_PACKED_STRING_ARRAY :: IROpcode where
  "OP_MAKE_PACKED_STRING_ARRAY \<equiv> IROpcode 98"

abbreviation (input) OP_MAKE_PACKED_VECTOR2_ARRAY :: IROpcode where
  "OP_MAKE_PACKED_VECTOR2_ARRAY \<equiv> IROpcode 99"

abbreviation (input) OP_MAKE_PACKED_VECTOR3_ARRAY :: IROpcode where
  "OP_MAKE_PACKED_VECTOR3_ARRAY \<equiv> IROpcode 100"

abbreviation (input) OP_MAKE_PACKED_COLOR_ARRAY :: IROpcode where
  "OP_MAKE_PACKED_COLOR_ARRAY \<equiv> IROpcode 101"

abbreviation (input) OP_MAKE_PACKED_VECTOR4_ARRAY :: IROpcode where
  "OP_MAKE_PACKED_VECTOR4_ARRAY \<equiv> IROpcode 102"

abbreviation (input) OP_AWAIT :: IROpcode where
  "OP_AWAIT \<equiv> IROpcode 103"

abbreviation (input) OP_VGET_INLINE :: IROpcode where
  "OP_VGET_INLINE \<equiv> IROpcode 104"

abbreviation (input) OP_VSET_INLINE :: IROpcode where
  "OP_VSET_INLINE \<equiv> IROpcode 105"

datatype IROperandKind =
    NONE | DST | INOUT | SRC | IMM | FIMM | STR_K | LBL | CNT | CNT2
  | SRC_LIST | ARG_LIST | LBL_LIST

type_synonym IREffect = "32 word"

abbreviation (input) IR_PURE :: IREffect where
  "IR_PURE \<equiv> 0"

abbreviation (input) IR_SIDE_EFFECTS :: IREffect where
  "IR_SIDE_EFFECTS \<equiv> 1"

abbreviation (input) IR_BRANCH :: IREffect where
  "IR_BRANCH \<equiv> 2"

abbreviation (input) IR_FUSED_BRANCH :: IREffect where
  "IR_FUSED_BRANCH \<equiv> 4"

abbreviation (input) IR_TERMINATOR :: IREffect where
  "IR_TERMINATOR \<equiv> 8"

abbreviation (input) IR_LABEL :: IREffect where
  "IR_LABEL \<equiv> 16"

abbreviation (input) IR_CALL :: IREffect where
  "IR_CALL \<equiv> 32"

abbreviation (input) IR_READS_GLOBAL :: IREffect where
  "IR_READS_GLOBAL \<equiv> 64"

abbreviation (input) IR_WRITES_GLOBAL :: IREffect where
  "IR_WRITES_GLOBAL \<equiv> 128"

abbreviation (input) IR_ARITHMETIC :: IREffect where
  "IR_ARITHMETIC \<equiv> 256"

abbreviation (input) IR_COMPARISON :: IREffect where
  "IR_COMPARISON \<equiv> 512"

abbreviation (input) IR_SIMPLE_LOAD :: IREffect where
  "IR_SIMPLE_LOAD \<equiv> 1024"

text \<open>An operand signature is its kinds in order; \<open>count\<close> is the length of the list.\<close>

type_synonym IROperandSignature = "IROperandKind list"

definition is_variadic :: "IROperandSignature \<Rightarrow> bool" where
  "is_variadic sig = (sig \<noteq> [] \<and> last sig \<in> {SRC_LIST, ARG_LIST, LBL_LIST})"

definition fixed_count :: "IROperandSignature \<Rightarrow> nat" where
  "fixed_count sig = (if is_variadic sig then length sig - 1 else length sig)"

definition kind_at :: "IROperandSignature \<Rightarrow> nat \<Rightarrow> IROperandKind" where
  "kind_at sig index =
     (if index < fixed_count sig then sig ! index
      else if is_variadic sig then last sig
      else NONE)"

record IROpcodeInfo =
  info_opcode :: IROpcode
  mnemonic :: string
  signature :: IROperandSignature
  effects :: IREffect

definition op_row :: "IROpcode \<Rightarrow> string \<Rightarrow> IROperandSignature \<Rightarrow> IREffect \<Rightarrow> IROpcodeInfo" where
  "op_row op m sig eff = \<lparr>info_opcode = op, mnemonic = m, signature = sig, effects = eff\<rparr>"

definition IR_OPCODE_TABLE :: "IROpcodeInfo list" where
  "IR_OPCODE_TABLE = [
    op_row OP_LOAD_IMM ''LOAD_IMM'' [DST, IMM] (IR_SIMPLE_LOAD),
    op_row OP_LOAD_FLOAT_IMM ''LOAD_FLOAT_IMM'' [DST, FIMM] (IR_SIMPLE_LOAD),
    op_row OP_LOAD_BOOL ''LOAD_BOOL'' [DST, IMM] (IR_SIMPLE_LOAD),
    op_row OP_LOAD_STRING ''LOAD_STRING'' [DST, IMM] (IR_SIMPLE_LOAD),
    op_row OP_LOAD_STRING_AS ''LOAD_STRING_AS'' [DST, IMM, IMM] (IR_SIMPLE_LOAD),
    op_row OP_LOAD_GLOBAL ''LOAD_GLOBAL'' [DST, IMM] (IR_READS_GLOBAL),
    op_row OP_STORE_GLOBAL ''STORE_GLOBAL'' [IMM, SRC] (IR_SIDE_EFFECTS OR IR_WRITES_GLOBAL),
    op_row OP_MOVE ''MOVE'' [DST, SRC] (IR_SIMPLE_LOAD),
    op_row OP_CONVERT ''CONVERT'' [DST, SRC, IMM] (IR_PURE),
    op_row OP_COERCE ''COERCE'' [DST, SRC] (IR_PURE),
    op_row OP_TYPE_TEST ''TYPE_TEST'' [DST, SRC, IMM] (IR_PURE),
    op_row OP_TYPE_TEST_MASK ''TYPE_TEST_MASK'' [DST, SRC, IMM] (IR_PURE),
    op_row OP_TRAIT_TEST ''TRAIT_TEST'' [DST, SRC, IMM] (IR_SIDE_EFFECTS),
    op_row OP_MAKE_SCOPED ''MAKE_SCOPED'' [DST, SRC, IMM] (IR_PURE),
    op_row OP_BATCH_GET ''BATCH_GET'' [DST, IMM, SRC] (IR_PURE),
    op_row OP_CODEPOINT_GET ''CODEPOINT_GET'' [DST, IMM, SRC] (IR_PURE),
    op_row OP_SCOPE_MARK ''SCOPE_MARK'' [IMM] (IR_SIDE_EFFECTS),
    op_row OP_SCOPE_RELEASE ''SCOPE_RELEASE'' [IMM] (IR_SIDE_EFFECTS),
    op_row OP_BREAKPOINT ''BREAKPOINT'' [] (IR_SIDE_EFFECTS),
    op_row OP_TYPE_OF ''TYPE_OF'' [DST, SRC] (IR_PURE),
    op_row OP_LOAD_NIL ''LOAD_NIL'' [DST] (IR_SIMPLE_LOAD),
    op_row OP_ADD ''ADD'' [DST, SRC, SRC] (IR_ARITHMETIC),
    op_row OP_SUB ''SUB'' [DST, SRC, SRC] (IR_ARITHMETIC),
    op_row OP_MUL ''MUL'' [DST, SRC, SRC] (IR_ARITHMETIC),
    op_row OP_DIV ''DIV'' [DST, SRC, SRC] (IR_ARITHMETIC),
    op_row OP_MOD ''MOD'' [DST, SRC, SRC] (IR_ARITHMETIC),
    op_row OP_NEG ''NEG'' [DST, SRC] (IR_ARITHMETIC),
    op_row OP_POW ''POW'' [DST, SRC, SRC] (IR_ARITHMETIC),
    op_row OP_CMP_EQ ''CMP_EQ'' [DST, SRC, SRC] (IR_ARITHMETIC OR IR_COMPARISON),
    op_row OP_CMP_NEQ ''CMP_NEQ'' [DST, SRC, SRC] (IR_ARITHMETIC OR IR_COMPARISON),
    op_row OP_CMP_LT ''CMP_LT'' [DST, SRC, SRC] (IR_ARITHMETIC OR IR_COMPARISON),
    op_row OP_CMP_LTE ''CMP_LTE'' [DST, SRC, SRC] (IR_ARITHMETIC OR IR_COMPARISON),
    op_row OP_CMP_GT ''CMP_GT'' [DST, SRC, SRC] (IR_ARITHMETIC OR IR_COMPARISON),
    op_row OP_CMP_GTE ''CMP_GTE'' [DST, SRC, SRC] (IR_ARITHMETIC OR IR_COMPARISON),
    op_row OP_AND ''AND'' [DST, SRC, SRC] (IR_ARITHMETIC),
    op_row OP_OR ''OR'' [DST, SRC, SRC] (IR_ARITHMETIC),
    op_row OP_NOT ''NOT'' [DST, SRC] (IR_PURE),
    op_row OP_BIT_AND ''BIT_AND'' [DST, SRC, SRC] (IR_ARITHMETIC),
    op_row OP_BIT_OR ''BIT_OR'' [DST, SRC, SRC] (IR_ARITHMETIC),
    op_row OP_BIT_XOR ''BIT_XOR'' [DST, SRC, SRC] (IR_ARITHMETIC),
    op_row OP_BIT_NOT ''BIT_NOT'' [DST, SRC] (IR_ARITHMETIC),
    op_row OP_SHL ''SHL'' [DST, SRC, SRC] (IR_ARITHMETIC),
    op_row OP_SHR ''SHR'' [DST, SRC, SRC] (IR_ARITHMETIC),
    op_row OP_IN ''IN'' [DST, SRC, SRC] (IR_ARITHMETIC),
    op_row OP_LABEL ''LABEL'' [LBL] (IR_SIDE_EFFECTS OR IR_LABEL),
    op_row OP_JUMP ''JUMP'' [LBL] (IR_SIDE_EFFECTS OR IR_TERMINATOR),
    op_row OP_BRANCH_ZERO ''BRANCH_ZERO'' [SRC, LBL] (IR_SIDE_EFFECTS OR IR_BRANCH),
    op_row OP_BRANCH_NOT_ZERO ''BRANCH_NOT_ZERO'' [SRC, LBL] (IR_SIDE_EFFECTS OR IR_BRANCH),
    op_row OP_BRANCH_EQ ''BRANCH_EQ'' [SRC, SRC, LBL] (IR_SIDE_EFFECTS OR IR_BRANCH OR IR_FUSED_BRANCH),
    op_row OP_BRANCH_NEQ ''BRANCH_NEQ'' [SRC, SRC, LBL] (IR_SIDE_EFFECTS OR IR_BRANCH OR IR_FUSED_BRANCH),
    op_row OP_BRANCH_LT ''BRANCH_LT'' [SRC, SRC, LBL] (IR_SIDE_EFFECTS OR IR_BRANCH OR IR_FUSED_BRANCH),
    op_row OP_BRANCH_LTE ''BRANCH_LTE'' [SRC, SRC, LBL] (IR_SIDE_EFFECTS OR IR_BRANCH OR IR_FUSED_BRANCH),
    op_row OP_BRANCH_GT ''BRANCH_GT'' [SRC, SRC, LBL] (IR_SIDE_EFFECTS OR IR_BRANCH OR IR_FUSED_BRANCH),
    op_row OP_BRANCH_GTE ''BRANCH_GTE'' [SRC, SRC, LBL] (IR_SIDE_EFFECTS OR IR_BRANCH OR IR_FUSED_BRANCH),
    op_row OP_SWITCH ''SWITCH'' [SRC, IMM, CNT, LBL_LIST] (IR_SIDE_EFFECTS OR IR_BRANCH),
    op_row OP_CALL ''CALL'' [STR_K, DST, CNT, SRC_LIST] (IR_SIDE_EFFECTS OR IR_CALL),
    op_row OP_CALL_HOSTED ''CALL_HOSTED'' [STR_K, DST, CNT, SRC_LIST] (IR_SIDE_EFFECTS OR IR_CALL),
    op_row OP_CALL_SYSCALL ''CALL_SYSCALL'' [DST, IMM, ARG_LIST] (IR_SIDE_EFFECTS OR IR_CALL),
    op_row OP_GET_NODE ''GET_NODE'' [DST, STR_K] (IR_SIDE_EFFECTS OR IR_CALL),
    op_row OP_MAKE_CALLABLE ''MAKE_CALLABLE'' [DST, STR_K, SRC] (IR_SIDE_EFFECTS OR IR_CALL),
    op_row OP_LOAD_RESOURCE ''LOAD_RESOURCE'' [DST, STR_K] (IR_SIDE_EFFECTS OR IR_CALL),
    op_row OP_LOAD_RESOURCE_VAR ''LOAD_RESOURCE_VAR'' [DST, SRC] (IR_SIDE_EFFECTS OR IR_CALL),
    op_row OP_RETURN ''RETURN'' [] (IR_SIDE_EFFECTS OR IR_TERMINATOR),
    op_row OP_VCALL ''VCALL'' [DST, SRC, STR_K, CNT, SRC_LIST] (IR_SIDE_EFFECTS OR IR_CALL),
    op_row OP_VGET ''VGET'' [DST, SRC, IMM, IMM] (IR_SIDE_EFFECTS),
    op_row OP_VSET ''VSET'' [SRC, IMM, IMM, SRC] (IR_SIDE_EFFECTS),
    op_row OP_VARIANT_SET ''VARIANT_SET'' [INOUT, SRC, SRC] (IR_SIDE_EFFECTS),
    op_row OP_PRINT ''PRINT'' [DST, IMM, CNT, SRC_LIST] (IR_SIDE_EFFECTS OR IR_CALL),
    op_row OP_THROW ''THROW'' [STR_K, STR_K, CNT, SRC_LIST] (IR_SIDE_EFFECTS OR IR_CALL),
    op_row OP_GLOBAL_CALL ''GLOBAL_CALL'' [DST, IMM, IMM, CNT, SRC_LIST] (IR_PURE),
    op_row OP_MAKE_VECTOR2 ''MAKE_VECTOR2'' [DST, SRC, SRC] (IR_PURE),
    op_row OP_MAKE_VECTOR3 ''MAKE_VECTOR3'' [DST, SRC, SRC, SRC] (IR_PURE),
    op_row OP_MAKE_VECTOR4 ''MAKE_VECTOR4'' [DST, SRC, SRC, SRC, SRC] (IR_PURE),
    op_row OP_MAKE_VECTOR2I ''MAKE_VECTOR2I'' [DST, SRC, SRC] (IR_PURE),
    op_row OP_MAKE_VECTOR3I ''MAKE_VECTOR3I'' [DST, SRC, SRC, SRC] (IR_PURE),
    op_row OP_MAKE_VECTOR4I ''MAKE_VECTOR4I'' [DST, SRC, SRC, SRC, SRC] (IR_PURE),
    op_row OP_MAKE_COLOR ''MAKE_COLOR'' [DST, SRC, SRC, SRC, SRC] (IR_PURE),
    op_row OP_MAKE_RECT2 ''MAKE_RECT2'' [DST, SRC, SRC, SRC, SRC] (IR_PURE),
    op_row OP_MAKE_RECT2I ''MAKE_RECT2I'' [DST, SRC, SRC, SRC, SRC] (IR_PURE),
    op_row OP_MAKE_PLANE ''MAKE_PLANE'' [DST, SRC, SRC, SRC, SRC] (IR_PURE),
    op_row OP_CONSTRUCT ''CONSTRUCT'' [DST, IMM, CNT, SRC_LIST] (IR_PURE),
    op_row OP_ARRAY_GET ''ARRAY_GET'' [DST, SRC, SRC] (IR_SIDE_EFFECTS),
    op_row OP_ARRAY_SET ''ARRAY_SET'' [SRC, SRC, SRC] (IR_SIDE_EFFECTS),
    op_row OP_ARRAY_APPEND ''ARRAY_APPEND'' [DST, SRC, SRC] (IR_SIDE_EFFECTS),
    op_row OP_DICT_SET ''DICT_SET'' [SRC, SRC, SRC] (IR_SIDE_EFFECTS),
    op_row OP_DICT_GET_CONST ''DICT_GET_CONST'' [DST, SRC, IMM] (IR_SIDE_EFFECTS),
    op_row OP_DICT_SET_CONST ''DICT_SET_CONST'' [SRC, IMM, SRC] (IR_SIDE_EFFECTS),
    op_row OP_DICT_SET_CONST_STR ''DICT_SET_CONST_STR'' [SRC, IMM, SRC] (IR_SIDE_EFFECTS),
    op_row OP_DICT_HAS_CONST ''DICT_HAS_CONST'' [DST, SRC, IMM] (IR_SIDE_EFFECTS),
    op_row OP_STRUCT_CHECK ''STRUCT_CHECK'' [DST, SRC, CNT, ARG_LIST] (IR_SIDE_EFFECTS),
    op_row OP_MAKE_ARRAY ''MAKE_ARRAY'' [DST, CNT, SRC_LIST] (IR_PURE),
    op_row OP_MAKE_DICTIONARY ''MAKE_DICTIONARY'' [DST, CNT2, SRC_LIST] (IR_PURE),
    op_row OP_MAKE_DICTIONARY_KEYED ''MAKE_DICTIONARY_KEYED'' [DST, CNT2, ARG_LIST] (IR_SIDE_EFFECTS),
    op_row OP_MAKE_PACKED_BYTE_ARRAY ''MAKE_PACKED_BYTE_ARRAY'' [DST, CNT, SRC_LIST] (IR_PURE),
    op_row OP_MAKE_PACKED_INT32_ARRAY ''MAKE_PACKED_INT32_ARRAY'' [DST, CNT, SRC_LIST] (IR_PURE),
    op_row OP_MAKE_PACKED_INT64_ARRAY ''MAKE_PACKED_INT64_ARRAY'' [DST, CNT, SRC_LIST] (IR_PURE),
    op_row OP_MAKE_PACKED_FLOAT32_ARRAY ''MAKE_PACKED_FLOAT32_ARRAY'' [DST, CNT, SRC_LIST] (IR_PURE),
    op_row OP_MAKE_PACKED_FLOAT64_ARRAY ''MAKE_PACKED_FLOAT64_ARRAY'' [DST, CNT, SRC_LIST] (IR_PURE),
    op_row OP_MAKE_PACKED_STRING_ARRAY ''MAKE_PACKED_STRING_ARRAY'' [DST, CNT, SRC_LIST] (IR_PURE),
    op_row OP_MAKE_PACKED_VECTOR2_ARRAY ''MAKE_PACKED_VECTOR2_ARRAY'' [DST, CNT, SRC_LIST] (IR_PURE),
    op_row OP_MAKE_PACKED_VECTOR3_ARRAY ''MAKE_PACKED_VECTOR3_ARRAY'' [DST, CNT, SRC_LIST] (IR_PURE),
    op_row OP_MAKE_PACKED_COLOR_ARRAY ''MAKE_PACKED_COLOR_ARRAY'' [DST, CNT, SRC_LIST] (IR_PURE),
    op_row OP_MAKE_PACKED_VECTOR4_ARRAY ''MAKE_PACKED_VECTOR4_ARRAY'' [DST, CNT, SRC_LIST] (IR_PURE),
    op_row OP_AWAIT ''AWAIT'' [DST, SRC] (IR_SIDE_EFFECTS OR IR_CALL),
    op_row OP_VGET_INLINE ''VGET_INLINE'' [DST, SRC, STR_K, IMM] (IR_PURE),
    op_row OP_VSET_INLINE ''VSET_INLINE'' [INOUT, STR_K, IMM, SRC, IMM] (IR_SIDE_EFFECTS)]"

definition IR_OPCODE_COUNT :: nat where
  "IR_OPCODE_COUNT = 106"

definition ir_opcode_info :: "IROpcode \<Rightarrow> IROpcodeInfo" where
  "ir_opcode_info op =
     (if IR_OPCODE_COUNT \<le> opcode_index op
      then op_row OP_LABEL ''UNKNOWN'' [] IR_SIDE_EFFECTS
      else IR_OPCODE_TABLE ! opcode_index op)"

definition ir_has_effect :: "IROpcode \<Rightarrow> IREffect \<Rightarrow> bool" where
  "ir_has_effect op effect = (effects (ir_opcode_info op) AND effect \<noteq> 0)"

definition ir_is_pure :: "IROpcode \<Rightarrow> bool" where
  "ir_is_pure op = (effects (ir_opcode_info op) AND IR_SIDE_EFFECTS = 0)"

definition ir_is_control_flow :: "IROpcode \<Rightarrow> bool" where
  "ir_is_control_flow op =
     (effects (ir_opcode_info op) AND (IR_LABEL OR IR_BRANCH OR IR_TERMINATOR) \<noteq> 0)"

definition ir_opcode_name :: "IROpcode \<Rightarrow> string" where
  "ir_opcode_name op = mnemonic (ir_opcode_info op)"

definition ir_operand_kind_name :: "IROperandKind \<Rightarrow> string" where
  "ir_operand_kind_name kind = (case kind of
     NONE \<Rightarrow> ''nothing''
   | DST \<Rightarrow> ''destination register''
   | INOUT \<Rightarrow> ''read-modify-write register''
   | SRC \<Rightarrow> ''source register''
   | IMM \<Rightarrow> ''immediate''
   | FIMM \<Rightarrow> ''float immediate''
   | STR_K \<Rightarrow> ''string''
   | LBL \<Rightarrow> ''label''
   | CNT \<Rightarrow> ''argument count''
   | CNT2 \<Rightarrow> ''pair count''
   | SRC_LIST \<Rightarrow> ''source register''
   | ARG_LIST \<Rightarrow> ''argument''
   | LBL_LIST \<Rightarrow> ''label'')"

section \<open>Interned names\<close>

text \<open>
  \<open>IRStringTable\<close>: names of labels, variables and callees, by index. An identifier is the
  vector's size at insertion, cut to 32 bits; a lookup past the end is the empty name.
\<close>

record IRStringTable =
  m_strings :: "string list"
  m_ids :: "string \<Rightarrow> nat option"

definition empty_table :: IRStringTable where
  "empty_table = \<lparr>m_strings = [], m_ids = Map.empty\<rparr>"

definition INVALID_ID :: nat where
  "INVALID_ID = 2 ^ 32 - 1"

definition intern :: "IRStringTable \<Rightarrow> string \<Rightarrow> nat \<times> IRStringTable" where
  "intern t text = (case m_ids t text of
     Some i \<Rightarrow> (i, t)
   | None \<Rightarrow>
       let i = length (m_strings t) mod 2 ^ 32
       in (i, \<lparr>m_strings = m_strings t @ [text], m_ids = (m_ids t)(text \<mapsto> i)\<rparr>))"

definition string_at :: "IRStringTable \<Rightarrow> nat \<Rightarrow> string" where
  "string_at t i = (if i < length (m_strings t) then m_strings t ! i else [])"

section \<open>Operands and instructions\<close>

text \<open>
  \<open>IRValue\<close> is a tag and a union of a 32-bit register number, a 64-bit immediate, a double
  and a 32-bit name. The accessors read the union without looking at the tag: \<open>payload\<close> is
  the 64 bits of the union (little-endian, zeroed by the constructor), so reading another
  member than the one stored gives the bits that member overlays.
\<close>

datatype IRValue =
    Reg int
  | Imm int64
  | FImm double
  | Label nat
  | Var nat
  | Str nat

fun payload :: "IRValue \<Rightarrow> int64" where
  "payload (Reg r) = ucast (word_of_int r :: 32 word)"
| "payload (Imm i) = i"
| "payload (FImm d) = dbl_bits d"
| "payload (Label n) = ucast (of_nat n :: 32 word)"
| "payload (Var n) = ucast (of_nat n :: 32 word)"
| "payload (Str n) = ucast (of_nat n :: 32 word)"

definition reg_index :: "IRValue \<Rightarrow> int" where
  "reg_index v = (case v of Reg r \<Rightarrow> r | _ \<Rightarrow> sint (ucast (payload v) :: 32 word))"

definition immediate :: "IRValue \<Rightarrow> int64" where
  "immediate v = payload v"

definition float_number :: "IRValue \<Rightarrow> double" where
  "float_number v = Double (payload v)"

definition string_id :: "IRValue \<Rightarrow> nat" where
  "string_id v = (case v of Label n \<Rightarrow> n | Var n \<Rightarrow> n | Str n \<Rightarrow> n
     | _ \<Rightarrow> unat (ucast (payload v) :: 32 word))"

definition is_register :: "IRValue \<Rightarrow> bool" where
  "is_register v = (case v of Reg _ \<Rightarrow> True | _ \<Rightarrow> False)"

definition is_immediate :: "IRValue \<Rightarrow> bool" where
  "is_immediate v = (case v of Imm _ \<Rightarrow> True | _ \<Rightarrow> False)"

definition is_label :: "IRValue \<Rightarrow> bool" where
  "is_label v = (case v of Label _ \<Rightarrow> True | _ \<Rightarrow> False)"

text \<open>\<open>IRValue::operator==\<close>: doubles compare as doubles, so NaN differs from itself.\<close>

fun value_eq :: "IRValue \<Rightarrow> IRValue \<Rightarrow> bool" where
  "value_eq (Reg a) (Reg b) = (a = b)"
| "value_eq (Imm a) (Imm b) = (a = b)"
| "value_eq (FImm a) (FImm b) = feq a b"
| "value_eq (Label a) (Label b) = (a = b)"
| "value_eq (Var a) (Var b) = (a = b)"
| "value_eq (Str a) (Str b) = (a = b)"
| "value_eq _ _ = False"

record IRInstruction =
  opcode :: IROpcode
  operands :: "IRValue list"
  type_hint :: TypeHint
  lhs_type_hint :: TypeHint
  rhs_type_hint :: TypeHint
  line :: int
  debug_order :: nat
  super_call :: bool
  trusted_internal_call :: bool

definition mk_instr :: "IROpcode \<Rightarrow> IRValue list \<Rightarrow> IRInstruction" where
  "mk_instr op ops =
     \<lparr>opcode = op, operands = ops, type_hint = TypeHint_NONE, lhs_type_hint = TypeHint_NONE,
      rhs_type_hint = TypeHint_NONE, line = 0, debug_order = 0, super_call = False,
      trusted_internal_call = False\<rparr>"

text \<open>
  \<open>operands[j]\<close>. Past the end the C++ read is undefined; here it is a zero immediate, and
  the theorems that depend on operands assume the verifier's operand check.
\<close>

definition operand :: "IRInstruction \<Rightarrow> nat \<Rightarrow> IRValue" where
  "operand instr j = (if j < length (operands instr) then operands instr ! j else Imm 0)"

definition instr_eq :: "IRInstruction \<Rightarrow> IRInstruction \<Rightarrow> bool" where
  "instr_eq a b =
     (opcode a = opcode b \<and> type_hint a = type_hint b \<and>
      lhs_type_hint a = lhs_type_hint b \<and> rhs_type_hint a = rhs_type_hint b \<and>
      line a = line b \<and> super_call a = super_call b \<and>
      trusted_internal_call a = trusted_internal_call b \<and>
      length (operands a) = length (operands b) \<and>
      list_all2 value_eq (operands a) (operands b))"

section \<open>Functions and programs\<close>

record DebugLocal =
  dl_name :: string
  dl_register_num :: int
  dl_type_hint :: TypeHint
  dl_begin_instruction :: nat
  dl_end_instruction :: nat
  dl_parameter :: bool

record IRFunction =
  func_name :: string
  source_path :: string
  parameters :: "string list"
  instructions :: "IRInstruction list"
  debug_locals :: "DebugLocal list"
  max_registers :: int
  return_type_hint :: TypeHint
  param_sets :: "64 word list"
  return_set :: "64 word"
  array_batch_scopes :: "(int \<times> int64) list"
  codepoint_batch_buffers :: "int64 list"
  is_coroutine :: bool

definition empty_function :: IRFunction where
  "empty_function =
     \<lparr>func_name = [], source_path = [], parameters = [], instructions = [], debug_locals = [],
      max_registers = 0, return_type_hint = TypeHint_NONE, param_sets = [], return_set = 0,
      array_batch_scopes = [], codepoint_batch_buffers = [], is_coroutine = False\<rparr>"

definition RETURN_REGISTER :: int where
  "RETURN_REGISTER = 0"

datatype InitType =
    INIT_NONE | INIT_INT | INIT_FLOAT | INIT_STRING | INIT_BOOL | INIT_NULL_VAL
  | INIT_EMPTY_ARRAY | INIT_EMPTY_DICT | INIT_RUNTIME

text \<open>\<open>init_value\<close>: the C++ variant of an integer, a double, a string and a boolean.\<close>

datatype InitValue = IVInt int64 | IVFloat double | IVString string | IVBool bool

datatype Storage = StorageData | StorageInstance

record IRGlobalVar =
  gv_name :: string
  gv_class_name :: string
  gv_is_const :: bool
  gv_is_property :: bool
  gv_is_static :: bool
  gv_storage :: Storage
  gv_type_hint :: TypeHint
  gv_value_type :: TypeHint
  gv_init_type :: InitType
  gv_init_value :: InitValue
  gv_holds_object :: bool
  gv_setter_function :: string
  gv_getter_function :: string

definition is_member :: "IRGlobalVar \<Rightarrow> bool" where
  "is_member g = (gv_storage g = StorageInstance)"

definition publishes_to_host :: "IRGlobalVar \<Rightarrow> bool" where
  "publishes_to_host g = (gv_is_property g \<or> (is_member g \<and> \<not> gv_is_const g))"

record IRProgram =
  prog_globals :: "IRGlobalVar list"
  prog_functions :: "IRFunction list"
  string_constants :: "string list"
  strings :: IRStringTable
  global_init :: IRFunction
  has_global_init :: bool
  member_init :: IRFunction
  has_member_init :: bool

section \<open>Operand roles\<close>

definition ir_destination_operand_index :: "IROpcode \<Rightarrow> int" where
  "ir_destination_operand_index op =
     (let sig = signature (ir_opcode_info op)
      in case List.find (\<lambda>i. sig ! i = DST \<or> sig ! i = INOUT) [0..<fixed_count sig] of
           Some i \<Rightarrow> int i | None \<Rightarrow> - 1)"

definition ir_destination_register :: "IRInstruction \<Rightarrow> int" where
  "ir_destination_register instr =
     (let index = ir_destination_operand_index (opcode instr)
      in if index < 0 \<or> length (operands instr) \<le> nat index then - 1
         else case operands instr ! nat index of Reg r \<Rightarrow> r | _ \<Rightarrow> - 1)"

definition ir_reads_operand :: "IRInstruction \<Rightarrow> nat \<Rightarrow> bool" where
  "ir_reads_operand instr index =
     (index < length (operands instr) \<and> is_register (operands instr ! index) \<and>
      kind_at (signature (ir_opcode_info (opcode instr))) index \<noteq> DST)"

definition ir_writes_operand :: "IRInstruction \<Rightarrow> nat \<Rightarrow> bool" where
  "ir_writes_operand instr index =
     (index < length (operands instr) \<and> is_register (operands instr ! index) \<and>
      kind_at (signature (ir_opcode_info (opcode instr))) index \<in> {DST, INOUT})"

definition ir_collect_read_registers :: "IRInstruction \<Rightarrow> int list" where
  "ir_collect_read_registers instr =
     (if opcode instr = OP_RETURN \<and> operands instr = [] then [RETURN_REGISTER]
      else map (\<lambda>i. reg_index (operands instr ! i))
             (filter (ir_reads_operand instr) [0..<length (operands instr)]))"

text \<open>An unknown global function makes the table lookup throw.\<close>

definition ir_instruction_is_pure :: "IRInstruction \<Rightarrow> bool res" where
  "ir_instruction_is_pure instr =
     (if \<not> ir_is_pure (opcode instr) then Inr False
      else if opcode instr \<noteq> OP_GLOBAL_CALL \<or> length (operands instr) < 2 \<or>
              \<not> is_immediate (operands instr ! 1) then Inr True
      else bind_res (global_function (global_fn_of (immediate (operands instr ! 1))))
             (\<lambda>info. Inr (\<not> gf_impure info)))"

section \<open>Register bit sets\<close>

text \<open>
  \<open>RegisterSet\<close>: bits packed in 64-bit words. \<open>set\<close>, \<open>reset\<close> and \<open>test\<close> index the word
  vector; an index past it is undefined in C++, and the laws below are for bits within the
  set's size.
\<close>

record RegisterSet =
  rs_words :: "64 word list"
  rs_bits :: nat

definition rs_resize :: "nat \<Rightarrow> RegisterSet" where
  "rs_resize bits = \<lparr>rs_words = replicate ((bits + 63) div 64) 0, rs_bits = bits\<rparr>"

definition rs_set :: "RegisterSet \<Rightarrow> nat \<Rightarrow> RegisterSet" where
  "rs_set s b = s\<lparr>rs_words := (rs_words s)
     [b div 64 := rs_words s ! (b div 64) OR push_bit (b mod 64) 1]\<rparr>"

definition rs_reset :: "RegisterSet \<Rightarrow> nat \<Rightarrow> RegisterSet" where
  "rs_reset s b = s\<lparr>rs_words := (rs_words s)
     [b div 64 := rs_words s ! (b div 64) AND NOT (push_bit (b mod 64) 1)]\<rparr>"

definition rs_test :: "RegisterSet \<Rightarrow> nat \<Rightarrow> bool" where
  "rs_test s b = (drop_bit (b mod 64) (rs_words s ! (b div 64)) AND 1 \<noteq> 0)"

definition rs_clear :: "RegisterSet \<Rightarrow> RegisterSet" where
  "rs_clear s = s\<lparr>rs_words := map (\<lambda>_. 0) (rs_words s)\<rparr>"

definition rs_trim :: "RegisterSet \<Rightarrow> RegisterSet" where
  "rs_trim s =
     (let tail = rs_bits s mod 64
      in if tail \<noteq> 0 \<and> rs_words s \<noteq> []
         then s\<lparr>rs_words := butlast (rs_words s) @ [last (rs_words s) AND (push_bit tail 1 - 1)]\<rparr>
         else s)"

definition rs_set_all :: "RegisterSet \<Rightarrow> RegisterSet" where
  "rs_set_all s = rs_trim (s\<lparr>rs_words := map (\<lambda>_. NOT 0) (rs_words s)\<rparr>)"

definition rs_any :: "RegisterSet \<Rightarrow> bool" where
  "rs_any s = list_ex (\<lambda>w. w \<noteq> 0) (rs_words s)"

text \<open>The loop runs over the left operand's words.\<close>

definition rs_union :: "RegisterSet \<Rightarrow> RegisterSet \<Rightarrow> RegisterSet" where
  "rs_union s t = s\<lparr>rs_words :=
     map (\<lambda>i. rs_words s ! i OR rs_words t ! i) [0..<length (rs_words s)]\<rparr>"

definition rs_equal :: "RegisterSet \<Rightarrow> RegisterSet \<Rightarrow> bool" where
  "rs_equal s t = (rs_words s = rs_words t)"

section \<open>Type hints\<close>

definition is_vector :: "TypeHint \<Rightarrow> bool" where
  "is_vector hint = (hint \<in> {Variant_VECTOR2, Variant_VECTOR3, Variant_VECTOR4, Variant_COLOR,
     Variant_VECTOR2I, Variant_VECTOR3I, Variant_VECTOR4I})"

definition is_int_vector :: "TypeHint \<Rightarrow> bool" where
  "is_int_vector hint = (hint \<in> {Variant_VECTOR2I, Variant_VECTOR3I, Variant_VECTOR4I})"

definition is_float_vector :: "TypeHint \<Rightarrow> bool" where
  "is_float_vector hint =
     (hint \<in> {Variant_VECTOR2, Variant_VECTOR3, Variant_VECTOR4, Variant_COLOR})"

section \<open>The metadata table\<close>

lemma signature_rows [simp, opcode_info]:
  "signature (ir_opcode_info OP_LOAD_IMM) = [DST, IMM]"
  "signature (ir_opcode_info OP_LOAD_FLOAT_IMM) = [DST, FIMM]"
  "signature (ir_opcode_info OP_LOAD_BOOL) = [DST, IMM]"
  "signature (ir_opcode_info OP_LOAD_STRING) = [DST, IMM]"
  "signature (ir_opcode_info OP_LOAD_STRING_AS) = [DST, IMM, IMM]"
  "signature (ir_opcode_info OP_LOAD_GLOBAL) = [DST, IMM]"
  "signature (ir_opcode_info OP_STORE_GLOBAL) = [IMM, SRC]"
  "signature (ir_opcode_info OP_MOVE) = [DST, SRC]"
  "signature (ir_opcode_info OP_CONVERT) = [DST, SRC, IMM]"
  "signature (ir_opcode_info OP_COERCE) = [DST, SRC]"
  "signature (ir_opcode_info OP_TYPE_TEST) = [DST, SRC, IMM]"
  "signature (ir_opcode_info OP_TYPE_TEST_MASK) = [DST, SRC, IMM]"
  "signature (ir_opcode_info OP_TRAIT_TEST) = [DST, SRC, IMM]"
  "signature (ir_opcode_info OP_MAKE_SCOPED) = [DST, SRC, IMM]"
  "signature (ir_opcode_info OP_BATCH_GET) = [DST, IMM, SRC]"
  "signature (ir_opcode_info OP_CODEPOINT_GET) = [DST, IMM, SRC]"
  "signature (ir_opcode_info OP_SCOPE_MARK) = [IMM]"
  "signature (ir_opcode_info OP_SCOPE_RELEASE) = [IMM]"
  "signature (ir_opcode_info OP_BREAKPOINT) = []"
  "signature (ir_opcode_info OP_TYPE_OF) = [DST, SRC]"
  "signature (ir_opcode_info OP_LOAD_NIL) = [DST]"
  "signature (ir_opcode_info OP_ADD) = [DST, SRC, SRC]"
  "signature (ir_opcode_info OP_SUB) = [DST, SRC, SRC]"
  "signature (ir_opcode_info OP_MUL) = [DST, SRC, SRC]"
  "signature (ir_opcode_info OP_DIV) = [DST, SRC, SRC]"
  "signature (ir_opcode_info OP_MOD) = [DST, SRC, SRC]"
  "signature (ir_opcode_info OP_NEG) = [DST, SRC]"
  "signature (ir_opcode_info OP_POW) = [DST, SRC, SRC]"
  "signature (ir_opcode_info OP_CMP_EQ) = [DST, SRC, SRC]"
  "signature (ir_opcode_info OP_CMP_NEQ) = [DST, SRC, SRC]"
  "signature (ir_opcode_info OP_CMP_LT) = [DST, SRC, SRC]"
  "signature (ir_opcode_info OP_CMP_LTE) = [DST, SRC, SRC]"
  "signature (ir_opcode_info OP_CMP_GT) = [DST, SRC, SRC]"
  "signature (ir_opcode_info OP_CMP_GTE) = [DST, SRC, SRC]"
  "signature (ir_opcode_info OP_AND) = [DST, SRC, SRC]"
  "signature (ir_opcode_info OP_OR) = [DST, SRC, SRC]"
  "signature (ir_opcode_info OP_NOT) = [DST, SRC]"
  "signature (ir_opcode_info OP_BIT_AND) = [DST, SRC, SRC]"
  "signature (ir_opcode_info OP_BIT_OR) = [DST, SRC, SRC]"
  "signature (ir_opcode_info OP_BIT_XOR) = [DST, SRC, SRC]"
  "signature (ir_opcode_info OP_BIT_NOT) = [DST, SRC]"
  "signature (ir_opcode_info OP_SHL) = [DST, SRC, SRC]"
  "signature (ir_opcode_info OP_SHR) = [DST, SRC, SRC]"
  "signature (ir_opcode_info OP_IN) = [DST, SRC, SRC]"
  "signature (ir_opcode_info OP_LABEL) = [LBL]"
  "signature (ir_opcode_info OP_JUMP) = [LBL]"
  "signature (ir_opcode_info OP_BRANCH_ZERO) = [SRC, LBL]"
  "signature (ir_opcode_info OP_BRANCH_NOT_ZERO) = [SRC, LBL]"
  "signature (ir_opcode_info OP_BRANCH_EQ) = [SRC, SRC, LBL]"
  "signature (ir_opcode_info OP_BRANCH_NEQ) = [SRC, SRC, LBL]"
  "signature (ir_opcode_info OP_BRANCH_LT) = [SRC, SRC, LBL]"
  "signature (ir_opcode_info OP_BRANCH_LTE) = [SRC, SRC, LBL]"
  "signature (ir_opcode_info OP_BRANCH_GT) = [SRC, SRC, LBL]"
  "signature (ir_opcode_info OP_BRANCH_GTE) = [SRC, SRC, LBL]"
  "signature (ir_opcode_info OP_SWITCH) = [SRC, IMM, CNT, LBL_LIST]"
  "signature (ir_opcode_info OP_CALL) = [STR_K, DST, CNT, SRC_LIST]"
  "signature (ir_opcode_info OP_CALL_HOSTED) = [STR_K, DST, CNT, SRC_LIST]"
  "signature (ir_opcode_info OP_CALL_SYSCALL) = [DST, IMM, ARG_LIST]"
  "signature (ir_opcode_info OP_GET_NODE) = [DST, STR_K]"
  "signature (ir_opcode_info OP_MAKE_CALLABLE) = [DST, STR_K, SRC]"
  "signature (ir_opcode_info OP_LOAD_RESOURCE) = [DST, STR_K]"
  "signature (ir_opcode_info OP_LOAD_RESOURCE_VAR) = [DST, SRC]"
  "signature (ir_opcode_info OP_RETURN) = []"
  "signature (ir_opcode_info OP_VCALL) = [DST, SRC, STR_K, CNT, SRC_LIST]"
  "signature (ir_opcode_info OP_VGET) = [DST, SRC, IMM, IMM]"
  "signature (ir_opcode_info OP_VSET) = [SRC, IMM, IMM, SRC]"
  "signature (ir_opcode_info OP_VARIANT_SET) = [INOUT, SRC, SRC]"
  "signature (ir_opcode_info OP_PRINT) = [DST, IMM, CNT, SRC_LIST]"
  "signature (ir_opcode_info OP_THROW) = [STR_K, STR_K, CNT, SRC_LIST]"
  "signature (ir_opcode_info OP_GLOBAL_CALL) = [DST, IMM, IMM, CNT, SRC_LIST]"
  "signature (ir_opcode_info OP_MAKE_VECTOR2) = [DST, SRC, SRC]"
  "signature (ir_opcode_info OP_MAKE_VECTOR3) = [DST, SRC, SRC, SRC]"
  "signature (ir_opcode_info OP_MAKE_VECTOR4) = [DST, SRC, SRC, SRC, SRC]"
  "signature (ir_opcode_info OP_MAKE_VECTOR2I) = [DST, SRC, SRC]"
  "signature (ir_opcode_info OP_MAKE_VECTOR3I) = [DST, SRC, SRC, SRC]"
  "signature (ir_opcode_info OP_MAKE_VECTOR4I) = [DST, SRC, SRC, SRC, SRC]"
  "signature (ir_opcode_info OP_MAKE_COLOR) = [DST, SRC, SRC, SRC, SRC]"
  "signature (ir_opcode_info OP_MAKE_RECT2) = [DST, SRC, SRC, SRC, SRC]"
  "signature (ir_opcode_info OP_MAKE_RECT2I) = [DST, SRC, SRC, SRC, SRC]"
  "signature (ir_opcode_info OP_MAKE_PLANE) = [DST, SRC, SRC, SRC, SRC]"
  "signature (ir_opcode_info OP_CONSTRUCT) = [DST, IMM, CNT, SRC_LIST]"
  "signature (ir_opcode_info OP_ARRAY_GET) = [DST, SRC, SRC]"
  "signature (ir_opcode_info OP_ARRAY_SET) = [SRC, SRC, SRC]"
  "signature (ir_opcode_info OP_ARRAY_APPEND) = [DST, SRC, SRC]"
  "signature (ir_opcode_info OP_DICT_SET) = [SRC, SRC, SRC]"
  "signature (ir_opcode_info OP_DICT_GET_CONST) = [DST, SRC, IMM]"
  "signature (ir_opcode_info OP_DICT_SET_CONST) = [SRC, IMM, SRC]"
  "signature (ir_opcode_info OP_DICT_SET_CONST_STR) = [SRC, IMM, SRC]"
  "signature (ir_opcode_info OP_DICT_HAS_CONST) = [DST, SRC, IMM]"
  "signature (ir_opcode_info OP_STRUCT_CHECK) = [DST, SRC, CNT, ARG_LIST]"
  "signature (ir_opcode_info OP_MAKE_ARRAY) = [DST, CNT, SRC_LIST]"
  "signature (ir_opcode_info OP_MAKE_DICTIONARY) = [DST, CNT2, SRC_LIST]"
  "signature (ir_opcode_info OP_MAKE_DICTIONARY_KEYED) = [DST, CNT2, ARG_LIST]"
  "signature (ir_opcode_info OP_MAKE_PACKED_BYTE_ARRAY) = [DST, CNT, SRC_LIST]"
  "signature (ir_opcode_info OP_MAKE_PACKED_INT32_ARRAY) = [DST, CNT, SRC_LIST]"
  "signature (ir_opcode_info OP_MAKE_PACKED_INT64_ARRAY) = [DST, CNT, SRC_LIST]"
  "signature (ir_opcode_info OP_MAKE_PACKED_FLOAT32_ARRAY) = [DST, CNT, SRC_LIST]"
  "signature (ir_opcode_info OP_MAKE_PACKED_FLOAT64_ARRAY) = [DST, CNT, SRC_LIST]"
  "signature (ir_opcode_info OP_MAKE_PACKED_STRING_ARRAY) = [DST, CNT, SRC_LIST]"
  "signature (ir_opcode_info OP_MAKE_PACKED_VECTOR2_ARRAY) = [DST, CNT, SRC_LIST]"
  "signature (ir_opcode_info OP_MAKE_PACKED_VECTOR3_ARRAY) = [DST, CNT, SRC_LIST]"
  "signature (ir_opcode_info OP_MAKE_PACKED_COLOR_ARRAY) = [DST, CNT, SRC_LIST]"
  "signature (ir_opcode_info OP_MAKE_PACKED_VECTOR4_ARRAY) = [DST, CNT, SRC_LIST]"
  "signature (ir_opcode_info OP_AWAIT) = [DST, SRC]"
  "signature (ir_opcode_info OP_VGET_INLINE) = [DST, SRC, STR_K, IMM]"
  "signature (ir_opcode_info OP_VSET_INLINE) = [INOUT, STR_K, IMM, SRC, IMM]"
  by (simp_all add: ir_opcode_info_def IR_OPCODE_COUNT_def IR_OPCODE_TABLE_def op_row_def)

lemma effects_rows [simp, opcode_info]:
  "effects (ir_opcode_info OP_LOAD_IMM) = 1024"
  "effects (ir_opcode_info OP_LOAD_FLOAT_IMM) = 1024"
  "effects (ir_opcode_info OP_LOAD_BOOL) = 1024"
  "effects (ir_opcode_info OP_LOAD_STRING) = 1024"
  "effects (ir_opcode_info OP_LOAD_STRING_AS) = 1024"
  "effects (ir_opcode_info OP_LOAD_GLOBAL) = 64"
  "effects (ir_opcode_info OP_STORE_GLOBAL) = 129"
  "effects (ir_opcode_info OP_MOVE) = 1024"
  "effects (ir_opcode_info OP_CONVERT) = 0"
  "effects (ir_opcode_info OP_COERCE) = 0"
  "effects (ir_opcode_info OP_TYPE_TEST) = 0"
  "effects (ir_opcode_info OP_TYPE_TEST_MASK) = 0"
  "effects (ir_opcode_info OP_TRAIT_TEST) = 1"
  "effects (ir_opcode_info OP_MAKE_SCOPED) = 0"
  "effects (ir_opcode_info OP_BATCH_GET) = 0"
  "effects (ir_opcode_info OP_CODEPOINT_GET) = 0"
  "effects (ir_opcode_info OP_SCOPE_MARK) = 1"
  "effects (ir_opcode_info OP_SCOPE_RELEASE) = 1"
  "effects (ir_opcode_info OP_BREAKPOINT) = 1"
  "effects (ir_opcode_info OP_TYPE_OF) = 0"
  "effects (ir_opcode_info OP_LOAD_NIL) = 1024"
  "effects (ir_opcode_info OP_ADD) = 256"
  "effects (ir_opcode_info OP_SUB) = 256"
  "effects (ir_opcode_info OP_MUL) = 256"
  "effects (ir_opcode_info OP_DIV) = 256"
  "effects (ir_opcode_info OP_MOD) = 256"
  "effects (ir_opcode_info OP_NEG) = 256"
  "effects (ir_opcode_info OP_POW) = 256"
  "effects (ir_opcode_info OP_CMP_EQ) = 768"
  "effects (ir_opcode_info OP_CMP_NEQ) = 768"
  "effects (ir_opcode_info OP_CMP_LT) = 768"
  "effects (ir_opcode_info OP_CMP_LTE) = 768"
  "effects (ir_opcode_info OP_CMP_GT) = 768"
  "effects (ir_opcode_info OP_CMP_GTE) = 768"
  "effects (ir_opcode_info OP_AND) = 256"
  "effects (ir_opcode_info OP_OR) = 256"
  "effects (ir_opcode_info OP_NOT) = 0"
  "effects (ir_opcode_info OP_BIT_AND) = 256"
  "effects (ir_opcode_info OP_BIT_OR) = 256"
  "effects (ir_opcode_info OP_BIT_XOR) = 256"
  "effects (ir_opcode_info OP_BIT_NOT) = 256"
  "effects (ir_opcode_info OP_SHL) = 256"
  "effects (ir_opcode_info OP_SHR) = 256"
  "effects (ir_opcode_info OP_IN) = 256"
  "effects (ir_opcode_info OP_LABEL) = 17"
  "effects (ir_opcode_info OP_JUMP) = 9"
  "effects (ir_opcode_info OP_BRANCH_ZERO) = 3"
  "effects (ir_opcode_info OP_BRANCH_NOT_ZERO) = 3"
  "effects (ir_opcode_info OP_BRANCH_EQ) = 7"
  "effects (ir_opcode_info OP_BRANCH_NEQ) = 7"
  "effects (ir_opcode_info OP_BRANCH_LT) = 7"
  "effects (ir_opcode_info OP_BRANCH_LTE) = 7"
  "effects (ir_opcode_info OP_BRANCH_GT) = 7"
  "effects (ir_opcode_info OP_BRANCH_GTE) = 7"
  "effects (ir_opcode_info OP_SWITCH) = 3"
  "effects (ir_opcode_info OP_CALL) = 33"
  "effects (ir_opcode_info OP_CALL_HOSTED) = 33"
  "effects (ir_opcode_info OP_CALL_SYSCALL) = 33"
  "effects (ir_opcode_info OP_GET_NODE) = 33"
  "effects (ir_opcode_info OP_MAKE_CALLABLE) = 33"
  "effects (ir_opcode_info OP_LOAD_RESOURCE) = 33"
  "effects (ir_opcode_info OP_LOAD_RESOURCE_VAR) = 33"
  "effects (ir_opcode_info OP_RETURN) = 9"
  "effects (ir_opcode_info OP_VCALL) = 33"
  "effects (ir_opcode_info OP_VGET) = 1"
  "effects (ir_opcode_info OP_VSET) = 1"
  "effects (ir_opcode_info OP_VARIANT_SET) = 1"
  "effects (ir_opcode_info OP_PRINT) = 33"
  "effects (ir_opcode_info OP_THROW) = 33"
  "effects (ir_opcode_info OP_GLOBAL_CALL) = 0"
  "effects (ir_opcode_info OP_MAKE_VECTOR2) = 0"
  "effects (ir_opcode_info OP_MAKE_VECTOR3) = 0"
  "effects (ir_opcode_info OP_MAKE_VECTOR4) = 0"
  "effects (ir_opcode_info OP_MAKE_VECTOR2I) = 0"
  "effects (ir_opcode_info OP_MAKE_VECTOR3I) = 0"
  "effects (ir_opcode_info OP_MAKE_VECTOR4I) = 0"
  "effects (ir_opcode_info OP_MAKE_COLOR) = 0"
  "effects (ir_opcode_info OP_MAKE_RECT2) = 0"
  "effects (ir_opcode_info OP_MAKE_RECT2I) = 0"
  "effects (ir_opcode_info OP_MAKE_PLANE) = 0"
  "effects (ir_opcode_info OP_CONSTRUCT) = 0"
  "effects (ir_opcode_info OP_ARRAY_GET) = 1"
  "effects (ir_opcode_info OP_ARRAY_SET) = 1"
  "effects (ir_opcode_info OP_ARRAY_APPEND) = 1"
  "effects (ir_opcode_info OP_DICT_SET) = 1"
  "effects (ir_opcode_info OP_DICT_GET_CONST) = 1"
  "effects (ir_opcode_info OP_DICT_SET_CONST) = 1"
  "effects (ir_opcode_info OP_DICT_SET_CONST_STR) = 1"
  "effects (ir_opcode_info OP_DICT_HAS_CONST) = 1"
  "effects (ir_opcode_info OP_STRUCT_CHECK) = 1"
  "effects (ir_opcode_info OP_MAKE_ARRAY) = 0"
  "effects (ir_opcode_info OP_MAKE_DICTIONARY) = 0"
  "effects (ir_opcode_info OP_MAKE_DICTIONARY_KEYED) = 1"
  "effects (ir_opcode_info OP_MAKE_PACKED_BYTE_ARRAY) = 0"
  "effects (ir_opcode_info OP_MAKE_PACKED_INT32_ARRAY) = 0"
  "effects (ir_opcode_info OP_MAKE_PACKED_INT64_ARRAY) = 0"
  "effects (ir_opcode_info OP_MAKE_PACKED_FLOAT32_ARRAY) = 0"
  "effects (ir_opcode_info OP_MAKE_PACKED_FLOAT64_ARRAY) = 0"
  "effects (ir_opcode_info OP_MAKE_PACKED_STRING_ARRAY) = 0"
  "effects (ir_opcode_info OP_MAKE_PACKED_VECTOR2_ARRAY) = 0"
  "effects (ir_opcode_info OP_MAKE_PACKED_VECTOR3_ARRAY) = 0"
  "effects (ir_opcode_info OP_MAKE_PACKED_COLOR_ARRAY) = 0"
  "effects (ir_opcode_info OP_MAKE_PACKED_VECTOR4_ARRAY) = 0"
  "effects (ir_opcode_info OP_AWAIT) = 33"
  "effects (ir_opcode_info OP_VGET_INLINE) = 0"
  "effects (ir_opcode_info OP_VSET_INLINE) = 1"
  by (simp_all add: ir_opcode_info_def IR_OPCODE_COUNT_def IR_OPCODE_TABLE_def op_row_def)

text \<open>The simplifier writes the index 1 as a successor.\<close>

lemma rows_Suc_0 [simp, opcode_info]:
  "signature (ir_opcode_info (IROpcode (Suc 0))) = [DST, FIMM]"
  "effects (ir_opcode_info (IROpcode (Suc 0))) = 1024"
  by (simp_all add: ir_opcode_info_def IR_OPCODE_COUNT_def IR_OPCODE_TABLE_def op_row_def)

lemma table_length: "length IR_OPCODE_TABLE = IR_OPCODE_COUNT"
  by (simp add: IR_OPCODE_TABLE_def IR_OPCODE_COUNT_def)

lemma effect_simps [simp]:
  "ir_has_effect op e = (effects (ir_opcode_info op) AND e \<noteq> 0)"
  by (rule ir_has_effect_def)

lemma reg_index_Reg [simp]: "reg_index (Reg r) = r"
  by (simp add: reg_index_def)

lemma immediate_Imm [simp]: "immediate (Imm i) = i"
  by (simp add: immediate_def)

lemma float_number_FImm [simp]: "float_number (FImm d) = d"
  by (simp add: float_number_def)

lemma string_id_simps [simp]:
  "string_id (Label n) = n" "string_id (Var n) = n" "string_id (Str n) = n"
  by (simp_all add: string_id_def)

lemma is_register_iff: "is_register v \<longleftrightarrow> (\<exists>r. v = Reg r)"
  by (cases v) (auto simp: is_register_def)

lemma is_label_iff: "is_label v \<longleftrightarrow> (\<exists>n. v = Label n)"
  by (cases v) (auto simp: is_label_def)

lemma is_immediate_iff: "is_immediate v \<longleftrightarrow> (\<exists>n. v = Imm n)"
  by (cases v) (auto simp: is_immediate_def)

lemma mk_instr_simps [simp]:
  "opcode (mk_instr op ops) = op" "operands (mk_instr op ops) = ops"
  "type_hint (mk_instr op ops) = TypeHint_NONE" "line (mk_instr op ops) = 0"
  "lhs_type_hint (mk_instr op ops) = TypeHint_NONE"
  "rhs_type_hint (mk_instr op ops) = TypeHint_NONE"
  by (simp_all add: mk_instr_def)

lemma operand_nth [simp]: "j < length (operands i) \<Longrightarrow> operand i j = operands i ! j"
  by (simp add: operand_def)

end
