(* ===== verification/Register_Set.thy ===== *)
theory Register_Set
  imports IR
begin

text \<open>
  \<open>RegisterSet\<close> (\<^verbatim>\<open>ir.h\<close>) refines finite sets of register numbers. \<open>rs_abs\<close> is the set a
  packed vector stands for and \<open>rs_wf\<close> is the class invariant: the vector has exactly the
  words its size needs and no bit at or above the size is set. The invariant is what makes
  \<open>operator==\<close> and \<open>any\<close>, which look at whole words, speak about sets.

  The locale \<open>bit_set\<close> states the contract the liveness analysis relies on, with the laws of
  its folds proved once; it is interpreted on the word-level operations.
\<close>

section \<open>The abstraction\<close>

definition rs_wf :: "RegisterSet \<Rightarrow> bool" where
  "rs_wf s \<longleftrightarrow> length (rs_words s) = (rs_bits s + 63) div 64 \<and>
     (\<forall>b. rs_bits s \<le> b \<longrightarrow> b < 64 * length (rs_words s) \<longrightarrow> \<not> bit (rs_words s ! (b div 64)) (b mod 64))"

definition rs_abs :: "RegisterSet \<Rightarrow> nat set" where
  "rs_abs s = {b. b < rs_bits s \<and> rs_test s b}"

section \<open>Every operation on sets\<close>

lemma rs_test_bit: "rs_test s b = bit (rs_words s ! (b div 64)) (b mod 64)"
  by (simp add: rs_test_def and_one_eq even_drop_bit_iff_not_bit mod2_eq_if) 

lemma rs_wf_div: "rs_wf s \<Longrightarrow> b < rs_bits s \<Longrightarrow> b div 64 < length (rs_words s)"
  by (auto simp: rs_wf_def)

lemma div_mod_64_eq: "b div 64 = c div 64 \<Longrightarrow> b mod 64 = c mod 64 \<Longrightarrow> b = (c::nat)"
  by (metis div_mult_mod_eq)

lemma bit_one_shift: "bit (2 ^ (b mod 64) :: 64 word) m \<longleftrightarrow> m = b mod 64"
  by (auto simp: bit_exp_iff)

lemma rs_test_set:
  assumes "rs_wf s" "b < rs_bits s"
  shows "rs_test (rs_set s b) c \<longleftrightarrow> c = b \<or> rs_test s c"
proof (cases "b div 64 = c div 64")
  case True
  then have "c = b \<longleftrightarrow> c mod 64 = b mod 64" using div_mod_64_eq[of b c] by metis
  with True show ?thesis using rs_wf_div[OF assms]
    by (simp add: rs_test_bit rs_set_def bit_or_iff bit_one_shift disj_commute)
next
  case False
  then have "c \<noteq> b" by blast
  with False show ?thesis using rs_wf_div[OF assms] by (simp add: rs_test_bit rs_set_def)
qed

lemma rs_test_reset:
  assumes "rs_wf s" "b < rs_bits s"
  shows "rs_test (rs_reset s b) c \<longleftrightarrow> c \<noteq> b \<and> rs_test s c"
proof (cases "b div 64 = c div 64")
  case True
  then have "c = b \<longleftrightarrow> c mod 64 = b mod 64" using div_mod_64_eq[of b c] by metis
  with True show ?thesis using rs_wf_div[OF assms]
    by (simp add: rs_test_bit rs_reset_def bit_and_iff bit_not_iff bit_one_shift conj_commute)
next
  case False
  then have "c \<noteq> b" by blast
  with False show ?thesis using rs_wf_div[OF assms] by (simp add: rs_test_bit rs_reset_def)
qed

lemma rs_bits_simps [simp]:
  "rs_bits (rs_set s b) = rs_bits s" "rs_bits (rs_reset s b) = rs_bits s"
  "rs_bits (rs_union s t) = rs_bits s" "rs_bits (rs_resize n) = n" "rs_bits (rs_clear s) = rs_bits s"
  "rs_bits (rs_set_all s) = rs_bits s"
  by (simp_all add: rs_set_def rs_reset_def rs_union_def rs_resize_def rs_clear_def rs_set_all_def rs_trim_def Let_def)

lemma rs_len_simps [simp]:
  "length (rs_words (rs_set s b)) = length (rs_words s)"
  "length (rs_words (rs_reset s b)) = length (rs_words s)"
  "length (rs_words (rs_union s t)) = length (rs_words s)"
  "length (rs_words (rs_resize n)) = (n + 63) div 64"
  "length (rs_words (rs_clear s)) = length (rs_words s)"
  "length (rs_words (rs_set_all s)) = length (rs_words s)"
  by (auto simp add: rs_set_def rs_reset_def rs_union_def rs_resize_def rs_clear_def rs_set_all_def rs_trim_def Let_def)

lemma rs_wf_alt: "rs_wf s \<longleftrightarrow> length (rs_words s) = (rs_bits s + 63) div 64 \<and>
     (\<forall>b. rs_bits s \<le> b \<longrightarrow> b < 64 * length (rs_words s) \<longrightarrow> \<not> rs_test s b)"
  by (simp add: rs_wf_def rs_test_bit)

lemma rs_wf_set: "rs_wf s \<Longrightarrow> b < rs_bits s \<Longrightarrow> rs_wf (rs_set s b)"
  using rs_test_set[of s b] by (auto simp: rs_wf_alt)

lemma rs_wf_reset: "rs_wf s \<Longrightarrow> b < rs_bits s \<Longrightarrow> rs_wf (rs_reset s b)"
  using rs_test_reset[of s b] by (auto simp: rs_wf_alt)

lemma rs_wf_resize: "rs_wf (rs_resize n)"
  by (auto simp: rs_wf_def rs_resize_def)

lemma rs_wf_clear: "rs_wf s \<Longrightarrow> rs_wf (rs_clear s)"
  by (auto simp: rs_wf_def rs_clear_def)

lemma rs_test_union:
  "c div 64 < length (rs_words s) \<Longrightarrow> rs_test (rs_union s t) c \<longleftrightarrow> rs_test s c \<or> rs_test t c"
  by (auto simp: rs_test_bit rs_union_def bit_or_iff)

lemma rs_wf_union: "rs_wf s \<Longrightarrow> rs_wf t \<Longrightarrow> rs_bits s = rs_bits t \<Longrightarrow> rs_wf (rs_union s t)"
  by (auto simp: rs_wf_alt rs_test_union)

lemma rs_abs_resize: "rs_abs (rs_resize n) = {}"
  by (auto simp: rs_abs_def rs_test_bit rs_resize_def)

lemma rs_abs_set: "rs_wf s \<Longrightarrow> b < rs_bits s \<Longrightarrow> rs_abs (rs_set s b) = insert b (rs_abs s)"
  using rs_test_set[of s b] by (auto simp: rs_abs_def)

lemma rs_abs_reset: "rs_wf s \<Longrightarrow> b < rs_bits s \<Longrightarrow> rs_abs (rs_reset s b) = rs_abs s - {b}"
  using rs_test_reset[of s b] by (auto simp: rs_abs_def)

lemma rs_abs_union:
  "rs_wf s \<Longrightarrow> rs_wf t \<Longrightarrow> rs_bits s = rs_bits t \<Longrightarrow> rs_abs (rs_union s t) = rs_abs s \<union> rs_abs t"
  using rs_wf_div[of s] by (auto simp: rs_abs_def rs_test_union)

lemma rs_abs_clear: "rs_wf s \<Longrightarrow> rs_abs (rs_clear s) = {}"
  using rs_wf_div[of s] by (auto simp: rs_abs_def rs_test_bit rs_clear_def)

lemma rs_words_eqI:
  assumes "rs_wf s" "rs_wf t" "rs_bits s = rs_bits t" "rs_abs s = rs_abs t"
  shows "rs_words s = rs_words t"
proof (rule nth_equalityI)
  show len: "length (rs_words s) = length (rs_words t)" using assms by (simp add: rs_wf_def)
  fix i assume i: "i < length (rs_words s)"
  show "rs_words s ! i = rs_words t ! i"
  proof (rule bit_word_eqI)
    fix n assume n: "n < LENGTH(64)"
    let ?b = "64 * i + n"
    have b: "?b div 64 = i" "?b mod 64 = n" "?b < 64 * length (rs_words s)" using n i by auto
    have "rs_test s ?b = rs_test t ?b"
    proof (cases "?b < rs_bits s")
      case True
      then have "rs_test s ?b \<longleftrightarrow> ?b \<in> rs_abs s" "rs_test t ?b \<longleftrightarrow> ?b \<in> rs_abs t"
        using assms(3) by (simp_all add: rs_abs_def)
      then show ?thesis using assms(4) by simp
    next
      case False
      then show ?thesis using assms(1-3) b(3) len unfolding rs_wf_alt by (metis not_less)
    qed
    then show "bit (rs_words s ! i) n = bit (rs_words t ! i) n" by (simp only: rs_test_bit b(1,2))
  qed
qed

lemma rs_equal_iff:
  "rs_wf s \<Longrightarrow> rs_wf t \<Longrightarrow> rs_bits s = rs_bits t \<Longrightarrow> rs_equal s t \<longleftrightarrow> rs_abs s = rs_abs t"
  using rs_words_eqI[of s t] by (auto simp: rs_equal_def rs_abs_def rs_test_bit)

lemma rs_any_iff:
  assumes "rs_wf s" shows "rs_any s \<longleftrightarrow> rs_abs s \<noteq> {}"
proof
  assume "rs_any s"
  then obtain i where i: "i < length (rs_words s)" "rs_words s ! i \<noteq> 0"
    by (auto simp: rs_any_def list_ex_iff in_set_conv_nth)
  then obtain n where n: "bit (rs_words s ! i) n" by (auto simp: bit_eq_iff)
  have n64: "n < 64" using n bit_imp_le_length[of "rs_words s ! i" n] by simp
  let ?b = "64 * i + n"
  have "rs_test s ?b" using n n64 by (simp add: rs_test_bit)
  moreover have "?b < 64 * length (rs_words s)" using n64 i by linarith
  ultimately have "?b \<in> rs_abs s" using assms unfolding rs_abs_def rs_wf_alt
    by (metis (mono_tags, lifting) mem_Collect_eq not_less)
  then show "rs_abs s \<noteq> {}" by blast
next
  assume "rs_abs s \<noteq> {}"
  then obtain b where "b < rs_bits s" "bit (rs_words s ! (b div 64)) (b mod 64)"
    by (auto simp: rs_abs_def rs_test_bit)
  then show "rs_any s" using rs_wf_div[OF assms, of b]
    by (auto simp: rs_any_def list_ex_iff intro!: bexI[of _ "rs_words s ! (b div 64)"])
qed

lemma bit_mask_64: "bit (2 ^ n - 1 :: 64 word) m \<longleftrightarrow> m < n \<and> m < 64"
  by (auto simp: bit_mask_iff min_def simp flip: mask_eq_exp_minus_1)

lemma rs_test_set_all:
  assumes "length (rs_words s) = (rs_bits s + 63) div 64" "b < 64 * length (rs_words s)"
  shows "rs_test (rs_set_all s) b \<longleftrightarrow> b < rs_bits s"
proof -
  define n q r where "n = length (rs_words s)" and "q = rs_bits s div 64" and "r = rs_bits s mod 64"
  have qr: "rs_bits s = 64 * q + r" "r < 64" by (simp_all add: q_def r_def)
  define i j where "i = b div 64" and "j = b mod 64"
  have ij: "b = 64 * i + j" "j < 64" by (simp_all add: i_def j_def)
  have i: "i < n" using assms(2) ij by (simp add: n_def)
  then have ne: "rs_words s \<noteq> []" by (auto simp: n_def)
  show ?thesis
  proof (cases "r = 0")
    case True
    then have "n = q" using assms(1) qr by (simp add: n_def)
    moreover have "rs_words (rs_set_all s) = map (\<lambda>_. NOT 0) (rs_words s)"
      using True by (simp add: rs_set_all_def rs_trim_def r_def)
    ultimately show ?thesis using i ij qr True
      by (simp add: rs_test_bit n_def flip: i_def j_def)
  next
    case False
    then have n: "n = q + 1" using assms(1) qr by (simp add: n_def)
    have ws: "rs_words (rs_set_all s) = map (\<lambda>_. NOT 0) (butlast (rs_words s)) @
        [push_bit r 1 - 1]"
      using ne False by (simp add: rs_set_all_def rs_trim_def Let_def map_butlast last_map r_def)
    consider "i < q" | "i = q" using i n by linarith
    then show ?thesis
      using ij qr n
      by cases (simp_all add: rs_test_bit ws nth_append bit_mask_64 bit_not_iff n_def flip: i_def j_def)
  qed
qed

lemma rs_wf_set_all: "rs_wf s \<Longrightarrow> rs_wf (rs_set_all s)"
  using rs_test_set_all[of s] by (auto simp: rs_wf_alt)

lemma rs_abs_set_all: "rs_wf s \<Longrightarrow> rs_abs (rs_set_all s) = {..<rs_bits s}"
  using rs_test_set_all[of s] by (auto simp: rs_abs_def rs_wf_alt)

section \<open>The contract of a register set\<close>

locale bit_set =
  fixes inv :: "'s \<Rightarrow> bool"
    and elems :: "'s \<Rightarrow> nat set"
    and width :: "'s \<Rightarrow> nat"
    and ins :: "'s \<Rightarrow> nat \<Rightarrow> 's"
    and join :: "'s \<Rightarrow> 's \<Rightarrow> 's"
  assumes ins_inv: "inv s \<Longrightarrow> b < width s \<Longrightarrow> inv (ins s b)"
    and ins_width: "width (ins s b) = width s"
    and ins_elems: "inv s \<Longrightarrow> b < width s \<Longrightarrow> elems (ins s b) = insert b (elems s)"
    and join_inv: "inv s \<Longrightarrow> inv t \<Longrightarrow> width s = width t \<Longrightarrow> inv (join s t)"
    and join_width: "width (join s t) = width s"
    and join_elems:
      "inv s \<Longrightarrow> inv t \<Longrightarrow> width s = width t \<Longrightarrow> elems (join s t) = elems s \<union> elems t"
    and elems_bound: "inv s \<Longrightarrow> elems s \<subseteq> {..<width s}"
begin

lemma fold_ins:
  "inv s \<Longrightarrow> \<forall>b \<in> set bs. b < width s \<Longrightarrow>
     inv (foldl ins s bs) \<and> width (foldl ins s bs) = width s \<and>
     elems (foldl ins s bs) = elems s \<union> set bs"
proof (induction bs arbitrary: s)
  case (Cons b bs)
  then show ?case
    using Cons.IH[of "ins s b"] by (auto simp: ins_inv ins_width ins_elems)
qed simp

lemma fold_join:
  "inv s \<Longrightarrow> \<forall>t \<in> set ts. inv t \<and> width t = width s \<Longrightarrow>
     inv (foldl join s ts) \<and> width (foldl join s ts) = width s \<and>
     elems (foldl join s ts) = elems s \<union> (\<Union>t \<in> set ts. elems t)"
proof (induction ts arbitrary: s)
  case (Cons t ts)
  then show ?case
    using Cons.IH[of "join s t"] by (auto simp: join_inv join_width join_elems)
qed simp

lemma elems_finite: "inv s \<Longrightarrow> finite (elems s)"
  using elems_bound finite_subset by blast

lemma elems_card: "inv s \<Longrightarrow> card (elems s) \<le> width s"
  using card_mono[OF _ elems_bound] by force

end

interpretation rset: bit_set rs_wf rs_abs rs_bits rs_set rs_union
  by unfold_locales
    (auto simp: rs_wf_set rs_abs_set rs_wf_union rs_abs_union, auto simp: rs_abs_def)

end
