(* ===== verification/String_Table.thy ===== *)
theory String_Table
  imports IR
begin

text \<open>
  \<open>IRStringTable\<close> (\<^verbatim>\<open>ir.h\<close>): the vector of texts and the map from a text to its number hold
  the same pairs, and \<open>intern\<close> keeps it so while numbers fit 32 bits. A number once given keeps
  its text.
\<close>

definition table_ok :: "IRStringTable \<Rightarrow> bool" where
  "table_ok t \<longleftrightarrow> length (m_strings t) \<le> 2 ^ 32 \<and>
     (\<forall>s i. m_ids t s = Some i \<longleftrightarrow> i < length (m_strings t) \<and> m_strings t ! i = s)"

definition empty_table :: IRStringTable where
  "empty_table = \<lparr>m_strings = [], m_ids = Map.empty\<rparr>"

lemma empty_table_ok: "table_ok empty_table"
  by (simp add: table_ok_def empty_table_def)

lemma intern_known: "m_ids t s = Some i \<Longrightarrow> intern t s = (i, t)"
  by (simp add: intern_def)

lemma intern_new:
  "m_ids t s = None \<Longrightarrow> length (m_strings t) < 2 ^ 32 \<Longrightarrow>
   intern t s = (length (m_strings t),
     \<lparr>m_strings = m_strings t @ [s], m_ids = (m_ids t)(s \<mapsto> length (m_strings t))\<rparr>)"
  by (simp add: intern_def Let_def)

lemma fresh_text: "table_ok t \<Longrightarrow> m_ids t s = None \<Longrightarrow> i < length (m_strings t) \<Longrightarrow> m_strings t ! i \<noteq> s"
  unfolding table_ok_def by (metis option.distinct(1))

lemma intern_facts:
  assumes ok: "table_ok t" and room: "length (m_strings t) < 2 ^ 32"
  shows "table_ok (snd (intern t s))" "string_at (snd (intern t s)) (fst (intern t s)) = s"
    "\<And>i. i < length (m_strings t) \<Longrightarrow> string_at (snd (intern t s)) i = string_at t i"
    "m_ids (snd (intern t s)) s = Some (fst (intern t s))" "length (m_strings t) \<le> length (m_strings (snd (intern t s)))"
proof -
  have *: "table_ok (snd (intern t s)) \<and> string_at (snd (intern t s)) (fst (intern t s)) = s \<and>
      (\<forall>i < length (m_strings t). string_at (snd (intern t s)) i = string_at t i) \<and>
      m_ids (snd (intern t s)) s = Some (fst (intern t s))"
  proof (cases "m_ids t s")
    case (Some i)
    then show ?thesis using ok by (simp add: intern_known string_at_def table_ok_def)
  next
    case None
    have "table_ok \<lparr>m_strings = m_strings t @ [s], m_ids = (m_ids t)(s \<mapsto> length (m_strings t))\<rparr>"
      using ok room fresh_text[OF ok None] None by (auto simp: table_ok_def nth_append)
    then show ?thesis by (simp add: intern_new[OF None room] string_at_def nth_append)
  qed
  then show "table_ok (snd (intern t s))" "string_at (snd (intern t s)) (fst (intern t s)) = s"
    "\<And>i. i < length (m_strings t) \<Longrightarrow> string_at (snd (intern t s)) i = string_at t i"
    "m_ids (snd (intern t s)) s = Some (fst (intern t s))" by auto
  show "length (m_strings t) \<le> length (m_strings (snd (intern t s)))"
    by (auto simp: intern_def Let_def split: option.split)
qed

lemma intern_injective:
  assumes "table_ok t" "m_ids t s = Some i" "m_ids t s' = Some i"
  shows "s = s'"
  using assms by (auto simp: table_ok_def)

text \<open>Interning the texts of a list in order, as the code generator does.\<close>

definition intern_all :: "string list \<Rightarrow> IRStringTable \<Rightarrow> IRStringTable" where
  "intern_all ss t = fold (\<lambda>s t. snd (intern t s)) ss t"

lemma intern_length: "length (m_strings (snd (intern t s))) \<le> Suc (length (m_strings t))"
  by (auto simp: intern_def Let_def split: option.split)

lemma table_ok_at: "table_ok t \<Longrightarrow> m_ids t s = Some i \<longleftrightarrow> i < length (m_strings t) \<and> string_at t i = s"
  by (auto simp: table_ok_def string_at_def)

lemma intern_all_facts:
  assumes "table_ok t" "length (m_strings t) + length ss \<le> 2 ^ 32"
  shows "table_ok (intern_all ss t) \<and> length (m_strings t) \<le> length (m_strings (intern_all ss t)) \<and>
    (\<forall>i < length (m_strings t). string_at (intern_all ss t) i = string_at t i) \<and>
    (\<forall>s \<in> set ss. \<exists>i. m_ids (intern_all ss t) s = Some i)"
  using assms
proof (induction ss arbitrary: t)
  case (Cons s ss)
  let ?t = "snd (intern t s)"
  have room: "length (m_strings t) < 2 ^ 32" using Cons.prems(2) by simp
  note f = intern_facts[OF Cons.prems(1) room, where s = s]
  have i: "fst (intern t s) < length (m_strings ?t)" using f(4) table_ok_at[OF f(1)] by blast
  have step: "intern_all (s # ss) t = intern_all ss ?t" by (simp add: intern_all_def)
  have ih: "table_ok (intern_all ss ?t)" "length (m_strings ?t) \<le> length (m_strings (intern_all ss ?t))"
    "\<forall>i < length (m_strings ?t). string_at (intern_all ss ?t) i = string_at ?t i"
    "\<forall>s \<in> set ss. \<exists>i. m_ids (intern_all ss ?t) s = Some i"
    using Cons.IH[OF f(1)] Cons.prems(2) intern_length[of t s] by auto
  have "m_ids (intern_all ss ?t) s = Some (fst (intern t s))"
    using ih(2,3) i f(2) by (simp add: table_ok_at[OF ih(1)])
  then show ?case using ih f(3,5) unfolding step by auto
qed (simp add: intern_all_def)

end
