(* ===== verification/Verifier.thy ===== *)
theory Verifier
  imports IR "HOL-Library.While_Combinator"
begin

text \<open>
  The well-formedness checker of the intermediate representation
  (\<^verbatim>\<open>ir_verifier.cpp\<close>): arity and operand kinds from the opcode table, register range, label
  uniqueness and resolution, coroutine marking, and two forward must-analyses over basic
  blocks, one for register definedness and types and one for scope marks. Both analyses
  are worklist loops; \<open>while_option\<close> gives them a meaning before they are known to end.
\<close>

section \<open>Register states\<close>

definition TYPE_UNKNOWN :: TypeHint where
  "TYPE_UNKNOWN = - 2"

record RegisterState =
  reg_defined :: "bool list"
  reg_type :: "TypeHint list"

definition register_state :: "nat \<Rightarrow> RegisterState" where
  "register_state count =
     \<lparr>reg_defined = replicate count False, reg_type = replicate count TYPE_UNKNOWN\<rparr>"

text \<open>The updated state and whether it changed.\<close>

definition merge_from :: "RegisterState \<Rightarrow> RegisterState \<Rightarrow> RegisterState \<times> bool" where
  "merge_from s other =
     (let ix = [0..<length (reg_defined s)];
          drop_def = (\<lambda>i. reg_defined s ! i \<and> \<not> reg_defined other ! i);
          drop_type = (\<lambda>i. reg_type s ! i \<noteq> TYPE_UNKNOWN \<and> reg_type s ! i \<noteq> reg_type other ! i)
      in (\<lparr>reg_defined = map (\<lambda>i. if drop_def i then False else reg_defined s ! i) ix,
           reg_type = map (\<lambda>i. if drop_type i then TYPE_UNKNOWN else reg_type s ! i) ix\<rparr>,
          list_ex (\<lambda>i. drop_def i \<or> drop_type i) ix))"

record BasicBlock =
  bb_begin :: nat
  bb_end :: nat
  bb_successors :: "nat list"
  bb_reachable :: bool
  bb_entry :: RegisterState
  bb_entry_initialized :: bool

section \<open>Names\<close>

fun nat_to_string :: "nat \<Rightarrow> string" where
  "nat_to_string n =
     (if n < 10 then [char_of (48 + n)] else nat_to_string (n div 10) @ [char_of (48 + n mod 10)])"

text \<open>Without a string table a name renders as its identifier.\<close>

definition name_of :: "IRStringTable option \<Rightarrow> IRValue \<Rightarrow> string" where
  "name_of t v = (case t of
     Some table \<Rightarrow> string_at table (string_id v)
   | None \<Rightarrow> CHR ''#'' # nat_to_string (string_id v))"

section \<open>Per-instruction checks\<close>

abbreviation (input) ver_error :: "reason \<Rightarrow> 'a res" where
  "ver_error r \<equiv> Inl (CompilerException IR_VERIFIER_ERROR r)"

abbreviation (input) ver_check :: "bool \<Rightarrow> reason \<Rightarrow> unit res" where
  "ver_check b r \<equiv> guard_res b IR_VERIFIER_ERROR r"

abbreviation (input) then_check :: "unit res \<Rightarrow> unit res \<Rightarrow> unit res" where
  "then_check a b \<equiv> bind_res a (\<lambda>_. b)"

definition register_count :: "IRFunction \<Rightarrow> nat" where
  "register_count f = nat (max (max_registers f) 0)"

definition check_coroutine :: "IRFunction \<Rightarrow> unit res" where
  "check_coroutine f =
     (if is_coroutine f then Inr ()
      else each_res (\<lambda>i. ver_check (opcode i \<noteq> OP_AWAIT) AwaitOutsideCoroutine) (instructions f))"

text \<open>\<open>static_cast<int>\<close> of a vector's size.\<close>

definition int_of_size :: "nat \<Rightarrow> int" where
  "int_of_size n = sint (of_nat n :: 32 word)"

definition check_register_range :: "IRFunction \<Rightarrow> unit res" where
  "check_register_range f =
     then_check (ver_check (0 \<le> max_registers f) NegativeMaxRegisters)
     (then_check (ver_check (int_of_size (length (parameters f)) \<le> max_registers f)
        ParametersNotCovered)
     (each_res (\<lambda>instr. each_res (\<lambda>v. case v of
          Reg reg \<Rightarrow> then_check (ver_check (0 \<le> reg) NegativeRegister)
                      (ver_check (reg < max_registers f) RegisterOutsideMax)
        | _ \<Rightarrow> Inr ()) (operands instr)) (instructions f)))"

definition operand_matches :: "IRValue \<Rightarrow> IROperandKind \<Rightarrow> bool" where
  "operand_matches v kind =
     (if kind \<in> {DST, INOUT, SRC, SRC_LIST} then is_register v
      else if kind \<in> {IMM, CNT, CNT2} then is_immediate v
      else if kind = FIMM then (case v of FImm _ \<Rightarrow> True | _ \<Rightarrow> False)
      else if kind = STR_K then (case v of Str _ \<Rightarrow> True | _ \<Rightarrow> False)
      else if kind \<in> {LBL, LBL_LIST} then is_label v
      else if kind = ARG_LIST then is_register v \<or> is_immediate v
      else False)"

text \<open>The count operand of a list must be the length of the list (pairs count twice).\<close>

fun check_counts :: "IRInstruction \<Rightarrow> nat \<Rightarrow> nat \<Rightarrow> IROperandKind list \<Rightarrow> unit res" where
  "check_counts instr fixed j [] = Inr ()"
| "check_counts instr fixed j (kind # kinds) =
     (if kind \<noteq> CNT \<and> kind \<noteq> CNT2 then check_counts instr fixed (Suc j) kinds
      else if length (operands instr) \<le> j then Inr ()
      else
        let declared = immediate (operands instr ! j);
            multiplier = (if kind = CNT2 then 2 else 1)
        in then_check (ver_check (0 \<le> sint declared) NegativeArgumentCount)
           (then_check (ver_check (length (operands instr) =
                unat (of_nat fixed + declared * multiplier)) ArgumentCountMismatch)
             (check_counts instr fixed (Suc j) kinds)))"

definition check_argument_count :: "IRInstruction \<Rightarrow> unit res" where
  "check_argument_count instr =
     (let sig = signature (ir_opcode_info (opcode instr))
      in check_counts instr (fixed_count sig) 0 (take (fixed_count sig) sig))"

definition check_call_destination :: "IRInstruction \<Rightarrow> unit res" where
  "check_call_destination instr =
     (if \<not> ir_has_effect (opcode instr) IR_CALL then Inr ()
      else let dst = ir_destination_register instr
           in if dst < 0 then Inr ()
              else ver_check (dst \<notin> set (ir_collect_read_registers instr)) DestinationIsArgument)"

definition check_instruction_operands :: "IRInstruction \<Rightarrow> unit res" where
  "check_instruction_operands instr =
     (let sig = signature (ir_opcode_info (opcode instr)); n = length (operands instr) in
      then_check (ver_check (fixed_count sig \<le> n) TooFewOperands)
      (then_check (ver_check (is_variadic sig \<or> n \<le> length sig) TooManyOperands)
      (then_check (each_res (\<lambda>j. ver_check (operand_matches (operands instr ! j) (kind_at sig j))
           OperandKindMismatch) [0..<n])
      (then_check (check_argument_count instr) (check_call_destination instr)))))"

definition check_operands :: "IRFunction \<Rightarrow> unit res" where
  "check_operands f = each_res check_instruction_operands (instructions f)"

section \<open>Labels\<close>

type_synonym label_index = "string \<Rightarrow> nat option"

fun index_labels ::
  "IRStringTable option \<Rightarrow> nat \<Rightarrow> IRInstruction list \<Rightarrow> label_index \<Rightarrow> label_index res" where
  "index_labels t i [] m = Inr m"
| "index_labels t i (instr # rest) m =
     (if \<not> ir_has_effect (opcode instr) IR_LABEL then index_labels t (Suc i) rest m
      else case operands instr of
        [] \<Rightarrow> Inl (StdException OutOfRange)
      | v # _ \<Rightarrow>
          if m (name_of t v) \<noteq> None then ver_error DuplicateLabel
          else index_labels t (Suc i) rest (m(name_of t v \<mapsto> i)))"

definition check_targets :: "IRStringTable option \<Rightarrow> label_index \<Rightarrow> IRFunction \<Rightarrow> unit res" where
  "check_targets t m f = each_res (\<lambda>instr.
     if ir_has_effect (opcode instr) IR_LABEL then Inr ()
     else each_res (\<lambda>v. if is_label v then ver_check (m (name_of t v) \<noteq> None) BranchTargetMissing
                        else Inr ()) (operands instr)) (instructions f)"

definition check_labels :: "IRStringTable option \<Rightarrow> IRFunction \<Rightarrow> label_index res" where
  "check_labels t f =
     bind_res (index_labels t 0 (instructions f) Map.empty) (\<lambda>m.
       bind_res (check_targets t m f) (\<lambda>_. Inr m))"

section \<open>Basic blocks\<close>

definition is_leader :: "IRInstruction list \<Rightarrow> nat \<Rightarrow> bool" where
  "is_leader is i =
     (i = 0 \<or> ir_has_effect (opcode (is ! i)) IR_LABEL \<or>
      ir_has_effect (opcode (is ! (i - 1))) IR_BRANCH \<or>
      ir_has_effect (opcode (is ! (i - 1))) IR_TERMINATOR)"

text \<open>
  The blocks' bounds in order: each leader opens a block that ends where the next opens.
  \<open>block_of_instruction\<close> counts the leaders up to an instruction.
\<close>

definition leaders :: "IRInstruction list \<Rightarrow> nat list" where
  "leaders is = filter (is_leader is) [0..<length is]"

definition block_of_instruction :: "IRInstruction list \<Rightarrow> nat \<Rightarrow> nat" where
  "block_of_instruction is i = length (filter (is_leader is) [0..<Suc i]) - 1"

definition block_bounds :: "IRInstruction list \<Rightarrow> (nat \<times> nat) list" where
  "block_bounds is = zip (leaders is) (tl (leaders is) @ [length is])"

definition block_successors ::
  "IRStringTable option \<Rightarrow> label_index \<Rightarrow> IRInstruction list \<Rightarrow> nat \<Rightarrow> nat \<times> nat \<Rightarrow> nat list" where
  "block_successors t m is b bounds =
     (let last = is ! (snd bounds - 1);
          targets = (if ir_has_effect (opcode last) IR_LABEL then []
            else List.map_filter (\<lambda>v. if is_label v then
                   map_option (block_of_instruction is) (m (name_of t v)) else None)
                 (operands last))
      in targets @
         (if \<not> ir_has_effect (opcode last) IR_TERMINATOR \<and> b + 1 < length (leaders is)
          then [b + 1] else []))"

definition build_blocks ::
  "IRStringTable option \<Rightarrow> label_index \<Rightarrow> IRFunction \<Rightarrow> BasicBlock list" where
  "build_blocks t m f =
     map (\<lambda>(b, bounds).
       \<lparr>bb_begin = fst bounds, bb_end = snd bounds,
        bb_successors = block_successors t m (instructions f) b bounds, bb_reachable = False,
        bb_entry = register_state (register_count f), bb_entry_initialized = False\<rparr>)
     (enumerate 0 (block_bounds (instructions f)))"

section \<open>Transfer\<close>

definition MAKE_TYPES :: "(IROpcode \<times> TypeHint) list" where
  "MAKE_TYPES =
     [(OP_LOAD_IMM, Variant_INT), (OP_LOAD_FLOAT_IMM, Variant_FLOAT), (OP_LOAD_BOOL, Variant_BOOL),
      (OP_LOAD_STRING, Variant_STRING),
      (OP_MAKE_VECTOR2, Variant_VECTOR2), (OP_MAKE_VECTOR3, Variant_VECTOR3),
      (OP_MAKE_VECTOR4, Variant_VECTOR4), (OP_MAKE_VECTOR2I, Variant_VECTOR2I),
      (OP_MAKE_VECTOR3I, Variant_VECTOR3I), (OP_MAKE_VECTOR4I, Variant_VECTOR4I),
      (OP_MAKE_COLOR, Variant_COLOR), (OP_MAKE_ARRAY, Variant_ARRAY),
      (OP_MAKE_DICTIONARY, Variant_DICTIONARY), (OP_MAKE_DICTIONARY_KEYED, Variant_DICTIONARY),
      (OP_DICT_HAS_CONST, Variant_BOOL), (OP_STRUCT_CHECK, Variant_BOOL)]"

definition result_type :: "IRInstruction \<Rightarrow> RegisterState \<Rightarrow> TypeHint" where
  "result_type instr state =
     (let op = opcode instr in
      case map_of MAKE_TYPES op of
        Some t \<Rightarrow> t
      | None \<Rightarrow>
          if op = OP_CONVERT \<or> op = OP_COERCE then type_hint instr
          else if op = OP_MOVE then
            (let src = reg_index (operand instr 1)
             in if 0 \<le> src \<and> nat src < length (reg_type state)
                then reg_type state ! nat src else TYPE_UNKNOWN)
          else if ir_has_effect op IR_COMPARISON then Variant_BOOL
          else if ir_has_effect op IR_ARITHMETIC \<and> type_hint instr \<noteq> TypeHint_NONE
            then type_hint instr
          else TYPE_UNKNOWN)"

text \<open>\<open>read_index\<close> counts the operands that are registers in range and read.\<close>

fun check_hints :: "IRInstruction \<Rightarrow> RegisterState \<Rightarrow> nat \<Rightarrow> nat list \<Rightarrow> unit res" where
  "check_hints instr state read_index [] = Inr ()"
| "check_hints instr state read_index (j # js) =
     (let reg = reg_index (operands instr ! j) in
      if \<not> ir_reads_operand instr j then check_hints instr state read_index js
      else if reg < 0 \<or> length (reg_type state) \<le> nat reg
        then check_hints instr state read_index js
      else
        let known = reg_type state ! nat reg;
            expected =
              (if read_index = 0 \<and> lhs_type_hint instr \<noteq> TypeHint_NONE then lhs_type_hint instr
               else if read_index = 1 \<and> rhs_type_hint instr \<noteq> TypeHint_NONE
                 then rhs_type_hint instr
               else type_hint instr)
        in if known \<noteq> TYPE_UNKNOWN \<and> known \<noteq> expected then ver_error HintMismatch
           else check_hints instr state (Suc read_index) js)"

definition check_type_hint :: "IRInstruction \<Rightarrow> RegisterState \<Rightarrow> unit res" where
  "check_type_hint instr state =
     (if opcode instr = OP_CONVERT then ver_check (type_hint instr \<noteq> TypeHint_NONE) ConvertWithoutHint
      else if opcode instr = OP_COERCE then ver_check (type_hint instr \<noteq> TypeHint_NONE) CoerceWithoutHint
      else if type_hint instr = TypeHint_NONE then Inr ()
      else if \<not> ir_has_effect (opcode instr) IR_ARITHMETIC then Inr ()
      else check_hints instr state 0 [0..<length (operands instr)])"

definition define_destination :: "IRInstruction \<Rightarrow> RegisterState \<Rightarrow> RegisterState" where
  "define_destination instr state =
     (let dst = ir_destination_register instr in
      if 0 \<le> dst \<and> nat dst < length (reg_defined state) then
        \<lparr>reg_defined = (reg_defined state)[nat dst := True],
         reg_type = (reg_type state)[nat dst := result_type instr state]\<rparr>
      else state)"

definition check_reads :: "IRInstruction \<Rightarrow> RegisterState \<Rightarrow> unit res" where
  "check_reads instr state =
     (if opcode instr = OP_RETURN \<and> operands instr = [] then Inr ()
      else then_check
        (each_res (\<lambda>reg. ver_check
           (\<not> (0 \<le> reg \<and> nat reg < length (reg_defined state) \<and> \<not> reg_defined state ! nat reg))
           ReadUndefined) (ir_collect_read_registers instr))
        (check_type_hint instr state))"

primrec transfer_all :: "IRInstruction list \<Rightarrow> RegisterState \<Rightarrow> RegisterState" where
  "transfer_all [] state = state"
| "transfer_all (instr # rest) state = transfer_all rest (define_destination instr state)"

primrec report_all :: "IRInstruction list \<Rightarrow> RegisterState \<Rightarrow> unit res" where
  "report_all [] state = Inr ()"
| "report_all (instr # rest) state =
     then_check (check_reads instr state) (report_all rest (define_destination instr state))"

definition block_code :: "IRFunction \<Rightarrow> BasicBlock \<Rightarrow> IRInstruction list" where
  "block_code f b = take (bb_end b - bb_begin b) (drop (bb_begin b) (instructions f))"

text \<open>\<open>transfer\<close> without and with reporting.\<close>

definition transfer :: "IRFunction \<Rightarrow> BasicBlock \<Rightarrow> RegisterState \<Rightarrow> RegisterState" where
  "transfer f b state = transfer_all (block_code f b) state"

definition transfer_report :: "IRFunction \<Rightarrow> BasicBlock \<Rightarrow> RegisterState \<Rightarrow> unit res" where
  "transfer_report f b state = report_all (block_code f b) state"

section \<open>Definedness and types\<close>

text \<open>
  The state of the loop: the blocks, the priority queue as an ascending list, and the
  flags that keep a block from being queued twice.
\<close>

type_synonym flow = "BasicBlock list \<times> nat list \<times> bool list"

definition visit_successor :: "RegisterState \<Rightarrow> flow \<Rightarrow> nat \<Rightarrow> flow" where
  "visit_successor state fl s =
     (let (blocks, work, queued) = fl;
          target = blocks ! s;
          (target', changed) =
            (if \<not> bb_entry_initialized target
             then (target\<lparr>bb_entry := state, bb_entry_initialized := True, bb_reachable := True\<rparr>,
                   True)
             else let (e, c) = merge_from (bb_entry target) state
                  in (target\<lparr>bb_entry := e\<rparr>, c));
          blocks' = blocks[s := target']
      in if changed \<and> \<not> queued ! s then (blocks', insort s work, queued[s := True])
         else (blocks', work, queued))"

definition flow_step :: "IRFunction \<Rightarrow> flow \<Rightarrow> flow" where
  "flow_step f fl =
     (let (blocks, work, queued) = fl; index = hd work;
          state = transfer f (blocks ! index) (bb_entry (blocks ! index))
      in foldl (visit_successor state) (blocks, tl work, queued[index := False])
           (bb_successors (blocks ! index)))"

definition entry_state :: "IRFunction \<Rightarrow> RegisterState" where
  "entry_state f =
     (let regs = register_count f
      in (register_state regs)\<lparr>reg_defined :=
           map (\<lambda>i. i < length (parameters f)) [0..<regs]\<rparr>)"

definition flow_start :: "IRFunction \<Rightarrow> BasicBlock list \<Rightarrow> flow" where
  "flow_start f blocks =
     (blocks[0 := (blocks ! 0)\<lparr>bb_entry := entry_state f, bb_entry_initialized := True,
        bb_reachable := True\<rparr>],
      [0], (replicate (length blocks) False)[0 := True])"

definition flow_solve :: "IRFunction \<Rightarrow> BasicBlock list \<Rightarrow> flow option" where
  "flow_solve f blocks =
     while_option (\<lambda>(_, work, _). work \<noteq> []) (flow_step f) (flow_start f blocks)"

definition check_definedness_and_types :: "IRFunction \<Rightarrow> BasicBlock list \<Rightarrow> BasicBlock list res" where
  "check_definedness_and_types f blocks =
     (if blocks = [] then Inr []
      else case flow_solve f blocks of
        None \<Rightarrow> Inl Diverges
      | Some (solved, _) \<Rightarrow>
          bind_res (each_res (\<lambda>b. if bb_reachable b then transfer_report f b (bb_entry b) else Inr ())
            solved) (\<lambda>_. Inr solved))"

section \<open>Scope marks\<close>

text \<open>The sets of scope identifiers are lists without duplicates; the queue is a list.\<close>

record scope_flow =
  sf_entry :: "int64 list list"
  sf_seen :: "bool list"
  sf_work :: "nat list"

primrec scope_transfer :: "IRInstruction list \<Rightarrow> int64 list \<Rightarrow> int64 list" where
  "scope_transfer [] marked = marked"
| "scope_transfer (instr # rest) marked =
     scope_transfer rest
       (if opcode instr = OP_SCOPE_MARK then List.insert (immediate (operand instr 0)) marked
        else marked)"

primrec scope_report :: "IRInstruction list \<Rightarrow> int64 list \<Rightarrow> unit res" where
  "scope_report [] marked = Inr ()"
| "scope_report (instr # rest) marked =
     (if opcode instr = OP_SCOPE_MARK
        then scope_report rest (List.insert (immediate (operand instr 0)) marked)
      else if opcode instr = OP_SCOPE_RELEASE \<and> immediate (operand instr 0) \<notin> set marked
        then ver_error ScopeNotMarked
      else scope_report rest marked)"

definition scope_visit :: "int64 list \<Rightarrow> scope_flow \<Rightarrow> nat \<Rightarrow> scope_flow" where
  "scope_visit out fl s =
     (if \<not> sf_seen fl ! s then
        \<lparr>sf_entry = (sf_entry fl)[s := out], sf_seen = (sf_seen fl)[s := True],
         sf_work = sf_work fl @ [s]\<rparr>
      else
        let kept = filter (\<lambda>x. x \<in> set out) (sf_entry fl ! s);
            changed = (kept \<noteq> sf_entry fl ! s)
        in fl\<lparr>sf_entry := (sf_entry fl)[s := kept],
              sf_work := (if changed then sf_work fl @ [s] else sf_work fl)\<rparr>)"

definition scope_step :: "IRFunction \<Rightarrow> BasicBlock list \<Rightarrow> scope_flow \<Rightarrow> scope_flow" where
  "scope_step f blocks fl =
     (let b = hd (sf_work fl);
          out = scope_transfer (block_code f (blocks ! b)) (sf_entry fl ! b)
      in foldl (scope_visit out) (fl\<lparr>sf_work := tl (sf_work fl)\<rparr>) (bb_successors (blocks ! b)))"

definition scope_start :: "nat \<Rightarrow> scope_flow" where
  "scope_start count =
     \<lparr>sf_entry = replicate count [], sf_seen = (replicate count False)[0 := True], sf_work = [0]\<rparr>"

definition scope_solve :: "IRFunction \<Rightarrow> BasicBlock list \<Rightarrow> scope_flow option" where
  "scope_solve f blocks =
     while_option (\<lambda>fl. sf_work fl \<noteq> []) (scope_step f blocks) (scope_start (length blocks))"

definition check_scope_marks :: "IRFunction \<Rightarrow> BasicBlock list \<Rightarrow> unit res" where
  "check_scope_marks f blocks =
     (if blocks = [] then Inr ()
      else case scope_solve f blocks of
        None \<Rightarrow> Inl Diverges
      | Some fl \<Rightarrow>
          each_res (\<lambda>b. if sf_seen fl ! b
                        then scope_report (block_code f (blocks ! b)) (sf_entry fl ! b)
                        else Inr ()) [0..<length blocks])"

section \<open>The verifier\<close>

definition ir_verify :: "IRStringTable option \<Rightarrow> IRFunction \<Rightarrow> unit res" where
  "ir_verify t f =
     then_check (check_register_range f)
     (then_check (check_operands f)
     (bind_res (check_labels t f) (\<lambda>m.
      then_check (check_coroutine f)
     (bind_res (check_definedness_and_types f (build_blocks t m f)) (\<lambda>blocks.
      check_scope_marks f blocks)))))"

definition ir_verify_program :: "IRProgram \<Rightarrow> unit res" where
  "ir_verify_program P =
     then_check (each_res (ir_verify (Some (strings P))) (prog_functions P))
     (then_check (if has_member_init P then ir_verify (Some (strings P)) (member_init P) else Inr ())
       (if has_global_init P then ir_verify (Some (strings P)) (global_init P) else Inr ()))"

end
