(* ===== verification/Flow.thy ===== *)
theory Flow
  imports Verifier
begin

text \<open>
  Worklist analyses. \<open>must_analysis\<close> is the contract of a forward must-analysis: a transfer
  function per instruction, a meet that only loses information and a bound on how often it
  can; inside it the worklist's invariant, its termination measure and the passage from a
  fixed point on basic blocks to a fixed point on instructions are proved once. Both
  analyses of the verifier are instances.
\<close>

type_synonym 's solver = "(nat \<Rightarrow> 's option) \<times> nat set"

definition abs_visit :: "('s \<Rightarrow> 's \<Rightarrow> 's) \<Rightarrow> 's \<Rightarrow> 's solver \<Rightarrow> nat \<Rightarrow> 's solver" where
  "abs_visit meet out s t =
     (case fst s t of
        None \<Rightarrow> ((fst s)(t \<mapsto> out), insert t (snd s))
      | Some e \<Rightarrow> ((fst s)(t \<mapsto> meet e out),
                   if meet e out = e then snd s else insert t (snd s)))"

definition solver_weight :: "('s \<Rightarrow> nat) \<Rightarrow> nat \<Rightarrow> nat \<Rightarrow> (nat \<Rightarrow> 's option) \<Rightarrow> nat" where
  "solver_weight weight wmax N E =
     (\<Sum>b<N. case E b of None \<Rightarrow> Suc wmax | Some s \<Rightarrow> weight s)"

definition solver_inv ::
  "('s \<Rightarrow> bool) \<Rightarrow> ('s \<Rightarrow> 's \<Rightarrow> bool) \<Rightarrow> (nat \<Rightarrow> 's \<Rightarrow> 's) \<Rightarrow> (nat \<Rightarrow> nat list) \<Rightarrow> 's \<Rightarrow> nat \<Rightarrow>
   's solver \<Rightarrow> bool" where
  "solver_inv valid le btrans succs init N st = (case st of (E, W) \<Rightarrow>
     (\<forall>b s. E b = Some s \<longrightarrow> valid s \<and> b < N) \<and> W \<subseteq> dom E \<and> (\<exists>s. E 0 = Some s \<and> le s init) \<and>
     (\<forall>b s. b \<notin> W \<longrightarrow> E b = Some s \<longrightarrow>
        (\<forall>t \<in> set (succs b). \<exists>s'. E t = Some s' \<and> le s' (btrans b s))))"

locale must_analysis =
  fixes itrans :: "IRInstruction \<Rightarrow> 's \<Rightarrow> 's"
    and meet :: "'s \<Rightarrow> 's \<Rightarrow> 's"
    and valid :: "'s \<Rightarrow> bool"
    and weight :: "'s \<Rightarrow> nat"
    and wmax :: nat
    and le :: "'s \<Rightarrow> 's \<Rightarrow> bool"
    and code :: "IRInstruction set"
  assumes valid_itrans: "valid s \<Longrightarrow> i \<in> code \<Longrightarrow> valid (itrans i s)"
    and valid_meet: "valid s \<Longrightarrow> valid s' \<Longrightarrow> valid (meet s s')"
    and weight_meet: "valid s \<Longrightarrow> valid s' \<Longrightarrow> meet s s' \<noteq> s \<Longrightarrow> weight (meet s s') < weight s"
    and weight_max: "valid s \<Longrightarrow> weight s \<le> wmax"
    and le_refl: "le s s"
    and le_trans: "le a b \<Longrightarrow> le b c \<Longrightarrow> le a c"
    and meet_left: "valid s \<Longrightarrow> valid s' \<Longrightarrow> le (meet s s') s"
    and meet_right: "valid s \<Longrightarrow> valid s' \<Longrightarrow> le (meet s s') s'"
begin

lemma valid_fold: "valid s \<Longrightarrow> set is \<subseteq> code \<Longrightarrow> valid (fold itrans is s)"
  by (induction "is" arbitrary: s) (auto simp: valid_itrans)

lemma visit_props:
  assumes "valid out" "\<forall>b s. E b = Some s \<longrightarrow> valid s" "abs_visit meet out (E, W) t = (E', W')"
  shows "\<exists>s. E' t = Some s \<and> valid s \<and> le s out"
    and "\<forall>b. b \<noteq> t \<longrightarrow> E' b = E b"
    and "E t = Some s \<Longrightarrow> \<exists>s'. E' t = Some s' \<and> le s' s \<and> (s' \<noteq> s \<longrightarrow> t \<in> W')"
    and "E t = None \<Longrightarrow> t \<in> W'" and "W \<subseteq> W'" and "W' \<subseteq> insert t W"
    and "t < N \<Longrightarrow> E' = E \<and> W' = W \<or> solver_weight weight wmax N E' < solver_weight weight wmax N E"
proof -
  let ?g = "\<lambda>E b. case E b of None \<Rightarrow> Suc wmax | Some s \<Rightarrow> weight s"
  have sum: "solver_weight weight wmax N E' < solver_weight weight wmax N E"
    if "t < N" "?g E' t < ?g E t" "\<forall>b. b \<noteq> t \<longrightarrow> E' b = E b"
    unfolding solver_weight_def
    by (rule sum_strict_mono_ex1) (use that in \<open>auto simp: less_imp_le\<close>, metis order_refl less_imp_le)
  have "(\<exists>s. E' t = Some s \<and> valid s \<and> le s out) \<and> (\<forall>b. b \<noteq> t \<longrightarrow> E' b = E b) \<and>
    (\<forall>s. E t = Some s \<longrightarrow> (\<exists>s'. E' t = Some s' \<and> le s' s \<and> (s' \<noteq> s \<longrightarrow> t \<in> W'))) \<and>
    (E t = None \<longrightarrow> t \<in> W') \<and> W \<subseteq> W' \<and> W' \<subseteq> insert t W \<and>
    (E' = E \<and> W' = W \<or> ?g E' t < ?g E t)"
  proof (cases "E t")
    case None
    then show ?thesis using assms le_refl weight_max[OF assms(1)] by (auto simp: abs_visit_def)
  next
    case (Some e)
    have e: "valid e" using Some assms(2) by blast
    then show ?thesis
      using Some assms valid_meet[OF e assms(1)] meet_left[OF e assms(1)] meet_right[OF e assms(1)]
        weight_meet[OF e assms(1)] le_refl
      by (auto simp: abs_visit_def fun_upd_idem split: if_splits)
  qed
  then show "\<exists>s. E' t = Some s \<and> valid s \<and> le s out" "\<forall>b. b \<noteq> t \<longrightarrow> E' b = E b"
    "E t = Some s \<Longrightarrow> \<exists>s'. E' t = Some s' \<and> le s' s \<and> (s' \<noteq> s \<longrightarrow> t \<in> W')"
    "E t = None \<Longrightarrow> t \<in> W'" "W \<subseteq> W'" "W' \<subseteq> insert t W"
    "t < N \<Longrightarrow> E' = E \<and> W' = W \<or> solver_weight weight wmax N E' < solver_weight weight wmax N E"
    using sum by auto
qed

lemma visit_valid:
  "valid out \<Longrightarrow> \<forall>b s. fst st b = Some s \<longrightarrow> valid s \<Longrightarrow>
     \<forall>b s. fst (abs_visit meet out st t) b = Some s \<longrightarrow> valid s"
  by (auto simp: abs_visit_def valid_meet split: option.splits if_splits)

lemma fold_visit_props:
  assumes "valid out" "\<forall>b s. E b = Some s \<longrightarrow> valid s"
    "foldl (abs_visit meet out) (E, W) ts = (E', W')"
  shows "(\<forall>t \<in> set ts. \<exists>s. E' t = Some s \<and> le s out) \<and>
    (\<forall>b s. E b = Some s \<longrightarrow> (\<exists>s'. E' b = Some s' \<and> le s' s \<and> (s' \<noteq> s \<longrightarrow> b \<in> W'))) \<and>
    (\<forall>b. E b = None \<longrightarrow> E' b \<noteq> None \<longrightarrow> b \<in> W' \<and> b \<in> set ts) \<and>
    W \<subseteq> W' \<and> W' \<subseteq> W \<union> set ts \<and> (\<forall>b s. E' b = Some s \<longrightarrow> valid s) \<and>
    (set ts \<subseteq> {..<N} \<longrightarrow>
       E' = E \<and> W' = W \<or> solver_weight weight wmax N E' < solver_weight weight wmax N E)"
  using assms(2,3)
proof (induction ts arbitrary: E W)
  case Nil
  then show ?case by (auto simp: le_refl)
next
  case (Cons t ts)
  obtain E1 W1 where v: "abs_visit meet out (E, W) t = (E1, W1)" by fastforce
  note p = visit_props[OF assms(1) Cons.prems(1) v]
  have E1: "\<forall>b s. E1 b = Some s \<longrightarrow> valid s"
  proof (intro allI impI)
    fix b s assume b: "E1 b = Some s"
    show "valid s"
    proof (cases "b = t")
      case True then show ?thesis using p(1) b by auto
    next
      case False then show ?thesis using p(2) Cons.prems(1) b by simp
    qed
  qed
  have f: "foldl (abs_visit meet out) (E1, W1) ts = (E', W')" using Cons.prems(2) v by simp
  note IH = Cons.IH[OF E1 f]
  have IHa: "\<forall>t \<in> set ts. \<exists>s. E' t = Some s \<and> le s out" using IH by blast
  have IHb: "E1 b = Some s \<Longrightarrow> \<exists>s'. E' b = Some s' \<and> le s' s \<and> (s' \<noteq> s \<longrightarrow> b \<in> W')" for b s
    using IH by blast
  have IHc: "E1 b = None \<Longrightarrow> E' b \<noteq> None \<Longrightarrow> b \<in> W' \<and> b \<in> set ts" for b using IH by blast
  have IHd: "W1 \<subseteq> W'" "W' \<subseteq> W1 \<union> set ts" "\<forall>b s. E' b = Some s \<longrightarrow> valid s" using IH by blast+
  have IHe: "set ts \<subseteq> {..<N} \<Longrightarrow>
       E' = E1 \<and> W' = W1 \<or> solver_weight weight wmax N E' < solver_weight weight wmax N E1"
    using IH by blast
  obtain s1 where "E1 t = Some s1" "le s1 out" using p(1) by blast
  then have "\<exists>s. E' t = Some s \<and> le s out" using IHb[of t s1] le_trans by blast
  with IHa have a: "\<forall>t' \<in> set (t # ts). \<exists>s. E' t' = Some s \<and> le s out" by simp
  have b: "\<exists>s'. E' b = Some s' \<and> le s' s \<and> (s' \<noteq> s \<longrightarrow> b \<in> W')" if Eb: "E b = Some s" for b s
  proof -
    obtain s1 where s1: "E1 b = Some s1" "le s1 s" "s1 \<noteq> s \<longrightarrow> b \<in> W1"
      using p(2) p(3)[of s] Eb le_refl by (cases "b = t") auto
    then obtain s2 where "E' b = Some s2" "le s2 s1" "s2 \<noteq> s1 \<longrightarrow> b \<in> W'" using IHb by blast
    then show ?thesis using s1 le_trans IHd(1) by blast
  qed
  have c: "b \<in> W' \<and> b \<in> set (t # ts)" if "E b = None" "E' b \<noteq> None" for b
    using that IHc[of b] p(2,4) IHd(1) by (cases "b = t") auto
  have d: "set (t # ts) \<subseteq> {..<N} \<longrightarrow>
       E' = E \<and> W' = W \<or> solver_weight weight wmax N E' < solver_weight weight wmax N E"
    using IHe p(7)[of N] by auto
  have e: "W \<subseteq> W'" "W' \<subseteq> W \<union> set (t # ts)" using IHd(1,2) p(5,6) by auto
  show ?case using a b c d e IHd(3) by (intro conjI allI impI) blast+
qed

lemma inv_step:
  assumes inv: "solver_inv valid le btrans succs init N (E, W)" and b: "b \<in> W" "E b = Some s"
    and W0: "W - {b} \<subseteq> W0" "W0 \<subseteq> W" and tr: "valid (btrans b s)"
    and succs: "set (succs b) \<subseteq> {..<N}"
    and f: "foldl (abs_visit meet (btrans b s)) (E, W0) (succs b) = (E', W')"
  shows "solver_inv valid le btrans succs init N (E', W')"
    "W' = W0 \<and> E' = E \<or> solver_weight weight wmax N E' < solver_weight weight wmax N E"
proof -
  have val: "\<forall>b s. E b = Some s \<longrightarrow> valid s" using inv by (auto simp: solver_inv_def)
  note p = fold_visit_props[OF tr val f, of N]
  show "W' = W0 \<and> E' = E \<or> solver_weight weight wmax N E' < solver_weight weight wmax N E"
    using p succs by blast
  have pa: "t \<in> set (succs b) \<Longrightarrow> \<exists>s'. E' t = Some s' \<and> le s' (btrans b s)" for t using p by blast
  have pb: "E c = Some x \<Longrightarrow> \<exists>s'. E' c = Some s' \<and> le s' x \<and> (s' \<noteq> x \<longrightarrow> c \<in> W')" for c x
    using p by blast
  have pc: "E c = None \<Longrightarrow> E' c \<noteq> None \<Longrightarrow> c \<in> W' \<and> c \<in> set (succs b)" for c using p by blast
  have pd: "W0 \<subseteq> W'" "W' \<subseteq> W0 \<union> set (succs b)" "\<And>c x. E' c = Some x \<Longrightarrow> valid x" using p by blast+
  have iv: "\<And>b s. E b = Some s \<Longrightarrow> valid s \<and> b < N" "W \<subseteq> dom E" "\<exists>s. E 0 = Some s \<and> le s init"
      "\<And>b s t. b \<notin> W \<Longrightarrow> E b = Some s \<Longrightarrow> t \<in> set (succs b) \<Longrightarrow> \<exists>s'. E t = Some s' \<and> le s' (btrans b s)"
    using inv by (auto simp: solver_inv_def)
  have range: "valid x \<and> c < N" if c: "E' c = Some x" for c x
  proof (cases "E c")
    case None
    then have "c \<in> set (succs b)" using pc[of c] c by simp
    then show ?thesis using pd(3)[OF c] succs by blast
  next
    case (Some y)
    then show ?thesis using pd(3)[OF c] iv(1) by blast
  qed
  have dom: "W' \<subseteq> dom E'"
  proof
    fix c assume c: "c \<in> W'"
    show "c \<in> dom E'"
    proof (cases "c \<in> set (succs b)")
      case True then show ?thesis using pa by blast
    next
      case False
      then have "c \<in> W" using c pd(2) W0 by blast
      then obtain x where "E c = Some x" using iv(2) by blast
      then show ?thesis using pb by blast
    qed
  qed
  have init: "\<exists>s. E' 0 = Some s \<and> le s init"
    using iv(3) pb le_trans by blast
  have fixp: "\<exists>s'. E' t = Some s' \<and> le s' (btrans c sc)"
    if c: "c \<notin> W'" "E' c = Some sc" and t: "t \<in> set (succs c)" for c sc t
  proof -
    obtain x where x: "E c = Some x" using c pc[of c] by (cases "E c") auto
    then have sc: "sc = x" using c pb[OF x] by auto
    show ?thesis
    proof (cases "c = b")
      case True
      then show ?thesis using pa x sc b t by auto
    next
      case False
      then have "c \<notin> W" using c pd(1) W0 by blast
      then obtain s1 where "E t = Some s1" "le s1 (btrans c x)"
        using iv(4) x t by blast
      then show ?thesis using pb[of t s1] sc le_trans by blast
    qed
  qed
  show "solver_inv valid le btrans succs init N (E', W')"
    using range dom init fixp by (auto simp: solver_inv_def)
qed

end

definition instr_succs :: "IRStringTable option \<Rightarrow> label_index \<Rightarrow> IRInstruction list \<Rightarrow> nat \<Rightarrow> nat set" where
  "instr_succs t m is i =
     {p. \<not> ir_has_effect (opcode (is ! i)) IR_LABEL \<and>
         (\<exists>v \<in> set (operands (is ! i)). is_label v \<and> m (name_of t v) = Some p)} \<union>
     (if ir_has_effect (opcode (is ! i)) IR_TERMINATOR then {} else {Suc i})"

definition block_prefix :: "IRInstruction list \<Rightarrow> nat \<Rightarrow> IRInstruction list" where
  "block_prefix is i =
     (let s = leaders is ! block_of_instruction is i in take (i - s) (drop s is))"

definition block_instrs :: "IRInstruction list \<Rightarrow> nat \<Rightarrow> IRInstruction list" where
  "block_instrs is b =
     (let (s, e) = block_bounds is ! b in take (e - s) (drop s is))"

abbreviation leader_count :: "IRInstruction list \<Rightarrow> nat \<Rightarrow> nat" where
  "leader_count is i \<equiv> length (filter (is_leader is) [0..<i])"

lemma is_leader_0 [simp]: "is_leader is 0" by (simp add: is_leader_def)

lemma leader_count_pos: "0 < i \<Longrightarrow> 0 < leader_count is i"
  by (cases i) (auto simp: upt_conv_Cons simp del: upt_Suc)

lemma filter_split: "i < n \<Longrightarrow> filter P [0..<n] = filter P [0..<i] @ (if P i then [i] else []) @ filter P [Suc i..<n]"
  using upt_add_eq_append[of 0 i "n - i"] by (simp add: upt_conv_Cons)

lemma nth_leaders:
  assumes "is_leader is i" "i < length is"
  shows "leaders is ! leader_count is i = i" "leader_count is i < length (leaders is)"
  using assms filter_split[of i "length is" "is_leader is"] by (auto simp: leaders_def nth_append)

lemma block_of_leader: "is_leader is i \<Longrightarrow> block_of_instruction is i = leader_count is i"
  by (simp add: block_of_instruction_def)

lemma block_of_Suc:
  "block_of_instruction is (Suc i) = block_of_instruction is i + (if is_leader is (Suc i) then 1 else 0)"
  using leader_count_pos[of "Suc i" "is"] by (simp add: block_of_instruction_def)

lemma block_of_less: "i < length is \<Longrightarrow> block_of_instruction is i < length (leaders is)"
proof (induction i)
  case 0
  then show ?case using nth_leaders(2)[of "is" 0] by (simp add: block_of_leader)
next
  case (Suc i)
  then show ?case using nth_leaders(2)[of "is" "Suc i"] block_of_leader[of "is" "Suc i"]
    by (cases "is_leader is (Suc i)") (auto simp: block_of_Suc)
qed

lemma block_start_leader:
  "is_leader is i \<Longrightarrow> i < length is \<Longrightarrow> leaders is ! block_of_instruction is i = i"
  using nth_leaders(1) by (simp add: block_of_leader)

lemma block_start_le: "i < length is \<Longrightarrow> leaders is ! block_of_instruction is i \<le> i"
proof (induction i)
  case 0
  then show ?case by (simp add: block_start_leader)
next
  case (Suc i)
  then show ?case
    using block_start_leader[of "is" "Suc i"] block_of_Suc[of "is" i]
    by (cases "is_leader is (Suc i)") auto
qed

lemma length_block_bounds [simp]: "length (block_bounds is) = length (leaders is)"
  by (cases "leaders is") (simp_all add: block_bounds_def)

lemma block_bounds_nth:
  assumes "i < length is" "Suc i = length is \<or> is_leader is (Suc i)"
  shows "block_bounds is ! block_of_instruction is i = (leaders is ! block_of_instruction is i, Suc i)"
proof -
  let ?b = "block_of_instruction is i"
  have b: "?b < length (leaders is)" using assms(1) by (rule block_of_less)
  have "(tl (leaders is) @ [length is]) ! ?b = Suc i"
  proof (cases "Suc i = length is")
    case True
    have "length (leaders is) = leader_count is (Suc i)" by (simp add: leaders_def True del: upt_Suc)
    then have "?b = length (leaders is) - 1" by (simp add: block_of_instruction_def del: upt_Suc)
    then show ?thesis using True b by (simp add: nth_append)
  next
    case False
    then have l: "is_leader is (Suc i)" "Suc i < length is" using assms by auto
    then have "Suc ?b = block_of_instruction is (Suc i)" by (simp add: block_of_Suc)
    then have "leaders is ! Suc ?b = Suc i" "Suc ?b < length (leaders is)"
      using block_start_leader[OF l] block_of_less[OF l(2)] by simp_all
    moreover from this(2) have "?b < length (tl (leaders is))" by simp
    ultimately show ?thesis by (simp add: nth_append nth_tl)
  qed
  then show ?thesis using b by (simp add: block_bounds_def)
qed

lemma block_prefix_leader: "is_leader is i \<Longrightarrow> i < length is \<Longrightarrow> block_prefix is i = []"
  by (simp add: block_prefix_def block_start_leader)

lemma block_prefix_Suc:
  assumes "Suc i < length is" "\<not> is_leader is (Suc i)"
  shows "block_prefix is (Suc i) = block_prefix is i @ [is ! i]"
  using block_start_le[of i "is"] assms
  by (simp add: block_prefix_def block_of_Suc Let_def Suc_diff_le take_Suc_conv_app_nth)

lemma block_instrs_last:
  assumes "i < length is" "Suc i = length is \<or> is_leader is (Suc i)"
  shows "block_instrs is (block_of_instruction is i) = block_prefix is i @ [is ! i]"
  using block_start_le[of i "is"] assms
  by (simp add: block_instrs_def block_bounds_nth block_prefix_def Let_def Suc_diff_le take_Suc_conv_app_nth)

lemma leader_after:
  assumes "ir_has_effect (opcode (is ! i)) IR_BRANCH \<or> ir_has_effect (opcode (is ! i)) IR_TERMINATOR"
  shows "is_leader is (Suc i)"
  using assms by (auto simp: is_leader_def)

lemma set_map_filter: "y \<in> set (List.map_filter f xs) \<longleftrightarrow> (\<exists>x \<in> set xs. f x = Some y)"
  by (induction xs) (auto split: option.splits)

lemma block_successors_iff:
  assumes "i < length is" "Suc i = length is \<or> is_leader is (Suc i)"
  shows "set (block_successors t m is (block_of_instruction is i) (block_bounds is ! block_of_instruction is i)) =
    {block_of_instruction is p | p. \<not> ir_has_effect (opcode (is ! i)) IR_LABEL \<and>
        (\<exists>v \<in> set (operands (is ! i)). is_label v \<and> m (name_of t v) = Some p)} \<union>
    (if \<not> ir_has_effect (opcode (is ! i)) IR_TERMINATOR \<and> Suc i < length is
     then {block_of_instruction is (Suc i)} else {})"
proof -
  let ?b = "block_of_instruction is i"
  have nxt: "Suc ?b < length (leaders is) \<longleftrightarrow> Suc i < length is"
  proof (cases "Suc i = length is")
    case True
    have "length (leaders is) = leader_count is (Suc i)" by (simp add: leaders_def True del: upt_Suc)
    then show ?thesis using True leader_count_pos[of "Suc i" "is"]
      by (simp add: block_of_instruction_def del: upt_Suc)
  next
    case False
    then show ?thesis using assms block_of_less[of "Suc i" "is"] by (simp add: block_of_Suc)
  qed
  have "Suc i < length is \<Longrightarrow> block_of_instruction is (Suc i) = Suc ?b"
    using assms by (simp add: block_of_Suc)
  then have "set (if \<not> ir_has_effect (opcode (is ! i)) IR_TERMINATOR \<and> ?b + 1 < length (leaders is)
        then [?b + 1] else []) =
      (if \<not> ir_has_effect (opcode (is ! i)) IR_TERMINATOR \<and> Suc i < length is
       then {block_of_instruction is (Suc i)} else {})"
    using nxt by auto
  moreover have "set (if ir_has_effect (opcode (is ! i)) IR_LABEL then []
      else List.map_filter (\<lambda>v. if is_label v then
             map_option (block_of_instruction is) (m (name_of t v)) else None) (operands (is ! i))) =
    {block_of_instruction is p | p. \<not> ir_has_effect (opcode (is ! i)) IR_LABEL \<and>
        (\<exists>v \<in> set (operands (is ! i)). is_label v \<and> m (name_of t v) = Some p)}"
    by (force simp: set_map_filter split: if_splits)
  ultimately show ?thesis
    by (simp only: block_successors_def Let_def block_bounds_nth[OF assms] snd_conv diff_Suc_1 set_append)
qed

definition instr_state ::
  "(IRInstruction \<Rightarrow> 's \<Rightarrow> 's) \<Rightarrow> IRInstruction list \<Rightarrow> (nat \<Rightarrow> 's option) \<Rightarrow> nat \<Rightarrow> 's option" where
  "instr_state itrans is E i =
     map_option (fold itrans (block_prefix is i)) (E (block_of_instruction is i))"

abbreviation (input) code_trans where
  "code_trans itrans is \<equiv> \<lambda>b. fold itrans (block_instrs is b)"

abbreviation (input) code_succs where
  "code_succs t m is \<equiv> \<lambda>b. block_successors t m is b (block_bounds is ! b)"

lemma instr_state_leader:
  "is_leader is i \<Longrightarrow> i < length is \<Longrightarrow> instr_state itrans is E i = E (block_of_instruction is i)"
  by (simp add: instr_state_def block_prefix_leader option.map_id0 option.map_ident)

lemma instr_state_Suc:
  "Suc i < length is \<Longrightarrow> \<not> is_leader is (Suc i) \<Longrightarrow>
     instr_state itrans is E (Suc i) = map_option (itrans (is ! i)) (instr_state itrans is E i)"
  by (simp add: instr_state_def block_prefix_Suc block_of_Suc option.map_comp o_def)

context must_analysis
begin

lemma instr_solution:
  assumes inv: "solver_inv valid le (code_trans itrans is) (code_succs t m is) init N (E, {})"
    and labels: "\<And>l p. m l = Some p \<Longrightarrow> p < length is \<and> is_leader is p"
    and branches: "\<And>i v. i < length is \<Longrightarrow> v \<in> set (operands (is ! i)) \<Longrightarrow> is_label v \<Longrightarrow>
      \<not> ir_has_effect (opcode (is ! i)) IR_LABEL \<Longrightarrow>
      ir_has_effect (opcode (is ! i)) IR_BRANCH \<or> ir_has_effect (opcode (is ! i)) IR_TERMINATOR"
    and i: "i < length is" "instr_state itrans is E i = Some s"
    and k: "k \<in> instr_succs t m is i" "k < length is"
  shows "\<exists>s'. instr_state itrans is E k = Some s' \<and> le s' (itrans (is ! i) s)"
proof (cases "k = Suc i \<and> \<not> is_leader is (Suc i)")
  case True
  then show ?thesis using instr_state_Suc[of i "is" itrans E] i k le_refl by auto
next
  case False
  let ?b = "block_of_instruction is i"
  have last: "Suc i = length is \<or> is_leader is (Suc i)"
    using False k branches[OF i(1)] leader_after[of "is" i] unfolding instr_succs_def by (auto split: if_splits)
  have lead: "is_leader is k"
    using False k labels unfolding instr_succs_def by (auto split: if_splits)
  obtain e where e: "E ?b = Some e" "s = fold itrans (block_prefix is i) e"
    using i(2) by (auto simp: instr_state_def)
  have tr: "fold itrans (block_instrs is ?b) e = itrans (is ! i) s"
    using block_instrs_last[OF i(1) last] e by simp
  have "block_of_instruction is k \<in> set (code_succs t m is ?b)"
    using k unfolding block_successors_iff[OF i(1) last] instr_succs_def by (auto split: if_splits)
  moreover have "\<forall>t' \<in> set (code_succs t m is ?b).
      \<exists>s'. E t' = Some s' \<and> le s' (fold itrans (block_instrs is ?b) e)"
    using inv e(1) by (simp add: solver_inv_def)
  ultimately obtain s' where
    "E (block_of_instruction is k) = Some s'" "le s' (fold itrans (block_instrs is ?b) e)" by blast
  then show ?thesis using instr_state_leader[OF lead k(2), of itrans E] tr by simp
qed

end

end
