(* ===== verification/Interpreter.thy ===== *)
theory Interpreter
  imports IR "HOL-Library.Char_ord" "HOL-Library.List_Lexorder"
begin

text \<open>
  The reference interpreter of the intermediate representation
  (\<^verbatim>\<open>ir_interpreter.cpp\<close>), instruction by instruction. A run is total: the interpreter has
  a step limit per activation and a call-depth limit, and both are kept at the values the
  code has, so \<open>execute_steps\<close> recurses on the steps left and \<open>call_at\<close> on the depth left.

  The opcodes that need the host throw, as in the code. Functions of the C library that
  HOL does not define (\<open>sin\<close>, \<open>pow\<close>, \ldots) are the fields of the \<open>libm\<close> parameter.
\<close>

section \<open>Values\<close>

datatype Value = VNil | VInt int64 | VFloat double | VString string | VBool bool

definition get_int :: "Value \<Rightarrow> int64 res" where
  "get_int v = (case v of
     VInt i \<Rightarrow> Inr i
   | VFloat d \<Rightarrow> (case to_int64 d of Some i \<Rightarrow> Inr i | None \<Rightarrow> undefined_behaviour)
   | VBool b \<Rightarrow> Inr (if b then 1 else 0)
   | _ \<Rightarrow> Inr 0)"

definition get_double :: "Value \<Rightarrow> double" where
  "get_double v = (case v of
     VFloat d \<Rightarrow> d
   | VInt i \<Rightarrow> of_int64 i
   | VBool b \<Rightarrow> (if b then D_1 else D_0)
   | _ \<Rightarrow> D_0)"

definition get_bool :: "Value \<Rightarrow> bool" where
  "get_bool v = (case v of
     VBool b \<Rightarrow> b
   | VInt i \<Rightarrow> i \<noteq> 0
   | VFloat d \<Rightarrow> \<not> feq d D_0
   | VString s \<Rightarrow> s \<noteq> []
   | VNil \<Rightarrow> False)"

definition get_string :: "Value \<Rightarrow> string" where
  "get_string v = (case v of VString s \<Rightarrow> s | _ \<Rightarrow> [])"

definition is_float :: "Value \<Rightarrow> bool" where
  "is_float v = (case v of VFloat _ \<Rightarrow> True | _ \<Rightarrow> False)"

definition is_string :: "Value \<Rightarrow> bool" where
  "is_string v = (case v of VString _ \<Rightarrow> True | _ \<Rightarrow> False)"

definition is_int :: "Value \<Rightarrow> bool" where
  "is_int v = (case v of VInt _ \<Rightarrow> True | _ \<Rightarrow> False)"

text \<open>The tag \<open>TYPE_TEST\<close> and \<open>TYPE_OF\<close> read: the \<open>Variant::Type\<close> of the alternative held.\<close>

definition value_tag :: "Value \<Rightarrow> int64" where
  "value_tag v = (case v of VNil \<Rightarrow> 0 | VBool _ \<Rightarrow> 1 | VInt _ \<Rightarrow> 2 | VFloat _ \<Rightarrow> 3 | VString _ \<Rightarrow> 4)"

section \<open>Operators\<close>

abbreviation (input) opt_error :: "reason \<Rightarrow> 'a res" where
  "opt_error r \<equiv> Inl (CompilerException OPTIMIZER_ERROR r)"

definition int_bitwise_op :: "IROpcode \<Rightarrow> int64 \<Rightarrow> int64 \<Rightarrow> int64" where
  "int_bitwise_op op l r =
     (if op = OP_BIT_AND then l AND r
      else if op = OP_BIT_OR then l OR r
      else if op = OP_BIT_XOR then l XOR r
      else if op = OP_SHL then push_bit (unat (r AND 63)) l
      else signed_drop_bit (unat (r AND 63)) l)"

definition float_binary_op :: "IROpcode \<Rightarrow> double \<Rightarrow> double \<Rightarrow> Value res" where
  "float_binary_op op l r =
     (if op = OP_ADD then Inr (VFloat (fadd l r))
      else if op = OP_SUB then Inr (VFloat (fsub l r))
      else if op = OP_MUL then Inr (VFloat (fmul l r))
      else if op = OP_DIV then Inr (VFloat (fdiv l r))
      else if op = OP_MOD then Inr (VFloat (fmod l r))
      else opt_error NotFloatBinary)"

definition int_binary_op :: "IROpcode \<Rightarrow> int64 \<Rightarrow> int64 \<Rightarrow> Value res" where
  "int_binary_op op l r =
     (if op = OP_ADD then Inr (VInt (l + r))
      else if op = OP_SUB then Inr (VInt (l - r))
      else if op = OP_MUL then Inr (VInt (l * r))
      else if op = OP_DIV then
        (if r = 0 then Inr (VInt 0)
         else if r = - 1 \<and> l = INT64_MIN then Inr (VInt INT64_MIN)
         else Inr (VInt (sdiv64 l r)))
      else if op = OP_MOD then
        (if r = 0 then Inr (VInt 0)
         else if r = - 1 \<and> l = INT64_MIN then Inr (VInt 0)
         else Inr (VInt (srem64 l r)))
      else opt_error NotIntegerBinary)"

definition binary_op :: "Value \<Rightarrow> Value \<Rightarrow> IROpcode \<Rightarrow> Value res" where
  "binary_op left right op =
     (if is_string left \<or> is_string right then
        (if op = OP_ADD \<and> is_string left \<and> is_string right
         then Inr (VString (get_string left @ get_string right))
         else opt_error StringOperator)
      else if op \<in> {OP_BIT_AND, OP_BIT_OR, OP_BIT_XOR, OP_SHL, OP_SHR} then
        bind_res (get_int left) (\<lambda>l. bind_res (get_int right) (\<lambda>r.
          Inr (VInt (int_bitwise_op op l r))))
      else if is_float left \<or> is_float right then
        float_binary_op op (get_double left) (get_double right)
      else
        bind_res (get_int left) (\<lambda>l. bind_res (get_int right) (\<lambda>r. int_binary_op op l r)))"

definition unary_op :: "Value \<Rightarrow> IROpcode \<Rightarrow> Value res" where
  "unary_op v op =
     (if op = OP_NEG then
        (if is_float v then Inr (VFloat (fneg (get_double v)))
         else bind_res (get_int v) (\<lambda>i. Inr (VInt (0 - i))))
      else if op = OP_NOT then Inr (VBool (\<not> get_bool v))
      else if op = OP_BIT_NOT then bind_res (get_int v) (\<lambda>i. Inr (VInt (NOT i)))
      else opt_error NotUnary)"

definition int_of_bool :: "bool \<Rightarrow> Value" where
  "int_of_bool b = VInt (if b then 1 else 0)"

text \<open>The six comparisons of one ordered type; another opcode leaves the result false.\<close>

definition select_compare ::
  "IROpcode \<Rightarrow> ('a \<Rightarrow> 'a \<Rightarrow> bool) \<Rightarrow> ('a \<Rightarrow> 'a \<Rightarrow> bool) \<Rightarrow> ('a \<Rightarrow> 'a \<Rightarrow> bool) \<Rightarrow> 'a \<Rightarrow> 'a \<Rightarrow> bool"
where
  "select_compare op eq lt le l r =
     (if op = OP_CMP_EQ then eq l r
      else if op = OP_CMP_NEQ then \<not> eq l r
      else if op = OP_CMP_LT then lt l r
      else if op = OP_CMP_LTE then le l r
      else if op = OP_CMP_GT then lt r l
      else if op = OP_CMP_GTE then le r l
      else False)"

definition compare_op :: "Value \<Rightarrow> Value \<Rightarrow> IROpcode \<Rightarrow> Value res" where
  "compare_op left right op =
     (if left = VNil \<or> right = VNil then
        (if op = OP_CMP_EQ then Inr (int_of_bool (left = VNil \<and> right = VNil))
         else if op = OP_CMP_NEQ then Inr (int_of_bool (\<not> (left = VNil \<and> right = VNil)))
         else opt_error NullOrdering)
      else if is_string left \<or> is_string right then
        (if \<not> is_string left \<or> \<not> is_string right then
           (if op = OP_CMP_EQ then Inr (VInt 0)
            else if op = OP_CMP_NEQ then Inr (VInt 1)
            else opt_error StringOrdering)
         else Inr (int_of_bool
           (select_compare op (=) (<) (\<le>) (get_string left) (get_string right))))
      else if is_float left \<or> is_float right then
        Inr (int_of_bool (select_compare op feq flt fle (get_double left) (get_double right)))
      else
        bind_res (get_int left) (\<lambda>l. bind_res (get_int right) (\<lambda>r.
          Inr (int_of_bool (select_compare op (=) (<) (\<le>) (sint l) (sint r))))))"

definition fused_compare :: "IROpcode \<Rightarrow> IROpcode option" where
  "fused_compare op =
     (if op = OP_BRANCH_EQ then Some OP_CMP_EQ
      else if op = OP_BRANCH_NEQ then Some OP_CMP_NEQ
      else if op = OP_BRANCH_LT then Some OP_CMP_LT
      else if op = OP_BRANCH_LTE then Some OP_CMP_LTE
      else if op = OP_BRANCH_GT then Some OP_CMP_GT
      else if op = OP_BRANCH_GTE then Some OP_CMP_GTE
      else None)"

definition fused_branch_taken :: "Value \<Rightarrow> Value \<Rightarrow> IROpcode \<Rightarrow> bool res" where
  "fused_branch_taken left right op = (case fused_compare op of
     None \<Rightarrow> opt_error NotFusedBranch
   | Some cmp \<Rightarrow> bind_res (compare_op left right cmp) (\<lambda>v. Inr (get_bool v)))"

section \<open>Global functions\<close>

text \<open>\<open>args.at(0)\<close> of a conversion called with no argument throws.\<close>

definition cast_value :: "GlobalFn \<Rightarrow> Value list \<Rightarrow> Value res" where
  "cast_value fn args = (case args of
     [] \<Rightarrow> Inl (StdException OutOfRange)
   | value # _ \<Rightarrow>
       if is_string value \<and> fn \<noteq> GFn_TO_BOOL then opt_error NeedsHost
       else if fn = GFn_TO_INT then bind_res (get_int value) (\<lambda>i. Inr (VInt i))
       else if fn = GFn_TO_FLOAT then Inr (VFloat (get_double value))
       else Inr (VBool (get_bool value)))"

definition numeric_value :: "libm \<Rightarrow> GlobalFunction \<Rightarrow> Value list \<Rightarrow> Value res" where
  "numeric_value lm info args =
     (if gf_kind info = KIND_INT_OP \<or> gf_kind info = KIND_SYSCALL_INT then
        bind_res (map_res get_int args) (\<lambda>int_args.
          bind_res (if gf_kind info = KIND_INT_OP then eval_global_int (gf_fn info) int_args
                    else eval_global_int_syscall (gf_fn info) int_args)
            (\<lambda>i. Inr (VInt i)))
      else
        bind_res (eval_global_float lm (gf_fn info) (map get_double args)) (\<lambda>result.
          case gf_result info of
            RESULT_BOOL \<Rightarrow> Inr (VBool (\<not> feq result D_0))
          | RESULT_INT \<Rightarrow>
              (case to_int64 result of Some i \<Rightarrow> Inr (VInt i) | None \<Rightarrow> undefined_behaviour)
          | _ \<Rightarrow> Inr (VFloat result)))"

definition global_call_value :: "libm \<Rightarrow> GlobalFn \<Rightarrow> Value list \<Rightarrow> Value res" where
  "global_call_value lm fn args =
     bind_res (global_function fn) (\<lambda>info.
       if fn = GFn_STR \<and> args \<noteq> [] \<and> list_all is_string args
         then Inr (VString (concat (map get_string args)))
       else if gf_kind info = KIND_HOST then opt_error NeedsHost
       else if gf_impure info then opt_error NeedsHost
       else if gf_kind info = KIND_CAST then cast_value fn args
       else bind_res
         (if gf_kind info = KIND_NUMERIC
          then global_function (resolve_numeric_form info (list_all is_int args))
          else Inr info)
         (\<lambda>info. numeric_value lm info args))"

section \<open>Execution contexts\<close>

record ExecutionContext =
  registers :: "int \<Rightarrow> Value option"
  labels :: "string \<Rightarrow> nat option"
  pc :: nat
  returned :: bool
  return_value :: Value

definition empty_context :: ExecutionContext where
  "empty_context =
     \<lparr>registers = Map.empty, labels = Map.empty, pc = 0, returned = False, return_value = VNil\<rparr>"

text \<open>Reading an absent register inserts a null.\<close>

definition get_register :: "ExecutionContext \<Rightarrow> int \<Rightarrow> Value \<times> ExecutionContext" where
  "get_register ctx reg = (case registers ctx reg of
     Some v \<Rightarrow> (v, ctx)
   | None \<Rightarrow> (VNil, ctx\<lparr>registers := (registers ctx)(reg \<mapsto> VNil)\<rparr>))"

definition set_register :: "ExecutionContext \<Rightarrow> int \<Rightarrow> Value \<Rightarrow> ExecutionContext" where
  "set_register ctx reg v = ctx\<lparr>registers := (registers ctx)(reg \<mapsto> v)\<rparr>"

fun get_registers :: "ExecutionContext \<Rightarrow> int list \<Rightarrow> Value list \<times> ExecutionContext" where
  "get_registers ctx [] = ([], ctx)"
| "get_registers ctx (r # rs) =
     (let (v, ctx1) = get_register ctx r; (vs, ctx2) = get_registers ctx1 rs in (v # vs, ctx2))"

definition label_text :: "IRProgram \<Rightarrow> IRValue \<Rightarrow> string" where
  "label_text P v = string_at (strings P) (string_id v)"

definition jump_to_label :: "string \<Rightarrow> ExecutionContext \<Rightarrow> ExecutionContext res" where
  "jump_to_label label ctx = (case labels ctx label of
     None \<Rightarrow> opt_error MissingLabel
   | Some i \<Rightarrow> Inr (ctx\<lparr>pc := i\<rparr>))"

section \<open>One instruction\<close>

abbreviation (input) opnd_reg :: "IRInstruction \<Rightarrow> nat \<Rightarrow> int" where
  "opnd_reg instr j \<equiv> reg_index (operand instr j)"

abbreviation (input) opnd_imm :: "IRInstruction \<Rightarrow> nat \<Rightarrow> int64" where
  "opnd_imm instr j \<equiv> immediate (operand instr j)"

text \<open>An index into a vector: negative, or not below its size, throws.\<close>

definition checked_index :: "int64 \<Rightarrow> 'a list \<Rightarrow> reason \<Rightarrow> 'a res" where
  "checked_index index xs r =
     (if sint index < 0 \<or> length xs \<le> unat index then opt_error r else Inr (xs ! unat index))"

definition load_value :: "IRProgram \<Rightarrow> Value list \<Rightarrow> IRInstruction \<Rightarrow> Value res" where
  "load_value P gs instr =
     (let op = opcode instr in
      if op = OP_LOAD_IMM then Inr (VInt (opnd_imm instr 1))
      else if op = OP_LOAD_NIL then Inr VNil
      else if op = OP_LOAD_BOOL then Inr (VBool (opnd_imm instr 1 \<noteq> 0))
      else if op = OP_LOAD_FLOAT_IMM then Inr (VFloat (float_number (operand instr 1)))
      else if op = OP_LOAD_STRING then
        bind_res (checked_index (opnd_imm instr 1) (string_constants P) StringIndexRange)
          (\<lambda>s. Inr (VString s))
      else checked_index (opnd_imm instr 1) gs GlobalIndexRange)"

definition exec_load :: "IRProgram \<Rightarrow> Value list \<Rightarrow> IRInstruction \<Rightarrow> ExecutionContext \<Rightarrow> ExecutionContext res"
where
  "exec_load P gs instr ctx =
     bind_res (load_value P gs instr) (\<lambda>v. Inr (set_register ctx (opnd_reg instr 0) v))"

definition exec_store_global ::
  "IRInstruction \<Rightarrow> ExecutionContext \<times> Value list \<Rightarrow> (ExecutionContext \<times> Value list) res" where
  "exec_store_global instr st =
     (let (ctx, gs) = st; index = opnd_imm instr 0 in
      bind_res (checked_index index gs GlobalIndexRange) (\<lambda>_.
        let (v, ctx1) = get_register ctx (opnd_reg instr 1)
        in Inr (ctx1, gs[unat index := v])))"

definition convert_value :: "IRInstruction \<Rightarrow> Value \<Rightarrow> Value res" where
  "convert_value instr v =
     (if type_hint instr = Variant_FLOAT then Inr (VFloat (get_double v))
      else if type_hint instr = Variant_INT then bind_res (get_int v) (\<lambda>i. Inr (VInt i))
      else if opcode instr = OP_COERCE \<and> type_hint instr = Variant_BOOL
        then Inr (VBool (get_bool v))
      else opt_error (if opcode instr = OP_CONVERT then ConvertUnsupported else CoerceUnsupported))"

definition type_query_value :: "IRInstruction \<Rightarrow> Value \<Rightarrow> Value" where
  "type_query_value instr v =
     (let op = opcode instr; actual = value_tag v; tested = opnd_imm instr 2 in
      if op = OP_TYPE_TEST then VBool (actual = tested)
      else if op = OP_TYPE_TEST_MASK
        then VBool (signed_drop_bit (unat actual) tested AND 1 \<noteq> 0)
      else VInt actual)"

text \<open>
  Instructions that read one register and write one: \<open>CONVERT\<close>, \<open>COERCE\<close>, \<open>MOVE\<close>, the type
  queries and the unary operators.
\<close>

definition unary_value :: "IRInstruction \<Rightarrow> Value \<Rightarrow> Value res" where
  "unary_value instr v =
     (let op = opcode instr in
      if op = OP_CONVERT \<or> op = OP_COERCE then convert_value instr v
      else if op = OP_MOVE then Inr v
      else if op \<in> {OP_TYPE_TEST, OP_TYPE_TEST_MASK, OP_TYPE_OF} then Inr (type_query_value instr v)
      else unary_op v op)"

definition exec_unary :: "IRInstruction \<Rightarrow> ExecutionContext \<Rightarrow> ExecutionContext res" where
  "exec_unary instr ctx =
     (let (v, ctx1) = get_register ctx (opnd_reg instr 1) in
      bind_res (unary_value instr v) (\<lambda>r. Inr (set_register ctx1 (opnd_reg instr 0) r)))"

definition COMPARE_OPS :: "IROpcode list" where
  "COMPARE_OPS = [OP_CMP_EQ, OP_CMP_NEQ, OP_CMP_LT, OP_CMP_LTE, OP_CMP_GT, OP_CMP_GTE]"

text \<open>Instructions that read two registers and write one: arithmetic, bitwise and comparison.\<close>

definition exec_binary :: "IRInstruction \<Rightarrow> ExecutionContext \<Rightarrow> ExecutionContext res" where
  "exec_binary instr ctx =
     (let (v1, ctx1) = get_register ctx (opnd_reg instr 1);
          (v2, ctx2) = get_register ctx1 (opnd_reg instr 2) in
      bind_res (if opcode instr \<in> set COMPARE_OPS
                then compare_op v1 v2 (opcode instr) else binary_op v1 v2 (opcode instr))
        (\<lambda>r. Inr (set_register ctx2 (opnd_reg instr 0) r)))"

text \<open>\<open>AND\<close> and \<open>OR\<close> read the second register only when the first does not decide.\<close>

definition exec_logic :: "IRInstruction \<Rightarrow> ExecutionContext \<Rightarrow> ExecutionContext" where
  "exec_logic instr ctx =
     (let (v1, ctx1) = get_register ctx (opnd_reg instr 1) in
      if get_bool v1 = (opcode instr = OP_AND) then
        let (v2, ctx2) = get_register ctx1 (opnd_reg instr 2)
        in set_register ctx2 (opnd_reg instr 0) (int_of_bool (get_bool v2))
      else set_register ctx1 (opnd_reg instr 0) (int_of_bool (get_bool v1)))"

definition exec_branch :: "IRProgram \<Rightarrow> IRInstruction \<Rightarrow> ExecutionContext \<Rightarrow> ExecutionContext res" where
  "exec_branch P instr ctx =
     (let op = opcode instr in
      if op = OP_JUMP then jump_to_label (label_text P (operand instr 0)) ctx
      else if op = OP_BRANCH_ZERO \<or> op = OP_BRANCH_NOT_ZERO then
        (let (v, ctx1) = get_register ctx (opnd_reg instr 0) in
         if get_bool v = (op = OP_BRANCH_NOT_ZERO)
         then jump_to_label (label_text P (operand instr 1)) ctx1 else Inr ctx1)
      else
        (let (v1, ctx1) = get_register ctx (opnd_reg instr 0);
             (v2, ctx2) = get_register ctx1 (opnd_reg instr 1) in
         bind_res (fused_branch_taken v1 v2 op) (\<lambda>taken.
           if taken then jump_to_label (label_text P (operand instr 2)) ctx2 else Inr ctx2)))"

definition exec_switch :: "IRProgram \<Rightarrow> IRInstruction \<Rightarrow> ExecutionContext \<Rightarrow> ExecutionContext res" where
  "exec_switch P instr ctx =
     (let (subject, ctx1) = get_register ctx (opnd_reg instr 0) in
      case subject of
        VInt value \<Rightarrow>
          (let base = opnd_imm instr 1; count = opnd_imm instr 2 in
           if sint value < sint base then Inr ctx1
           else bind_res (signed_add64 base count) (\<lambda>limit.
             if sint limit \<le> sint value then Inr ctx1
             else jump_to_label
               (label_text P (operand instr (3 + unat (value - base)))) ctx1))
      | _ \<Rightarrow> Inr ctx1)"

text \<open>The registers of a call's argument list; \<open>static_cast<int>\<close> keeps the low 32 bits.\<close>

definition arg_count :: "int64 \<Rightarrow> int" where
  "arg_count c = sint (ucast c :: 32 word)"

definition arg_registers :: "IRInstruction \<Rightarrow> nat \<Rightarrow> int \<Rightarrow> int list" where
  "arg_registers instr first n = map (\<lambda>i. opnd_reg instr (first + i)) [0..<nat n]"

type_synonym callee = "string \<Rightarrow> Value list \<Rightarrow> Value list \<Rightarrow> (Value \<times> Value list) res"

definition exec_call ::
  "callee \<Rightarrow> IRProgram \<Rightarrow> IRInstruction \<Rightarrow> ExecutionContext \<times> Value list \<Rightarrow>
   (ExecutionContext \<times> Value list) res" where
  "exec_call call P instr st =
     (let (ctx, gs) = st;
          func_name = label_text P (operand instr 0);
          (args, ctx1) = get_registers ctx (arg_registers instr 3 (arg_count (opnd_imm instr 2))) in
      bind_res (call func_name args gs) (\<lambda>(result, gs1).
        Inr (set_register ctx1 (opnd_reg instr 1) result, gs1)))"

definition exec_global_call :: "libm \<Rightarrow> IRInstruction \<Rightarrow> ExecutionContext \<Rightarrow> ExecutionContext res" where
  "exec_global_call lm instr ctx =
     (let n = arg_count (opnd_imm instr 3) in
      if n < 0 then Inl (StdException LengthError)
      else
        (let (args, ctx1) = get_registers ctx (arg_registers instr 4 n) in
         bind_res (global_call_value lm (global_fn_of (opnd_imm instr 1)) args) (\<lambda>v.
           Inr (set_register ctx1 (opnd_reg instr 0) v))))"

definition exec_return :: "ExecutionContext \<Rightarrow> ExecutionContext" where
  "exec_return ctx = ctx\<lparr>returned := True,
     return_value := (case registers ctx RETURN_REGISTER of Some v \<Rightarrow> v | None \<Rightarrow> VInt 0)\<rparr>"

abbreviation (input) no_globals ::
  "ExecutionContext res \<Rightarrow> Value list \<Rightarrow> (ExecutionContext \<times> Value list) res" where
  "no_globals r gs \<equiv> bind_res r (\<lambda>ctx. Inr (ctx, gs))"

definition LOAD_OPS :: "IROpcode list" where
  "LOAD_OPS = [OP_LOAD_IMM, OP_LOAD_NIL, OP_LOAD_BOOL, OP_LOAD_FLOAT_IMM, OP_LOAD_STRING,
     OP_LOAD_GLOBAL]"

definition UNARY_OPS :: "IROpcode list" where
  "UNARY_OPS = [OP_CONVERT, OP_COERCE, OP_MOVE, OP_TYPE_TEST, OP_TYPE_TEST_MASK, OP_TYPE_OF,
     OP_NEG, OP_NOT, OP_BIT_NOT]"

definition BINARY_OPS :: "IROpcode list" where
  "BINARY_OPS = [OP_ADD, OP_SUB, OP_MUL, OP_DIV, OP_MOD, OP_BIT_AND, OP_BIT_OR, OP_BIT_XOR,
     OP_SHL, OP_SHR] @ COMPARE_OPS"

definition BRANCH_OPS :: "IROpcode list" where
  "BRANCH_OPS = [OP_JUMP, OP_BRANCH_ZERO, OP_BRANCH_NOT_ZERO, OP_BRANCH_EQ, OP_BRANCH_NEQ,
     OP_BRANCH_LT, OP_BRANCH_LTE, OP_BRANCH_GT, OP_BRANCH_GTE]"

definition SKIP_OPS :: "IROpcode list" where
  "SKIP_OPS = [OP_SCOPE_MARK, OP_SCOPE_RELEASE, OP_LABEL, OP_BREAKPOINT]"

text \<open>Every opcode not dispatched here needs the host and throws.\<close>

definition execute_instruction ::
  "callee \<Rightarrow> libm \<Rightarrow> IRProgram \<Rightarrow> IRInstruction \<Rightarrow> ExecutionContext \<times> Value list \<Rightarrow>
   (ExecutionContext \<times> Value list) res" where
  "execute_instruction call lm P instr st =
     (let (ctx, gs) = st; op = opcode instr in
      if op \<in> set LOAD_OPS then no_globals (exec_load P gs instr ctx) gs
      else if op \<in> set SKIP_OPS then Inr (ctx, gs)
      else if op = OP_STORE_GLOBAL then exec_store_global instr (ctx, gs)
      else if op \<in> set UNARY_OPS then no_globals (exec_unary instr ctx) gs
      else if op \<in> set BINARY_OPS then no_globals (exec_binary instr ctx) gs
      else if op = OP_AND \<or> op = OP_OR then Inr (exec_logic instr ctx, gs)
      else if op \<in> set BRANCH_OPS then no_globals (exec_branch P instr ctx) gs
      else if op = OP_SWITCH then no_globals (exec_switch P instr ctx) gs
      else if op = OP_CALL then exec_call call P instr (ctx, gs)
      else if op = OP_GLOBAL_CALL then no_globals (exec_global_call lm instr ctx) gs
      else if op = OP_RETURN then Inr (exec_return ctx, gs)
      else opt_error NeedsHost)"

section \<open>One activation\<close>

definition collect_labels :: "IRProgram \<Rightarrow> IRInstruction list \<Rightarrow> string \<Rightarrow> nat option" where
  "collect_labels P is = fold (\<lambda>(i, instr) m.
     if opcode instr = OP_LABEL \<and> operands instr \<noteq> [] \<and> is_label (operands instr ! 0)
     then m(label_text P (operands instr ! 0) \<mapsto> i) else m) (enumerate 0 is) Map.empty"

text \<open>The loop body: execute, then advance unless a branch moved the program counter.\<close>

definition step ::
  "callee \<Rightarrow> libm \<Rightarrow> IRProgram \<Rightarrow> IRInstruction list \<Rightarrow> ExecutionContext \<times> Value list \<Rightarrow>
   (ExecutionContext \<times> Value list) res" where
  "step call lm P is st =
     (let old = pc (fst st) in
      bind_res (execute_instruction call lm P (is ! old) st) (\<lambda>(ctx, gs).
        Inr (if \<not> returned ctx \<and> pc ctx = old then ctx\<lparr>pc := old + 1\<rparr> else ctx, gs)))"

definition running :: "IRInstruction list \<Rightarrow> ExecutionContext \<Rightarrow> bool" where
  "running is ctx = (pc ctx < length is \<and> \<not> returned ctx)"

primrec execute_steps ::
  "callee \<Rightarrow> libm \<Rightarrow> IRProgram \<Rightarrow> IRInstruction list \<Rightarrow> nat \<Rightarrow> ExecutionContext \<times> Value list \<Rightarrow>
   (ExecutionContext \<times> Value list) res" where
  "execute_steps call lm P is 0 st =
     (if running is (fst st) then opt_error StepLimitExceeded else Inr st)"
| "execute_steps call lm P is (Suc n) st =
     (if running is (fst st)
      then bind_res (step call lm P is st) (execute_steps call lm P is n) else Inr st)"

definition MAX_STEPS :: nat where
  "MAX_STEPS = 20000000"

definition MAX_CALL_DEPTH :: nat where
  "MAX_CALL_DEPTH = 256"

definition execute_body ::
  "callee \<Rightarrow> libm \<Rightarrow> IRProgram \<Rightarrow> IRFunction \<Rightarrow> ExecutionContext \<times> Value list \<Rightarrow>
   (ExecutionContext \<times> Value list) res" where
  "execute_body call lm P func st =
     (let (ctx, gs) = st in
      execute_steps call lm P (instructions func) MAX_STEPS
        (ctx\<lparr>labels := labels ctx ++ collect_labels P (instructions func), pc := 0\<rparr>, gs))"

section \<open>Calls\<close>

definition function_map :: "IRProgram \<Rightarrow> string \<Rightarrow> IRFunction option" where
  "function_map P name = List.find (\<lambda>f. func_name f = name) (rev (prog_functions P))"

fun bind_args :: "nat \<Rightarrow> Value list \<Rightarrow> string list \<Rightarrow> (int \<Rightarrow> Value option) \<Rightarrow> int \<Rightarrow> Value option" where
  "bind_args i (v # vs) (p # ps) regs = bind_args (Suc i) vs ps (regs(int i \<mapsto> v))"
| "bind_args i _ _ regs = regs"

definition entry_context :: "IRFunction \<Rightarrow> Value list \<Rightarrow> ExecutionContext" where
  "entry_context func args =
     empty_context\<lparr>registers := bind_args 0 args (parameters func) Map.empty\<rparr>"

text \<open>What \<open>call\<close> makes of a finished activation.\<close>

definition call_result :: "ExecutionContext \<times> Value list \<Rightarrow> Value \<times> Value list" where
  "call_result st = (if returned (fst st) then return_value (fst st) else VNil, snd st)"

text \<open>
  \<open>call_at d\<close> is \<open>call\<close> with \<open>d\<close> activations left before the depth limit. The opcode \<open>CALL\<close>
  looks the callee up before it calls, so a missing function throws there.
\<close>

primrec call_at :: "libm \<Rightarrow> IRProgram \<Rightarrow> nat \<Rightarrow> callee" where
  "call_at lm P 0 name args gs = (case function_map P name of
     None \<Rightarrow> opt_error UnknownFunction
   | Some func \<Rightarrow> opt_error CallDepthExceeded)"
| "call_at lm P (Suc d) name args gs = (case function_map P name of
     None \<Rightarrow> opt_error UnknownFunction
   | Some func \<Rightarrow>
       bind_res (execute_body (call_at lm P d) lm P func (entry_context func args, gs))
         (\<lambda>st. Inr (call_result st)))"

definition execute_function ::
  "libm \<Rightarrow> IRProgram \<Rightarrow> IRFunction \<Rightarrow> ExecutionContext \<times> Value list \<Rightarrow>
   (ExecutionContext \<times> Value list) res" where
  "execute_function lm P func st = execute_body (call_at lm P (MAX_CALL_DEPTH - 1)) lm P func st"

text \<open>\<open>call\<close> from outside: an unknown name leaves an error message and answers zero.\<close>

definition interp_call ::
  "libm \<Rightarrow> IRProgram \<Rightarrow> string \<Rightarrow> Value list \<Rightarrow> Value list \<Rightarrow> (Value \<times> Value list) res" where
  "interp_call lm P name args gs = (case function_map P name of
     None \<Rightarrow> Inr (VInt 0, gs)
   | Some func \<Rightarrow> call_at lm P MAX_CALL_DEPTH name args gs)"

section \<open>Globals\<close>

definition initial_value :: "IRGlobalVar \<Rightarrow> Value res" where
  "initial_value g = (case (gv_init_type g, gv_init_value g) of
     (INIT_INT, IVInt i) \<Rightarrow> Inr (VInt i)
   | (INIT_FLOAT, IVFloat d) \<Rightarrow> Inr (VFloat d)
   | (INIT_STRING, IVString s) \<Rightarrow> Inr (VString s)
   | (INIT_BOOL, IVBool b) \<Rightarrow> Inr (VBool b)
   | (t, _) \<Rightarrow> if t \<in> {INIT_INT, INIT_FLOAT, INIT_STRING, INIT_BOOL}
               then Inl (StdException BadVariantAccess) else Inr VNil)"

definition initialize_globals :: "libm \<Rightarrow> IRProgram \<Rightarrow> Value list res" where
  "initialize_globals lm P =
     bind_res (map_res initial_value (prog_globals P)) (\<lambda>gs0.
     bind_res (if has_global_init P
               then bind_res (execute_function lm P (global_init P) (empty_context, gs0))
                      (\<lambda>st. Inr (snd st))
               else Inr gs0) (\<lambda>gs1.
       if has_member_init P
       then bind_res (execute_function lm P (member_init P) (empty_context, gs1))
              (\<lambda>st. Inr (snd st))
       else Inr gs1))"

end
