(* ===== verification/Semantics.thy ===== *)
theory Semantics
  imports Interpreter Verifier
begin

text \<open>
  What one instruction does, apart from where it stands. \<open>instr_effect\<close> gives the value an
  instruction writes, the label it jumps to and the globals it leaves, from the values of
  the registers it reads; \<open>exec_effect\<close> shows that the interpreter implements it for
  operands the verifier accepts, and \<open>view_effect\<close> that it depends on the instruction only
  through what it reads. The correctness of every optimisation pass rests on these two.
\<close>

section \<open>Effects\<close>

definition operands_ok :: "IRInstruction \<Rightarrow> bool" where
  "operands_ok instr \<longleftrightarrow> check_instruction_operands instr = Inr ()"

type_synonym effect = "Value option \<times> string option \<times> Value list"

abbreviation (input) reg_val :: "(int \<Rightarrow> Value) \<Rightarrow> IRInstruction \<Rightarrow> nat \<Rightarrow> Value" where
  "reg_val rd instr j \<equiv> rd (reg_index (operand instr j))"

definition jump_effect :: "IRProgram \<Rightarrow> IRInstruction \<Rightarrow> nat \<Rightarrow> Value list \<Rightarrow> effect" where
  "jump_effect P instr j gs = (None, Some (label_text P (operand instr j)), gs)"

definition branch_effect :: "IRProgram \<Rightarrow> IRInstruction \<Rightarrow> (int \<Rightarrow> Value) \<Rightarrow> Value list \<Rightarrow> effect res" where
  "branch_effect P instr rd gs =
     (let op = opcode instr in
      if op = OP_JUMP then Inr (jump_effect P instr 0 gs)
      else if op = OP_BRANCH_ZERO \<or> op = OP_BRANCH_NOT_ZERO then
        Inr (if get_bool (reg_val rd instr 0) = (op = OP_BRANCH_NOT_ZERO)
             then jump_effect P instr 1 gs else (None, None, gs))
      else bind_res (fused_branch_taken (reg_val rd instr 0) (reg_val rd instr 1) op)
        (\<lambda>taken. Inr (if taken then jump_effect P instr 2 gs else (None, None, gs))))"

definition switch_effect :: "IRProgram \<Rightarrow> IRInstruction \<Rightarrow> (int \<Rightarrow> Value) \<Rightarrow> Value list \<Rightarrow> effect res" where
  "switch_effect P instr rd gs =
     (case reg_val rd instr 0 of
        VInt value \<Rightarrow>
          (let base = opnd_imm instr 1 in
           if sint value < sint base then Inr (None, None, gs)
           else bind_res (signed_add64 base (opnd_imm instr 2)) (\<lambda>limit.
             Inr (if sint limit \<le> sint value then (None, None, gs)
                  else jump_effect P instr (3 + unat (value - base)) gs)))
      | _ \<Rightarrow> Inr (None, None, gs))"

definition value_effect :: "Value list \<Rightarrow> Value \<Rightarrow> effect" where
  "value_effect gs v = (Some v, None, gs)"

definition instr_effect ::
  "callee \<Rightarrow> libm \<Rightarrow> IRProgram \<Rightarrow> IRInstruction \<Rightarrow> (int \<Rightarrow> Value) \<Rightarrow> Value list \<Rightarrow> effect res" where
  "instr_effect call lm P instr rd gs =
     (let op = opcode instr; v0 = reg_val rd instr 0; v1 = reg_val rd instr 1; v2 = reg_val rd instr 2 in
      if op \<in> set LOAD_OPS then bind_res (load_value P gs instr) (\<lambda>v. Inr (value_effect gs v))
      else if op \<in> set SKIP_OPS then Inr (None, None, gs)
      else if op = OP_STORE_GLOBAL then
        bind_res (checked_index (opnd_imm instr 0) gs GlobalIndexRange)
          (\<lambda>_. Inr (None, None, gs[unat (opnd_imm instr 0) := v1]))
      else if op \<in> set UNARY_OPS then bind_res (unary_value instr v1) (\<lambda>v. Inr (value_effect gs v))
      else if op \<in> set BINARY_OPS then
        bind_res (if op \<in> set COMPARE_OPS then compare_op v1 v2 op else binary_op v1 v2 op)
          (\<lambda>v. Inr (value_effect gs v))
      else if op = OP_AND \<or> op = OP_OR then
        Inr (value_effect gs (int_of_bool (if op = OP_AND then get_bool v1 \<and> get_bool v2
                                           else get_bool v1 \<or> get_bool v2)))
      else if op \<in> set BRANCH_OPS then branch_effect P instr rd gs
      else if op = OP_SWITCH then switch_effect P instr rd gs
      else if op = OP_CALL then
        bind_res (call (label_text P (operand instr 0))
                    (map rd (arg_registers instr 3 (arg_count (opnd_imm instr 2)))) gs)
          (\<lambda>(v, gs1). Inr (value_effect gs1 v))
      else if op = OP_GLOBAL_CALL then
        (if arg_count (opnd_imm instr 3) < 0 then Inl (StdException LengthError)
         else bind_res (global_call_value lm (global_fn_of (opnd_imm instr 1))
                (map rd (arg_registers instr 4 (arg_count (opnd_imm instr 3)))))
           (\<lambda>v. Inr (value_effect gs v)))
      else opt_error NeedsHost)"

definition apply_effect :: "int \<Rightarrow> ExecutionContext \<Rightarrow> effect \<Rightarrow> (ExecutionContext \<times> Value list) res" where
  "apply_effect dst ctx e =
     (let (w, j, gs) = e; ctx1 = (case w of None \<Rightarrow> ctx | Some v \<Rightarrow> set_register ctx dst v) in
      case j of None \<Rightarrow> Inr (ctx1, gs)
      | Some l \<Rightarrow> bind_res (jump_to_label l ctx1) (\<lambda>c. Inr (c, gs)))"

definition DST0_OPS :: "IROpcode list" where
  "DST0_OPS = LOAD_OPS @ UNARY_OPS @ BINARY_OPS @ [OP_AND, OP_OR, OP_GLOBAL_CALL]"

definition NO_DST_OPS :: "IROpcode list" where
  "NO_DST_OPS = SKIP_OPS @ BRANCH_OPS @ [OP_STORE_GLOBAL, OP_SWITCH, OP_RETURN]"

definition same_view :: "IRInstruction \<Rightarrow> (int \<Rightarrow> Value) \<Rightarrow> IRInstruction \<Rightarrow> (int \<Rightarrow> Value) \<Rightarrow> bool" where
  "same_view instr rd instr' rd' \<longleftrightarrow>
     opcode instr' = opcode instr \<and> type_hint instr' = type_hint instr \<and>
     length (operands instr') = length (operands instr) \<and>
     (\<forall>j < length (operands instr).
        if is_register (operands instr ! j)
        then ir_reads_operand instr j \<longrightarrow>
          rd' (reg_index (operands instr' ! j)) = rd (reg_index (operands instr ! j))
        else operands instr' ! j = operands instr ! j)"

section \<open>Operands of accepted instructions\<close>

lemma operands_okD:
  assumes "operands_ok instr" and "sig = signature (ir_opcode_info (opcode instr))"
  shows "fixed_count sig \<le> length (operands instr)"
    "is_variadic sig \<or> length (operands instr) \<le> length sig"
    "j < length (operands instr) \<Longrightarrow> operand_matches (operands instr ! j) (kind_at sig j)"
  using assms by (auto simp: operands_ok_def check_instruction_operands_def Let_def res_simps)

lemma matches_reg: "operand_matches v k \<Longrightarrow> k \<in> {DST, INOUT, SRC, SRC_LIST} \<Longrightarrow> is_register v"
  by (simp add: operand_matches_def)

lemma fixed_operand:
  assumes "operands_ok instr" "sig = signature (ir_opcode_info (opcode instr))" "j < fixed_count sig"
  shows "j < length (operands instr)" "operand_matches (operands instr ! j) (sig ! j)"
proof -
  show j: "j < length (operands instr)" using operands_okD(1)[OF assms(1,2)] assms(3) by simp
  show "operand_matches (operands instr ! j) (sig ! j)"
    using operands_okD(3)[OF assms(1,2) j] assms(3) by (simp add: kind_at_def)
qed

lemma collect_reads_iff:
  assumes "opcode instr \<noteq> OP_RETURN"
  shows "r \<in> set (ir_collect_read_registers instr) \<longleftrightarrow>
    (\<exists>j < length (operands instr). operands instr ! j = Reg r \<and>
       kind_at (signature (ir_opcode_info (opcode instr))) j \<noteq> DST)"
  using assms by (auto simp: ir_collect_read_registers_def ir_reads_operand_def is_register_iff image_iff)

lemma read_operand:
  assumes "operands_ok instr" "opcode instr \<noteq> OP_RETURN" "j < length (operands instr)"
    and "kind_at (signature (ir_opcode_info (opcode instr))) j \<in> {SRC, INOUT, SRC_LIST}"
  shows "reg_index (operand instr j) \<in> set (ir_collect_read_registers instr)"
proof -
  from operands_okD(3)[OF assms(1) refl assms(3)] assms(4)
  have "is_register (operands instr ! j)" by (auto intro: matches_reg)
  then obtain r where "operands instr ! j = Reg r" by (auto simp: is_register_iff)
  with assms show ?thesis by (auto simp: collect_reads_iff[OF assms(2)] intro!: exI[of _ j])
qed

lemmas signature_eval = fixed_count_def is_variadic_def kind_at_def

lemma find_upt_0: "P 0 \<Longrightarrow> 0 < n \<Longrightarrow> List.find P [0..<n] = Some 0"
  by (simp add: upt_conv_Cons)

lemmas op_lists = LOAD_OPS_def UNARY_OPS_def BINARY_OPS_def COMPARE_OPS_def BRANCH_OPS_def SKIP_OPS_def

lemma destination_index_0:
  "op \<in> set DST0_OPS \<Longrightarrow> ir_destination_operand_index op = 0 \<and>
     0 < fixed_count (signature (ir_opcode_info op)) \<and> signature (ir_opcode_info op) ! 0 = DST"
  by (auto simp: DST0_OPS_def op_lists ir_destination_operand_index_def signature_eval find_upt_0)

lemma destination_0:
  assumes "operands_ok instr" "opcode instr \<in> set DST0_OPS"
  shows "ir_destination_register instr = reg_index (operand instr 0) \<and> is_register (operand instr 0)"
proof -
  note d = destination_index_0[OF assms(2)]
  have "0 < length (operands instr)" "is_register (operands instr ! 0)"
    using fixed_operand[OF assms(1) refl, of 0] d by (auto simp: operand_matches_def)
  then show ?thesis using d by (auto simp: ir_destination_register_def is_register_iff Let_def)
qed

lemma destination_call:
  assumes "operands_ok instr" "opcode instr = OP_CALL"
  shows "ir_destination_register instr = reg_index (operand instr 1) \<and> is_register (operand instr 1)"
proof -
  have "ir_destination_operand_index OP_CALL = 1"
    by (simp add: ir_destination_operand_index_def signature_eval upt_rec numeral_2_eq_2)
  moreover have "Suc 0 < length (operands instr)" "is_register (operands instr ! Suc 0)"
    using fixed_operand[OF assms(1) refl, of 1] assms(2) by (auto simp: operand_matches_def signature_eval)
  ultimately show ?thesis using assms(2) by (auto simp: ir_destination_register_def is_register_iff Let_def)
qed

lemma destination_none:
  "opcode instr \<in> set NO_DST_OPS \<Longrightarrow> ir_destination_register instr = - 1"
  by (auto simp: NO_DST_OPS_def op_lists ir_destination_register_def ir_destination_operand_index_def
    signature_eval upt_rec numeral_2_eq_2)

lemma get_register_defined [simp]: "registers ctx r = Some v \<Longrightarrow> get_register ctx r = (v, ctx)"
  by (simp add: get_register_def)

lemma get_registers_defined:
  "\<forall>r \<in> set rs. registers ctx r = Some (rd r) \<Longrightarrow> get_registers ctx rs = (map rd rs, ctx)"
  by (induction rs) auto

lemma reads_unary:
  assumes "operands_ok instr" "opcode instr \<in> set (UNARY_OPS @ BINARY_OPS @ [OP_AND, OP_OR, OP_STORE_GLOBAL])"
  shows "reg_index (operand instr 1) \<in> set (ir_collect_read_registers instr)"
  by (rule read_operand) (use assms fixed_operand(1)[OF assms(1) refl, of 1] in \<open>auto simp: op_lists signature_eval\<close>)

lemma reads_binary:
  assumes "operands_ok instr" "opcode instr \<in> set (BINARY_OPS @ [OP_AND, OP_OR])"
  shows "reg_index (operand instr 2) \<in> set (ir_collect_read_registers instr)"
  by (rule read_operand) (use assms fixed_operand(1)[OF assms(1) refl, of 2] in \<open>auto simp: op_lists signature_eval numeral_2_eq_2\<close>)

lemma reads_branch0:
  assumes "operands_ok instr" "opcode instr \<in> set BRANCH_OPS \<union> {OP_SWITCH}" "opcode instr \<noteq> OP_JUMP"
  shows "reg_index (operand instr 0) \<in> set (ir_collect_read_registers instr)"
  by (rule read_operand) (use assms fixed_operand(1)[OF assms(1) refl, of 0] in \<open>auto simp: op_lists signature_eval\<close>)

lemma reads_branch1:
  assumes "operands_ok instr" "opcode instr \<in> set BRANCH_OPS"
    "opcode instr \<notin> {OP_JUMP, OP_BRANCH_ZERO, OP_BRANCH_NOT_ZERO}"
  shows "reg_index (operand instr 1) \<in> set (ir_collect_read_registers instr)"
  by (rule read_operand) (use assms fixed_operand(1)[OF assms(1) refl, of 1] in \<open>auto simp: op_lists signature_eval\<close>)

lemma sint_eq_uint_if_nonneg:
  fixes w :: "'a::len word"
  assumes "0 \<le> sint w"
  shows "sint w = uint w"
proof -
  have "sint w < 2 ^ LENGTH('a)"
    using sint_lt[of w] by (rule less_le_trans) (simp add: power_increasing)
  then show ?thesis using assms by (simp add: uint_sint take_bit_int_eq_self)
qed

lemma arg_count_le: "nat (arg_count c) \<le> unat c"
proof (cases "arg_count c < 0")
  case False
  have "nat (sint w) \<le> unat w" if "0 \<le> sint w" for w :: "32 word"
    by (simp only: sint_eq_uint_if_nonneg[OF that] unat_eq_nat_uint order_refl)
  moreover have "unat (ucast c :: 32 word) \<le> unat c"
    by (simp add: unsigned_ucast_eq take_bit_nat_less_eq_self)
  ultimately show ?thesis using False unfolding arg_count_def by (meson le_trans not_less)
qed simp

lemma unat_nonneg:
  assumes "0 \<le> sint (x :: int64)"
  shows "unat x < 2 ^ 63"
proof -
  have "uint x < 2 ^ 63"
    using sint_range64[of x] sint_eq_uint_if_nonneg[OF assms] by linarith
  then have "int (unat x) < 2 ^ 63" by (simp only: uint_nat)
  then show ?thesis by (metis of_nat_less_iff of_nat_numeral of_nat_power)
qed

lemma unat_count_add:
  assumes "0 \<le> sint (x :: int64)" "k < 100"
  shows "unat (of_nat k + x) = k + unat x"
proof -
  have "k + unat x < 2 ^ 64" using unat_nonneg[OF assms(1)] assms(2) by simp
  then show ?thesis by (simp add: unat_word_ariths unat_of_nat)
qed

lemma arg_index:
  assumes ok: "operands_ok instr"
    and op: "(opcode instr, k) = (OP_CALL, 2) \<or> (opcode instr, k) = (OP_GLOBAL_CALL, 3)"
    and i: "i < nat (arg_count (immediate (operand instr k)))"
  shows "Suc k + i < length (operands instr)"
    "kind_at (signature (ir_opcode_info (opcode instr))) (Suc k + i) = SRC_LIST"
proof -
  let ?sig = "signature (ir_opcode_info (opcode instr))"
  have "k < fixed_count ?sig" using op by (auto simp: signature_eval)
  then have k: "k < length (operands instr)" by (rule fixed_operand[OF ok refl])
  have "check_argument_count instr = Inr ()"
    using ok by (auto simp: operands_ok_def check_instruction_operands_def Let_def res_simps)
  then have cnt: "0 \<le> sint (immediate (operands instr ! k))"
      "length (operands instr) = unat (of_nat (Suc k) + immediate (operands instr ! k))"
    using op k by (auto simp: check_argument_count_def Let_def signature_eval res_simps
      numeral_2_eq_2 numeral_3_eq_3)
  have "unat (of_nat (Suc k) + immediate (operands instr ! k)) =
      Suc k + unat (immediate (operands instr ! k))"
    using op cnt(1) by (intro unat_count_add) auto
  then show "Suc k + i < length (operands instr)"
    using cnt(2) i arg_count_le[of "immediate (operands instr ! k)"] k by simp
  show "kind_at ?sig (Suc k + i) = SRC_LIST" using op by (auto simp: signature_eval)
qed

lemma reads_args:
  assumes ok: "operands_ok instr"
    and op: "(opcode instr, k) = (OP_CALL, 2) \<or> (opcode instr, k) = (OP_GLOBAL_CALL, 3)"
    and r: "r \<in> set (arg_registers instr (Suc k) (arg_count (immediate (operand instr k))))"
  shows "r \<in> set (ir_collect_read_registers instr)"
proof -
  obtain i where "i < nat (arg_count (immediate (operand instr k)))"
      and ri: "r = reg_index (operand instr (Suc k + i))"
    using r by (auto simp: arg_registers_def)
  from arg_index[OF ok op this(1)] show ?thesis
    unfolding ri using op by (intro read_operand[OF ok]) auto
qed

lemma apply_value_effect [simp]:
  "apply_effect d ctx (value_effect gs v) = Inr (set_register ctx d v, gs)"
  by (simp add: apply_effect_def value_effect_def)

lemma apply_none_effect [simp]: "apply_effect d ctx (None, None, gs) = Inr (ctx, gs)"
  by (simp add: apply_effect_def)

lemma apply_jump_effect [simp]:
  "apply_effect d ctx (jump_effect P instr j gs) =
     bind_res (jump_to_label (label_text P (operand instr j)) ctx) (\<lambda>c. Inr (c, gs))"
  by (simp add: apply_effect_def jump_effect_def)

lemma exec_branch_effect:
  assumes "operands_ok instr" "opcode instr \<in> set BRANCH_OPS"
    and rd: "\<forall>r \<in> set (ir_collect_read_registers instr). registers ctx r = Some (rd r)"
  shows "bind_res (exec_branch P instr ctx) (\<lambda>c. Inr (c, gs)) =
     bind_res (branch_effect P instr rd gs) (apply_effect d ctx)"
proof -
  have 0: "opcode instr \<noteq> OP_JUMP \<Longrightarrow> registers ctx (opnd_reg instr 0) = Some (reg_val rd instr 0)"
    using reads_branch0[of instr] assms by blast
  have 1: "opcode instr \<notin> {OP_JUMP, OP_BRANCH_ZERO, OP_BRANCH_NOT_ZERO} \<Longrightarrow>
      registers ctx (opnd_reg instr 1) = Some (reg_val rd instr 1)"
    using reads_branch1[of instr] assms by blast
  show ?thesis
    using 0 1 by (auto simp: exec_branch_def branch_effect_def Let_def bind_res_assoc intro!: bind_res_cong)
qed

lemma exec_switch_effect:
  assumes "operands_ok instr" "opcode instr = OP_SWITCH"
    and rd: "\<forall>r \<in> set (ir_collect_read_registers instr). registers ctx r = Some (rd r)"
  shows "bind_res (exec_switch P instr ctx) (\<lambda>c. Inr (c, gs)) =
     bind_res (switch_effect P instr rd gs) (apply_effect d ctx)"
proof -
  have 0: "registers ctx (opnd_reg instr 0) = Some (reg_val rd instr 0)"
    using reads_branch0[of instr] assms by force
  show ?thesis
    using 0 by (auto simp: exec_switch_def switch_effect_def Let_def bind_res_assoc split: Value.splits intro!: bind_res_cong)
qed

text \<open>An instruction other than \<open>RETURN\<close> whose operands are defined runs as its effect says.\<close>

lemma exec_effect:
  assumes ok: "operands_ok instr" and nr: "opcode instr \<noteq> OP_RETURN"
    and rd: "\<forall>r \<in> set (ir_collect_read_registers instr). registers ctx r = Some (rd r)"
  shows "execute_instruction call lm P instr (ctx, gs) =
     bind_res (instr_effect call lm P instr rd gs) (apply_effect (ir_destination_register instr) ctx)"
proof -
  let ?op = "opcode instr" and ?d = "ir_destination_register instr"
  have r1: "?op \<in> set (UNARY_OPS @ BINARY_OPS @ [OP_AND, OP_OR, OP_STORE_GLOBAL]) \<Longrightarrow>
      registers ctx (opnd_reg instr 1) = Some (reg_val rd instr 1)"
    using reads_unary[OF ok] rd by blast
  have r2: "?op \<in> set (BINARY_OPS @ [OP_AND, OP_OR]) \<Longrightarrow>
      registers ctx (opnd_reg instr 2) = Some (reg_val rd instr 2)"
    using reads_binary[OF ok] rd by blast
  have d0: "?op \<in> set DST0_OPS \<Longrightarrow> opnd_reg instr 0 = ?d"
    using destination_0[OF ok] by simp
  have call: "?op = OP_CALL \<Longrightarrow> opnd_reg instr 1 = ?d \<and>
      get_registers ctx (arg_registers instr 3 (arg_count (opnd_imm instr 2))) =
        (map rd (arg_registers instr 3 (arg_count (opnd_imm instr 2))), ctx)"
    using destination_call[OF ok] reads_args[OF ok, of 2] rd
    by (auto intro!: get_registers_defined simp: numeral_3_eq_3)
  have gcall: "?op = OP_GLOBAL_CALL \<Longrightarrow>
      get_registers ctx (arg_registers instr 4 (arg_count (opnd_imm instr 3))) =
        (map rd (arg_registers instr 4 (arg_count (opnd_imm instr 3))), ctx)"
    using reads_args[OF ok, of 3] rd by (auto intro!: get_registers_defined)
  consider "?op \<in> set LOAD_OPS" | "?op \<in> set SKIP_OPS" | "?op = OP_STORE_GLOBAL"
    | "?op \<in> set UNARY_OPS" | "?op \<in> set BINARY_OPS" | "?op = OP_AND \<or> ?op = OP_OR"
    | "?op \<in> set BRANCH_OPS" | "?op = OP_SWITCH" | "?op = OP_CALL" | "?op = OP_GLOBAL_CALL"
    | "?op \<notin> set (LOAD_OPS @ SKIP_OPS @ UNARY_OPS @ BINARY_OPS @ BRANCH_OPS @
         [OP_STORE_GLOBAL, OP_AND, OP_OR, OP_SWITCH, OP_CALL, OP_GLOBAL_CALL])"
    by auto
  then show ?thesis
  proof cases
    case 1
    then show ?thesis using d0
      by (simp add: execute_instruction_def instr_effect_def exec_load_def DST0_OPS_def bind_res_assoc)
  next
    case 2
    then show ?thesis by (auto simp: execute_instruction_def instr_effect_def op_lists)
  next
    case 3
    then show ?thesis using r1
      by (simp add: execute_instruction_def instr_effect_def exec_store_global_def op_lists
        Let_def bind_res_assoc)
  next
    case 4
    then have "?op \<notin> set LOAD_OPS" "?op \<notin> set SKIP_OPS" "?op \<noteq> OP_STORE_GLOBAL" by (auto simp: op_lists)
    with 4 show ?thesis using r1 d0
      by (simp add: execute_instruction_def instr_effect_def exec_unary_def Let_def bind_res_assoc DST0_OPS_def)
  next
    case 5
    then have "?op \<notin> set LOAD_OPS" "?op \<notin> set SKIP_OPS" "?op \<notin> set UNARY_OPS" "?op \<noteq> OP_STORE_GLOBAL" by (auto simp: op_lists)
    with 5 show ?thesis using r1 r2 d0
      by (simp add: execute_instruction_def instr_effect_def exec_binary_def Let_def bind_res_assoc DST0_OPS_def)
  next
    case 6
    then have "?op \<notin> set LOAD_OPS" "?op \<notin> set SKIP_OPS" "?op \<notin> set UNARY_OPS" "?op \<notin> set BINARY_OPS" "?op \<noteq> OP_STORE_GLOBAL" by (auto simp: op_lists)
    with 6 show ?thesis using r1 r2 d0
      by (auto simp: execute_instruction_def instr_effect_def exec_logic_def Let_def DST0_OPS_def)
  next
    case 7
    then have "?op \<notin> set LOAD_OPS" "?op \<notin> set SKIP_OPS" "?op \<notin> set UNARY_OPS" "?op \<notin> set BINARY_OPS" "?op \<noteq> OP_STORE_GLOBAL" "?op \<noteq> OP_AND" "?op \<noteq> OP_OR" by (auto simp: op_lists)
    with 7 show ?thesis
      using exec_branch_effect[OF ok 7 rd] by (simp add: execute_instruction_def instr_effect_def)
  next
    case 8
    then show ?thesis
      using exec_switch_effect[OF ok 8 rd] by (simp add: execute_instruction_def instr_effect_def op_lists)
  next
    case 9
    then show ?thesis using call
      by (simp add: execute_instruction_def instr_effect_def op_lists exec_call_def Let_def bind_res_assoc split_def)
  next
    case 10
    then show ?thesis using gcall d0
      by (simp add: execute_instruction_def instr_effect_def op_lists exec_global_call_def Let_def bind_res_assoc DST0_OPS_def)
  next
    case 11
    then show ?thesis using nr by (simp add: execute_instruction_def instr_effect_def)
  qed
qed

lemma same_viewD:
  assumes "same_view instr rd instr' rd'"
  shows "opcode instr' = opcode instr" "type_hint instr' = type_hint instr"
    "length (operands instr') = length (operands instr)"
    "j < length (operands instr) \<Longrightarrow> \<not> is_register (operands instr ! j) \<Longrightarrow>
       operands instr' ! j = operands instr ! j"
    "ir_reads_operand instr j \<Longrightarrow> reg_val rd' instr' j = reg_val rd instr j"
  using assms unfolding same_view_def ir_reads_operand_def by (auto split: if_splits)

lemma same_view_read:
  assumes "operands_ok instr" "same_view instr rd instr' rd'" "j < length (operands instr)"
    "kind_at (signature (ir_opcode_info (opcode instr))) j \<in> {SRC, SRC_LIST, INOUT}"
  shows "reg_val rd' instr' j = reg_val rd instr j"
  using same_viewD(5)[OF assms(2), of j] assms operands_okD(3)[OF assms(1) refl assms(3)]
  by (auto simp: ir_reads_operand_def operand_matches_def split: if_splits)

lemma same_view_const:
  assumes "operands_ok instr" "same_view instr rd instr' rd'"
    "j < length (operands instr) \<Longrightarrow> kind_at (signature (ir_opcode_info (opcode instr))) j \<notin> {DST, SRC, SRC_LIST, ARG_LIST, INOUT}"
  shows "operand instr' j = operand instr j"
proof (cases "j < length (operands instr)")
  case True
  have "\<not> is_register (operands instr ! j)"
    using operands_okD(3)[OF assms(1) refl True] assms(3)[OF True]
    by (cases "operands instr ! j") (auto simp: operand_matches_def is_register_def is_immediate_def is_label_def split: if_splits)
  then show ?thesis using same_viewD(3,4)[OF assms(2)] True by (simp add: operand_def)
next
  case False
  then show ?thesis using same_viewD(3)[OF assms(2)] by (simp add: operand_def)
qed

lemma same_view_args:
  assumes ok: "operands_ok instr"
    and op: "(opcode instr, k) = (OP_CALL, 2) \<or> (opcode instr, k) = (OP_GLOBAL_CALL, 3)"
    and v: "same_view instr rd instr' rd'"
  shows "map rd' (arg_registers instr' (Suc k) (arg_count (immediate (operand instr' k)))) =
    map rd (arg_registers instr (Suc k) (arg_count (immediate (operand instr k))))"
proof -
  have "operand instr' k = operand instr k"
    using op by (intro same_view_const[OF ok v]) (auto simp: signature_eval)
  then show ?thesis
    using same_view_read[OF ok v] arg_index[OF ok op] by (auto simp: arg_registers_def)
qed

lemma fixed_index:
  "operands_ok instr \<Longrightarrow> j < fixed_count (signature (ir_opcode_info (opcode instr))) \<Longrightarrow>
     j < length (operands instr)"
  using fixed_operand(1)[OF _ refl] by blast

lemma view_unary:
  assumes "operands_ok instr" "same_view instr rd instr' rd'"
    "opcode instr \<in> set (UNARY_OPS @ BINARY_OPS @ [OP_AND, OP_OR, OP_STORE_GLOBAL])"
  shows "reg_val rd' instr' 1 = reg_val rd instr 1"
  by (rule same_view_read[OF assms(1,2)]; (rule fixed_index[OF assms(1)])?)
    (use assms(3) in \<open>auto simp: op_lists signature_eval\<close>)

lemma view_binary:
  assumes "operands_ok instr" "same_view instr rd instr' rd'"
    "opcode instr \<in> set (BINARY_OPS @ [OP_AND, OP_OR])"
  shows "reg_val rd' instr' 2 = reg_val rd instr 2"
  by (rule same_view_read[OF assms(1,2)]; (rule fixed_index[OF assms(1)])?)
    (use assms(3) in \<open>auto simp: op_lists signature_eval\<close>)

lemma view_branch0:
  assumes "operands_ok instr" "same_view instr rd instr' rd'"
    "opcode instr \<in> set BRANCH_OPS \<union> {OP_SWITCH}" "opcode instr \<noteq> OP_JUMP"
  shows "reg_val rd' instr' 0 = reg_val rd instr 0"
  by (rule same_view_read[OF assms(1,2)]; (rule fixed_index[OF assms(1)])?)
    (use assms(3,4) in \<open>auto simp: op_lists signature_eval\<close>)

lemma view_branch1:
  assumes "operands_ok instr" "same_view instr rd instr' rd'"
    "opcode instr \<in> set BRANCH_OPS" "opcode instr \<notin> {OP_JUMP, OP_BRANCH_ZERO, OP_BRANCH_NOT_ZERO}"
  shows "reg_val rd' instr' 1 = reg_val rd instr 1"
  by (rule same_view_read[OF assms(1,2)]; (rule fixed_index[OF assms(1)])?)
    (use assms(3,4) in \<open>auto simp: op_lists signature_eval\<close>)

lemma view_const:
  assumes ok: "operands_ok instr" and v: "same_view instr rd instr' rd'"
  shows "opcode instr \<in> set LOAD_OPS \<Longrightarrow> operand instr' 1 = operand instr 1"
    "opcode instr \<in> {OP_JUMP, OP_STORE_GLOBAL, OP_CALL} \<Longrightarrow> operand instr' 0 = operand instr 0"
    "opcode instr \<in> {OP_BRANCH_ZERO, OP_BRANCH_NOT_ZERO, OP_GLOBAL_CALL} \<Longrightarrow> operand instr' 1 = operand instr 1"
    "opcode instr \<in> {OP_TYPE_TEST, OP_TYPE_TEST_MASK, OP_CALL} \<Longrightarrow> operand instr' 2 = operand instr 2"
    "opcode instr \<in> {OP_BRANCH_EQ, OP_BRANCH_NEQ, OP_BRANCH_LT, OP_BRANCH_LTE, OP_BRANCH_GT, OP_BRANCH_GTE}
       \<Longrightarrow> operand instr' 2 = operand instr 2"
    "opcode instr = OP_GLOBAL_CALL \<Longrightarrow> operand instr' 3 = operand instr 3"
    "opcode instr = OP_SWITCH \<Longrightarrow> 1 \<le> j \<Longrightarrow> operand instr' j = operand instr j"
proof -
  show "opcode instr = OP_SWITCH \<Longrightarrow> 1 \<le> j \<Longrightarrow> operand instr' j = operand instr j"
    by (rule same_view_const[OF ok v])
      (auto simp: signature_eval nth_Cons split: nat.splits)
qed (rule same_view_const[OF ok v]; auto simp: op_lists signature_eval)+

lemma view_load:
  assumes "operands_ok instr" "same_view instr rd instr' rd'" "opcode instr \<in> set LOAD_OPS"
  shows "load_value P gs instr' = load_value P gs instr"
  using view_const(1)[OF assms] same_viewD(1)[OF assms(2)] by (simp add: load_value_def Let_def)

lemma view_unary_value:
  assumes "operands_ok instr" "same_view instr rd instr' rd'" "opcode instr \<in> set UNARY_OPS"
  shows "unary_value instr' = unary_value instr"
  using view_const(4)[OF assms(1,2)] same_viewD(1,2)[OF assms(2)]
  by (auto simp: unary_value_def fun_eq_iff convert_value_def type_query_value_def Let_def)

lemma view_branch:
  assumes "operands_ok instr" "same_view instr rd instr' rd'" "opcode instr \<in> set BRANCH_OPS"
  shows "branch_effect P instr' rd' gs = branch_effect P instr rd gs"
  using view_const(2,3,5)[OF assms(1,2)] view_branch0[OF assms(1,2)] view_branch1[OF assms(1,2)]
    same_viewD(1)[OF assms(2)] assms(3)
  by (auto simp: branch_effect_def Let_def jump_effect_def op_lists cong: if_cong)

lemma view_switch:
  assumes "operands_ok instr" "same_view instr rd instr' rd'" "opcode instr = OP_SWITCH"
  shows "switch_effect P instr' rd' gs = switch_effect P instr rd gs"
  using view_const(7)[OF assms] view_branch0[OF assms(1,2)] assms(3)
  by (auto simp: switch_effect_def Let_def jump_effect_def split: Value.splits cong: if_cong)

text \<open>The effect depends on the instruction and the registers only through what is read.\<close>

lemma view_effect:
  assumes ok: "operands_ok instr" and v: "same_view instr rd instr' rd'"
  shows "instr_effect call lm P instr' rd' gs = instr_effect call lm P instr rd gs"
proof -
  let ?op = "opcode instr"
  note op' = same_viewD(1)[OF v]
  note u = view_unary[OF ok v] view_binary[OF ok v]
  consider "?op \<in> set LOAD_OPS" | "?op \<in> set UNARY_OPS" | "?op \<in> set BRANCH_OPS"
    | "?op = OP_SWITCH" | "?op = OP_STORE_GLOBAL" | "?op = OP_CALL" | "?op = OP_GLOBAL_CALL"
    | "?op \<in> set BINARY_OPS" | "?op \<in> {OP_AND, OP_OR}"
    | "?op \<notin> set (LOAD_OPS @ UNARY_OPS @ BINARY_OPS @ BRANCH_OPS @
         [OP_STORE_GLOBAL, OP_AND, OP_OR, OP_SWITCH, OP_CALL, OP_GLOBAL_CALL])"
    by auto
  then show ?thesis
  proof cases
    case 1 then show ?thesis using view_load[OF ok v] op' by (simp add: instr_effect_def Let_def)
  next
    case 2
    then have "?op \<notin> set LOAD_OPS" "?op \<notin> set SKIP_OPS" "?op \<noteq> OP_STORE_GLOBAL" by (auto simp: op_lists)
    with 2 show ?thesis using view_unary_value[OF ok v] op' u by (simp add: instr_effect_def Let_def)
  next
    case 3
    then have "?op \<notin> set LOAD_OPS" "?op \<notin> set SKIP_OPS" "?op \<notin> set UNARY_OPS" "?op \<notin> set BINARY_OPS" "?op \<noteq> OP_STORE_GLOBAL" "?op \<noteq> OP_AND" "?op \<noteq> OP_OR" by (auto simp: op_lists)
    with 3 show ?thesis using view_branch[OF ok v] op' by (simp add: instr_effect_def Let_def)
  next
    case 4 then show ?thesis using view_switch[OF ok v] op' by (simp add: instr_effect_def op_lists Let_def)
  next
    case 5 then show ?thesis using view_const(2)[OF ok v] op' u by (simp add: instr_effect_def op_lists Let_def)
  next
    case 6 then show ?thesis
      using view_const(2)[OF ok v] op' same_view_args[OF ok _ v, of 2]
      by (simp add: instr_effect_def op_lists Let_def)
  next
    case 7 then show ?thesis
      using view_const(3,6)[OF ok v] op' same_view_args[OF ok _ v, of 3]
      by (simp add: instr_effect_def op_lists Let_def)
  next
    case 8
    then have "?op \<notin> set LOAD_OPS" "?op \<notin> set SKIP_OPS" "?op \<notin> set UNARY_OPS" "?op \<noteq> OP_STORE_GLOBAL" by (auto simp: op_lists)
    with 8 show ?thesis using op' u by (simp add: instr_effect_def Let_def)
  next
    case 9
    then have "?op \<notin> set LOAD_OPS" "?op \<notin> set SKIP_OPS" "?op \<notin> set UNARY_OPS" "?op \<notin> set BINARY_OPS" "?op \<noteq> OP_STORE_GLOBAL" by (auto simp: op_lists)
    with 9 show ?thesis using op' u by (auto simp: instr_effect_def Let_def)
  next
    case 10 then show ?thesis using op' by (simp add: instr_effect_def Let_def)
  qed
qed

end
