(* ===== verification/Simulation.thy ===== *)
theory Simulation
  imports Semantics
begin

text \<open>
  Correctness of a transformation as a simulation. \<open>preserving_pass\<close> is the contract of an
  optimisation pass: a relation between the contexts of the original and the transformed
  activation that starts related, that every step keeps (or the original steps alone) and
  that gives the same result at the end. From it follows, once, that the transformed
  program answers every call as the original does, within the interpreter's step and depth
  limits. \<open>step_effect\<close> splits one step of the interpreter into the effect of the
  instruction and the move of the program counter.
\<close>

section \<open>Definitions\<close>

text \<open>A call that gives its callee every parameter, and a function all of whose calls do.\<close>

definition covered :: "IRProgram \<Rightarrow> string \<Rightarrow> nat \<Rightarrow> bool" where
  "covered P name n = (case function_map P name of None \<Rightarrow> True | Some g \<Rightarrow> length (parameters g) \<le> n)"

definition calls_covered :: "IRProgram \<Rightarrow> IRFunction \<Rightarrow> bool" where
  "calls_covered P f = list_all (\<lambda>i. opcode i = OP_CALL \<longrightarrow>
     covered P (label_text P (operand i 0)) (nat (arg_count (immediate (operand i 2))))) (instructions f)"

definition callee_le :: "IRProgram \<Rightarrow> callee \<Rightarrow> callee \<Rightarrow> bool" where
  "callee_le P c c' \<longleftrightarrow>
     (\<forall>n args gs r. covered P n (length args) \<longrightarrow> c n args gs = Inr r \<longrightarrow> c' n args gs = Inr r)"

definition map_functions :: "(IRFunction \<Rightarrow> IRFunction) \<Rightarrow> IRProgram \<Rightarrow> IRProgram" where
  "map_functions T P = P\<lparr>prog_functions := map T (prog_functions P)\<rparr>"

section \<open>The shape of effects\<close>

lemma effect_shape:
  assumes "instr_effect call lm P instr rd gs = Inr (w, j, gs')"
  shows "w \<noteq> None \<Longrightarrow> opcode instr \<in> set DST0_OPS \<union> {OP_CALL}"
    "w = None \<Longrightarrow> opcode instr \<in> set NO_DST_OPS"
    "j \<noteq> None \<Longrightarrow> opcode instr \<in> set BRANCH_OPS \<union> {OP_SWITCH}"
    "gs' \<noteq> gs \<Longrightarrow> opcode instr \<in> {OP_STORE_GLOBAL, OP_CALL}"
  using assms
  by (auto simp: instr_effect_def Let_def value_effect_def res_simps DST0_OPS_def NO_DST_OPS_def
    branch_effect_def switch_effect_def jump_effect_def split: if_splits Value.splits)

lemma unat_diff_less:
  assumes "sint (b :: int64) \<le> sint v" "sint v < sint b + sint (c :: int64)"
  shows "unat (v - b) < unat c"
proof -
  have 1: "sint v - sint b < 2 ^ 63" "0 \<le> sint v - sint b" "0 \<le> sint c"
    using assms sint_range64[of c] by auto
  have "signed_sub64 v b = Inr (v - b)" using 1 by (simp add: signed_sub64_def fits64_def)
  then have "sint (v - b) = sint v - sint b" by (rule signed_sub64_Inr)
  then have "uint (v - b) = sint v - sint b" using 1(2) sint_eq_uint_if_nonneg[of "v - b"] by simp
  moreover have "uint c = sint c" using 1(3) by (rule sint_eq_uint_if_nonneg[symmetric])
  ultimately have "uint (v - b) < uint c" using assms(2) by simp
  then show ?thesis by (simp only: word_less_def[symmetric] word_less_nat_alt[symmetric])
qed

lemma switch_count:
  assumes "operands_ok instr" "opcode instr = OP_SWITCH"
  shows "length (operands instr) = 3 + unat (opnd_imm instr 2)" "0 \<le> sint (opnd_imm instr 2)"
proof -
  have l: "2 < length (operands instr)" using fixed_index[OF assms(1), of 2] assms(2) by (simp add: signature_eval)
  have "check_argument_count instr = Inr ()"
    using assms(1) by (auto simp: operands_ok_def check_instruction_operands_def Let_def res_simps)
  then have *: "0 \<le> sint (opnd_imm instr 2)" "length (operands instr) = unat (of_nat 3 + opnd_imm instr 2)"
    using assms(2) l by (auto simp: check_argument_count_def Let_def signature_eval res_simps numeral_2_eq_2)
  have "unat (of_nat 3 + opnd_imm instr 2) = 3 + unat (opnd_imm instr 2)"
    by (rule unat_count_add[OF *(1)]) simp
  with * show "length (operands instr) = 3 + unat (opnd_imm instr 2)" "0 \<le> sint (opnd_imm instr 2)"
    by (simp_all only:)
qed

lemma label_operand:
  assumes "operands_ok instr" "j < length (operands instr)"
    "kind_at (signature (ir_opcode_info (opcode instr))) j \<in> {LBL, LBL_LIST}"
  shows "operand instr j \<in> set (operands instr) \<and> is_label (operand instr j)"
  using operands_okD(3)[OF assms(1) refl assms(2)] assms(2,3) by (auto simp: operand_matches_def)

lemma effect_target:
  assumes ok: "operands_ok instr"
    and e: "instr_effect call lm P instr rd gs = Inr (w, Some l, gs')"
  shows "\<exists>v \<in> set (operands instr). is_label v \<and> label_text P v = l"
proof -
  let ?sig = "signature (ir_opcode_info (opcode instr))"
  have "\<exists>j. l = label_text P (operand instr j) \<and> j < length (operands instr) \<and>
      kind_at ?sig j \<in> {LBL, LBL_LIST}"
  proof (cases "opcode instr = OP_SWITCH")
    case True
    then obtain vv where v: "reg_val rd instr 0 = VInt vv"
        "sint (opnd_imm instr 1) \<le> sint vv" "sint vv < sint (opnd_imm instr 1) + sint (opnd_imm instr 2)"
        "l = label_text P (operand instr (3 + unat (vv - opnd_imm instr 1)))"
      using e by (auto simp: instr_effect_def Let_def op_lists switch_effect_def res_simps jump_effect_def
        dest!: signed_add64_Inr split: Value.splits if_splits)
    have "unat (vv - opnd_imm instr 1) < unat (opnd_imm instr 2)"
      by (rule unat_diff_less[OF v(2,3)])
    then show ?thesis using v(4) switch_count(1)[OF ok True] True
      by (intro exI[of _ "3 + unat (vv - opnd_imm instr 1)"]) (simp add: signature_eval)
  next
    case False
    then have "opcode instr \<in> set BRANCH_OPS" using effect_shape(3)[OF e] by simp
    moreover have "opcode instr \<notin> set LOAD_OPS" "opcode instr \<notin> set SKIP_OPS" "opcode instr \<notin> set UNARY_OPS" "opcode instr \<notin> set BINARY_OPS" "opcode instr \<notin> {OP_STORE_GLOBAL, OP_AND, OP_OR}"
      using calculation by (auto simp: op_lists)
    ultimately have b: "branch_effect P instr rd gs = Inr (w, Some l, gs')"
      using e by (auto simp: instr_effect_def Let_def)
    consider "opcode instr = OP_JUMP" | "opcode instr \<in> {OP_BRANCH_ZERO, OP_BRANCH_NOT_ZERO}"
      | "opcode instr \<in> {OP_BRANCH_EQ, OP_BRANCH_NEQ, OP_BRANCH_LT, OP_BRANCH_LTE, OP_BRANCH_GT, OP_BRANCH_GTE}"
      using \<open>opcode instr \<in> set BRANCH_OPS\<close> by (auto simp: op_lists)
    then show ?thesis
    proof cases
      case 1
      with b fixed_index[OF ok, of 0] show ?thesis
        by (intro exI[of _ 0]) (auto simp: branch_effect_def jump_effect_def signature_eval)
    next
      case 2
      with b fixed_index[OF ok, of 1] show ?thesis
        by (intro exI[of _ 1]) (auto simp: branch_effect_def jump_effect_def signature_eval split: if_splits)
    next
      case 3
      with b fixed_index[OF ok, of 2] show ?thesis
        by (intro exI[of _ 2]) (auto simp: branch_effect_def jump_effect_def signature_eval res_simps split: if_splits)
    qed
  qed
  then show ?thesis using label_operand[OF ok] by blast
qed

section \<open>Runs\<close>

lemma map_functions_simps [simp]:
  "strings (map_functions T P) = strings P"
  "string_constants (map_functions T P) = string_constants P"
  "prog_functions (map_functions T P) = map T (prog_functions P)"
  by (simp_all add: map_functions_def)

text \<open>Execution looks at a program's string tables and its functions only.\<close>

definition same_tables :: "IRProgram \<Rightarrow> IRProgram \<Rightarrow> bool" where
  "same_tables P Q \<longleftrightarrow> strings Q = strings P \<and> string_constants Q = string_constants P"

lemma same_tables_map_functions [simp]: "same_tables P (map_functions T P)"
  by (simp add: same_tables_def)

lemma label_text_tables: "same_tables P Q \<Longrightarrow> label_text Q = label_text P"
  by (simp add: label_text_def fun_eq_iff same_tables_def)

lemma execute_instruction_tables:
  assumes "same_tables P Q"
  shows "execute_instruction call lm Q = execute_instruction call lm P"
proof -
  have c: "string_constants Q = string_constants P" using assms by (simp add: same_tables_def)
  show ?thesis unfolding fun_eq_iff execute_instruction_def exec_load_def load_value_def exec_branch_def
      exec_switch_def exec_call_def label_text_tables[OF assms] c by simp
qed

lemma collect_labels_tables: "same_tables P Q \<Longrightarrow> collect_labels Q is = collect_labels P is"
  unfolding collect_labels_def by (simp only: label_text_tables)

lemma execute_call: "opcode instr = OP_CALL \<Longrightarrow>
    execute_instruction call lm P instr st = exec_call call P instr st"
  by (cases st) (simp add: execute_instruction_def op_lists)

lemma execute_not_call: "opcode instr \<noteq> OP_CALL \<Longrightarrow>
    execute_instruction call lm P instr st = execute_instruction call' lm P instr st"
  by (cases st) (simp add: execute_instruction_def Let_def)

lemma length_get_registers: "get_registers ctx rs = (vs, ctx') \<Longrightarrow> length vs = length rs"
  by (induction rs arbitrary: ctx vs ctx') (auto split: prod.splits)

lemma execute_instruction_mono:
  assumes le: "callee_le P call call'" and ex: "execute_instruction call lm P instr st = Inr r"
    and cov: "opcode instr = OP_CALL \<Longrightarrow>
      covered P (label_text P (operand instr 0)) (nat (arg_count (immediate (operand instr 2))))"
  shows "execute_instruction call' lm P instr st = Inr r"
proof (cases "opcode instr = OP_CALL")
  case True
  obtain ctx gs where st: "st = (ctx, gs)" by (cases st)
  obtain args ctx1 where a: "get_registers ctx (arg_registers instr 3 (arg_count (immediate (operand instr 2)))) = (args, ctx1)"
    by fastforce
  have "length args = nat (arg_count (immediate (operand instr 2)))"
    using length_get_registers[OF a] by (simp add: arg_registers_def)
  then have c: "covered P (label_text P (operand instr 0)) (length args)" using cov[OF True] by simp
  obtain v gs1 where "call (label_text P (operand instr 0)) args gs = Inr (v, gs1)"
    using ex True a by (auto simp: st execute_call exec_call_def res_simps)
  moreover from this c le have "call' (label_text P (operand instr 0)) args gs = Inr (v, gs1)"
    unfolding callee_le_def by blast
  ultimately show ?thesis using ex True a by (simp add: st execute_call exec_call_def)
next
  case False
  then show ?thesis using ex execute_not_call[OF False, of call lm P st call'] by simp
qed

lemma step_tables: "same_tables P Q \<Longrightarrow> step call lm Q is = step call lm P is"
  by (simp add: fun_eq_iff step_def execute_instruction_tables)

lemma execute_steps_tables:
  "same_tables P Q \<Longrightarrow> execute_steps call lm Q is n = execute_steps call lm P is n"
proof (induction n)
  case (Suc n)
  then show ?case by (intro ext) (simp add: step_tables)
qed (simp add: fun_eq_iff)

lemma execute_body_tables: "same_tables P Q \<Longrightarrow> execute_body call lm Q f st = execute_body call lm P f st"
  by (simp add: execute_body_def collect_labels_tables execute_steps_tables)

lemma step_mono:
  assumes "callee_le P call call'" "calls_covered P f" "pc (fst st) < length (instructions f)"
    "step call lm P (instructions f) st = Inr r"
  shows "step call' lm P (instructions f) st = Inr r"
proof -
  let ?i = "instructions f ! pc (fst st)"
  have cov: "opcode ?i = OP_CALL \<Longrightarrow>
      covered P (label_text P (operand ?i 0)) (nat (arg_count (immediate (operand ?i 2))))"
    using assms(2) nth_mem[OF assms(3)] unfolding calls_covered_def list_all_iff by blast
  obtain y where y: "execute_instruction call lm P ?i st = Inr y"
    using assms(4) by (auto simp: step_def Let_def res_simps)
  from execute_instruction_mono[OF assms(1) y cov] y assms(4) show ?thesis by (simp add: step_def Let_def)
qed

lemma execute_steps_mono:
  assumes "callee_le P call call'" "calls_covered P f"
  shows "execute_steps call lm P (instructions f) n st = Inr r \<Longrightarrow>
    execute_steps call' lm P (instructions f) n st = Inr r"
proof (induction n arbitrary: st)
  case (Suc n)
  show ?case
  proof (cases "running (instructions f) (fst st)")
    case True
    then have "pc (fst st) < length (instructions f)" by (simp add: running_def)
    then show ?thesis using Suc True by (auto simp: res_simps dest: step_mono[OF assms])
  qed (use Suc.prems in simp)
qed simp

lemma execute_steps_more:
  "execute_steps call lm P is n st = Inr r \<Longrightarrow> n \<le> m \<Longrightarrow> execute_steps call lm P is m st = Inr r"
proof (induction n arbitrary: st m)
  case 0
  then show ?case by (cases m) (auto split: if_splits)
next
  case (Suc n)
  then obtain m' where "m = Suc m'" "n \<le> m'" by (cases m) auto
  with Suc show ?case by (auto simp: res_simps split: if_splits)
qed

lemma execute_steps_done: "\<not> running is (fst st) \<Longrightarrow> execute_steps call lm P is n st = Inr st"
  by (cases n) auto

lemma execute_steps_final: "execute_steps call lm P is n st = Inr r \<Longrightarrow> \<not> running is (fst r)"
  by (induction n arbitrary: st) (auto simp: res_simps split: if_splits)

section \<open>Passes that preserve behaviour\<close>

definition start_context :: "IRProgram \<Rightarrow> IRFunction \<Rightarrow> Value list \<Rightarrow> ExecutionContext" where
  "start_context P f args =
     (entry_context f args)\<lparr>labels := collect_labels P (instructions f), pc := 0\<rparr>"

lemma execute_body_start:
  "execute_body call lm P f (entry_context f args, gs) =
     execute_steps call lm P (instructions f) MAX_STEPS (start_context P f args, gs)"
  by (simp add: execute_body_def start_context_def entry_context_def empty_context_def)

text \<open>
  \<open>refines P f g\<close>: where an activation of \<open>f\<close> ends normally, one of \<open>g\<close> ends with the same
  result and globals, whatever its callees do. The relation composes.
\<close>

definition refines :: "IRProgram \<Rightarrow> IRFunction \<Rightarrow> IRFunction \<Rightarrow> bool" where
  "refines P f g \<longleftrightarrow> func_name g = func_name f \<and> parameters g = parameters f \<and>
     (\<forall>call lm args gs r. length (parameters f) \<le> length args \<longrightarrow>
        execute_body call lm P f (entry_context f args, gs) = Inr r \<longrightarrow>
        (\<exists>r'. execute_body call lm P g (entry_context g args, gs) = Inr r' \<and> call_result r' = call_result r))"

lemma refinesD:
  "refines P f g \<Longrightarrow> length (parameters f) \<le> length args \<Longrightarrow>
     execute_body call lm P f (entry_context f args, gs) = Inr r \<Longrightarrow>
     \<exists>r'. execute_body call lm P g (entry_context g args, gs) = Inr r' \<and> call_result r' = call_result r"
  unfolding refines_def by blast

lemma refines_refl [simp]: "refines P f f"
  by (simp add: refines_def)

lemma refines_trans: "refines P f g \<Longrightarrow> refines P g h \<Longrightarrow> refines P f h"
  unfolding refines_def by metis

lemma find_refined:
  assumes "list_all2 (refines P) fs gs"
  shows "rel_option (refines P) (List.find (\<lambda>f. func_name f = name) fs) (List.find (\<lambda>f. func_name f = name) gs)"
  using assms by (induction rule: list_all2_induct) (auto simp: refines_def)

lemma function_map_refined:
  assumes "list_all2 (refines P) (prog_functions P) (prog_functions Q)"
  shows "rel_option (refines P) (function_map P name) (function_map Q name)"
  using find_refined[of P "rev (prog_functions P)" "rev (prog_functions Q)" name] assms
  by (simp add: function_map_def)

lemma function_map_in: "function_map P name = Some f \<Longrightarrow> f \<in> set (prog_functions P)"
  by (auto simp: function_map_def find_Some_iff) (metis nth_mem set_rev length_rev)

lemma callees_refined:
  assumes t: "same_tables P Q" and fs: "list_all2 (refines P) (prog_functions P) (prog_functions Q)"
    and cov: "\<forall>f \<in> set (prog_functions P). calls_covered P f"
  shows "callee_le P (call_at lm P d) (call_at lm Q d)"
proof (induction d)
  case 0
  then show ?case by (auto simp: callee_le_def split: option.splits)
next
  case (Suc d)
  show ?case unfolding callee_le_def
  proof (intro allI impI)
    fix name args gs r
    assume c: "covered P name (length args)" and "call_at lm P (Suc d) name args gs = Inr r"
    then obtain f st where f: "function_map P name = Some f"
        and b: "execute_body (call_at lm P d) lm P f (entry_context f args, gs) = Inr st"
        and r: "r = call_result st"
      by (auto simp: res_simps split: option.splits)
    obtain g where g: "function_map Q name = Some g" "refines P f g"
      using function_map_refined[OF fs, of name] f by (auto simp: rel_option_iff split: option.splits)
    have "calls_covered P f" using cov function_map_in[OF f] by blast
    then have "execute_body (call_at lm Q d) lm P f (entry_context f args, gs) = Inr st"
      using execute_steps_mono[OF Suc] b by (simp add: execute_body_def)
    then obtain st' where "execute_body (call_at lm Q d) lm P g (entry_context g args, gs) = Inr st'"
      "call_result st' = call_result st"
      using refinesD[OF g(2)] c f by (fastforce simp: covered_def)
    then show "call_at lm Q (Suc d) name args gs = Inr r"
      using g(1) r execute_body_tables[OF t] by simp
  qed
qed

theorem program_refined:
  assumes "same_tables P Q" "list_all2 (refines P) (prog_functions P) (prog_functions Q)"
    "\<forall>f \<in> set (prog_functions P). calls_covered P f"
    "covered P name (length args)" "interp_call lm P name args gs = Inr r"
  shows "interp_call lm Q name args gs = Inr r"
  using assms(4,5) callees_refined[OF assms(1-3), of lm MAX_CALL_DEPTH] function_map_refined[OF assms(2), of name]
  by (cases r) (auto simp: interp_call_def callee_le_def rel_option_iff split: option.splits)

locale preserving_pass =
  fixes T :: "IRProgram \<Rightarrow> IRFunction \<Rightarrow> IRFunction"
    and pre :: "IRProgram \<Rightarrow> IRFunction \<Rightarrow> bool"
    and R :: "IRProgram \<Rightarrow> IRFunction \<Rightarrow> ExecutionContext \<Rightarrow> ExecutionContext \<Rightarrow> bool"
  assumes keeps_name: "func_name (T P f) = func_name f"
    and keeps_parameters: "parameters (T P f) = parameters f"
    and start: "pre P f \<Longrightarrow> length (parameters f) \<le> length args \<Longrightarrow> R P f (start_context P f args) (start_context P (T P f) args)"
    and sim: "pre P f \<Longrightarrow> R P f c c' \<Longrightarrow> running (instructions f) c \<Longrightarrow>
      step call lm P (instructions f) (c, gs) = Inr (c1, gs1) \<Longrightarrow>
        (gs1 = gs \<and> R P f c1 c') \<or>
        (running (instructions (T P f)) c' \<and>
         (\<exists>c1'. step call lm P (instructions (T P f)) (c', gs) = Inr (c1', gs1) \<and> R P f c1 c1'))"
    and finish: "pre P f \<Longrightarrow> R P f c c' \<Longrightarrow> \<not> running (instructions f) c \<Longrightarrow>
      \<not> running (instructions (T P f)) c' \<and> returned c' = returned c \<and>
      (returned c \<longrightarrow> return_value c' = return_value c)"
begin

lemma steps:
  assumes "pre P f"
  shows "execute_steps call lm P (instructions f) n (c, gs) = Inr r \<Longrightarrow> R P f c c' \<Longrightarrow>
    \<exists>r'. execute_steps call lm P (instructions (T P f)) n (c', gs) = Inr r' \<and> call_result r' = call_result r"
proof (induction n arbitrary: c c' gs)
  case 0
  then show ?case using finish[OF assms, of c c'] by (auto simp: call_result_def split: if_splits)
next
  case (Suc n)
  show ?case
  proof (cases "running (instructions f) c")
    case False
    then show ?thesis
      using Suc.prems finish[OF assms, of c c'] by (auto simp: call_result_def)
  next
    case True
    then obtain c1 gs1 where s: "step call lm P (instructions f) (c, gs) = Inr (c1, gs1)"
        and n: "execute_steps call lm P (instructions f) n (c1, gs1) = Inr r"
      using Suc.prems(1) by (auto simp: res_simps)
    from sim[OF assms Suc.prems(2) True s] show ?thesis
    proof (elim disjE conjE exE)
      assume "gs1 = gs" "R P f c1 c'"
      with Suc.IH[OF n] obtain r' where
        "execute_steps call lm P (instructions (T P f)) n (c', gs) = Inr r'" "call_result r' = call_result r"
        by blast
      then show ?thesis by (meson execute_steps_more le_SucI order_refl)
    next
      fix c1' assume "running (instructions (T P f)) c'"
        "step call lm P (instructions (T P f)) (c', gs) = Inr (c1', gs1)" "R P f c1 c1'"
      then show ?thesis using Suc.IH[OF n, of c1'] by auto
    qed
  qed
qed

lemma body:
  assumes "pre P f" "length (parameters f) \<le> length args"
    "execute_body call lm P f (entry_context f args, gs) = Inr r"
  shows "\<exists>r'. execute_body call lm P (T P f) (entry_context (T P f) args, gs) = Inr r' \<and>
    call_result r' = call_result r"
  using steps[OF assms(1) assms(3)[unfolded execute_body_start] start[OF assms(1,2)]]
  by (simp add: execute_body_start)

lemma refined: "pre P f \<Longrightarrow> refines P f (T P f)"
  unfolding refines_def using body keeps_name keeps_parameters by blast

theorem program:
  assumes "\<forall>f \<in> set (prog_functions P). pre P f \<and> calls_covered P f"
    "covered P name (length args)" "interp_call lm P name args gs = Inr r"
  shows "interp_call lm (map_functions (T P) P) name args gs = Inr r"
proof (rule program_refined[OF same_tables_map_functions _ _ assms(2,3)])
  show "list_all2 (refines P) (prog_functions P) (prog_functions (map_functions (T P) P))"
    using assms(1) refined by (simp add: list_all2_conv_all_nth)
  show "\<forall>f \<in> set (prog_functions P). calls_covered P f" using assms(1) by blast
qed

end

definition write_register :: "int \<Rightarrow> Value option \<Rightarrow> (int \<Rightarrow> Value option) \<Rightarrow> int \<Rightarrow> Value option" where
  "write_register d w regs = (case w of None \<Rightarrow> regs | Some v \<Rightarrow> regs(d \<mapsto> v))"

definition next_pc :: "(string \<Rightarrow> nat option) \<Rightarrow> nat \<Rightarrow> string option \<Rightarrow> nat option" where
  "next_pc lbls p j = (case j of None \<Rightarrow> Some (Suc p) | Some l \<Rightarrow> lbls l)"

definition take_effect ::
  "int \<Rightarrow> ExecutionContext \<Rightarrow> effect \<Rightarrow> (ExecutionContext \<times> Value list) res" where
  "take_effect d c e = (case e of (w, j, gs) \<Rightarrow>
     (case next_pc (labels c) (pc c) j of
        None \<Rightarrow> opt_error MissingLabel
      | Some p \<Rightarrow> Inr (c\<lparr>registers := write_register d w (registers c), pc := p\<rparr>, gs)))"

lemma collect_labels_Some:
  "collect_labels P is l = Some i \<Longrightarrow>
     i < length is \<and> opcode (is ! i) = OP_LABEL \<and> operands (is ! i) \<noteq> [] \<and>
     is_label (operands (is ! i) ! 0) \<and> label_text P (operands (is ! i) ! 0) = l"
proof -
  let ?f = "\<lambda>(i, instr) m.
     if opcode instr = OP_LABEL \<and> operands instr \<noteq> [] \<and> is_label (operands instr ! 0)
     then m(label_text P (operands instr ! 0) \<mapsto> i) else m"
  have "fold ?f xs m l = Some i \<Longrightarrow> m l = Some i \<or>
      (\<exists>instr. (i, instr) \<in> set xs \<and> opcode instr = OP_LABEL \<and> operands instr \<noteq> [] \<and>
        is_label (operands instr ! 0) \<and> label_text P (operands instr ! 0) = l)" for xs m
  proof (induction xs arbitrary: m)
    case (Cons x xs)
    then show ?case
      by (cases x) (auto split: if_splits dest!: Cons.IH)
  qed simp
  then show "collect_labels P is l = Some i \<Longrightarrow> ?thesis"
    by (fastforce simp: collect_labels_def set_enumerate)
qed

lemma apply_take_effect:
  assumes "\<not> returned c" "instr_effect call lm P instr rd gs = Inr e"
    "labels c = collect_labels P is" "is ! pc c = instr"
  shows "bind_res (apply_effect d c e) (\<lambda>(ctx, gs).
     Inr (if \<not> returned ctx \<and> pc ctx = pc c then ctx\<lparr>pc := pc c + 1\<rparr> else ctx, gs)) = take_effect d c e"
proof -
  obtain w j gs' where e: "e = (w, j, gs')" by (cases e)
  show ?thesis
  proof (cases j)
    case None
    then show ?thesis using assms(1)
      by (simp add: e apply_effect_def take_effect_def next_pc_def write_register_def set_register_def
        split: option.splits)
  next
    case (Some l)
    have "opcode instr \<noteq> OP_LABEL"
      using effect_shape(3)[OF assms(2)[unfolded e]] Some by (auto simp: op_lists)
    then have "labels c l \<noteq> Some (pc c)"
      using collect_labels_Some[of P "is" l "pc c"] assms(3,4) by auto
    then show ?thesis using assms(1) Some
      by (auto simp: e apply_effect_def take_effect_def next_pc_def write_register_def set_register_def
        jump_to_label_def split: option.splits)
  qed
qed

lemma step_effect:
  assumes ok: "operands_ok (is ! pc c)" and nr: "opcode (is ! pc c) \<noteq> OP_RETURN"
    and rd: "\<forall>r \<in> set (ir_collect_read_registers (is ! pc c)). registers c r = Some (rd r)"
    and l: "labels c = collect_labels P is" and r: "\<not> returned c"
  shows "step call lm P is (c, gs) =
    bind_res (instr_effect call lm P (is ! pc c) rd gs)
      (take_effect (ir_destination_register (is ! pc c)) c)"
proof (cases "instr_effect call lm P (is ! pc c) rd gs")
  case (Inr e)
  then show ?thesis
    using apply_take_effect[OF r Inr l refl] by (simp add: step_def exec_effect[OF ok nr rd])
qed (simp add: step_def exec_effect[OF ok nr rd])

lemma step_return:
  "opcode (is ! pc c) = OP_RETURN \<Longrightarrow> step call lm P is (c, gs) = Inr (exec_return c, gs)"
  by (simp add: step_def execute_instruction_def op_lists exec_return_def)

lemma take_effect_Inr:
  "take_effect d c (w, j, gs) = Inr (c1, gs1) \<longleftrightarrow> gs1 = gs \<and>
     (\<exists>p. next_pc (labels c) (pc c) j = Some p \<and>
       c1 = c\<lparr>registers := write_register d w (registers c), pc := p\<rparr>)"
  by (auto simp: take_effect_def split: option.splits)

end
