(* ===== verification/Verifier_Sound.thy ===== *)
theory Verifier_Sound
  imports Flow Simulation
begin

text \<open>
  Soundness of the verifier's analyses. The definedness loop is an instance of
  \<open>must_analysis\<close>: it ends, and at its fixed point \<open>instr_facts\<close> over-approximates every
  way of reaching an instruction, so that no accepted function reads a register before it
  is defined or jumps to a label it does not have.
\<close>

definition flow_valid :: "nat \<Rightarrow> RegisterState \<Rightarrow> bool" where
  "flow_valid n s \<longleftrightarrow> length (reg_defined s) = n \<and> length (reg_type s) = n"

definition flow_meet :: "RegisterState \<Rightarrow> RegisterState \<Rightarrow> RegisterState" where
  "flow_meet s s' = fst (merge_from s s')"

definition flow_weight :: "RegisterState \<Rightarrow> nat" where
  "flow_weight s = card {i. i < length (reg_defined s) \<and> reg_defined s ! i} +
     card {i. i < length (reg_type s) \<and> reg_type s ! i \<noteq> TYPE_UNKNOWN}"

definition flow_le :: "RegisterState \<Rightarrow> RegisterState \<Rightarrow> bool" where
  "flow_le s s' \<longleftrightarrow> length (reg_defined s) = length (reg_defined s') \<and>
     length (reg_type s) = length (reg_type s') \<and>
     (\<forall>i < length (reg_defined s). reg_defined s ! i \<longrightarrow> reg_defined s' ! i) \<and>
     (\<forall>i < length (reg_type s). reg_type s ! i \<noteq> TYPE_UNKNOWN \<longrightarrow> reg_type s' ! i = reg_type s ! i)"

lemma flow_meet_defined:
  "flow_valid n s \<Longrightarrow> flow_valid n s' \<Longrightarrow> i < n \<Longrightarrow>
     reg_defined (flow_meet s s') ! i = (reg_defined s ! i \<and> reg_defined s' ! i)"
  by (auto simp: flow_meet_def merge_from_def flow_valid_def Let_def)

lemma flow_meet_type:
  "flow_valid n s \<Longrightarrow> flow_valid n s' \<Longrightarrow> i < n \<Longrightarrow>
     reg_type (flow_meet s s') ! i =
       (if reg_type s ! i = reg_type s' ! i then reg_type s ! i else TYPE_UNKNOWN)"
  by (auto simp: flow_meet_def merge_from_def flow_valid_def Let_def)

lemma flow_valid_meet: "flow_valid n s \<Longrightarrow> flow_valid n s' \<Longrightarrow> flow_valid n (flow_meet s s')"
  by (auto simp: flow_meet_def merge_from_def flow_valid_def Let_def)

lemma flow_valid_define: "flow_valid n s \<Longrightarrow> flow_valid n (define_destination i s)"
  by (auto simp: define_destination_def flow_valid_def Let_def)

lemma flow_state_eqI:
  assumes "flow_valid n s" "flow_valid n s'" "\<And>i. i < n \<Longrightarrow> reg_defined s ! i = reg_defined s' ! i"
    "\<And>i. i < n \<Longrightarrow> reg_type s ! i = reg_type s' ! i"
  shows "s = s'"
  using assms by (auto simp: flow_valid_def intro!: RegisterState.equality nth_equalityI)

lemma merge_changed:
  assumes "flow_valid n s" "flow_valid n s'"
  shows "snd (merge_from s s') \<longleftrightarrow> flow_meet s s' \<noteq> s"
proof -
  have "snd (merge_from s s') \<longleftrightarrow> (\<exists>i < n. reg_defined s ! i \<and> \<not> reg_defined s' ! i \<or>
      reg_type s ! i \<noteq> TYPE_UNKNOWN \<and> reg_type s ! i \<noteq> reg_type s' ! i)"
    using assms by (auto simp: merge_from_def flow_valid_def Let_def list_ex_iff)
  also have "\<dots> \<longleftrightarrow> (\<exists>i < n. reg_defined (flow_meet s s') ! i \<noteq> reg_defined s ! i \<or>
      reg_type (flow_meet s s') ! i \<noteq> reg_type s ! i)"
  proof -
    have "reg_defined s ! i \<and> \<not> reg_defined s' ! i \<longleftrightarrow>
        reg_defined (flow_meet s s') ! i \<noteq> reg_defined s ! i"
      "reg_type s ! i \<noteq> TYPE_UNKNOWN \<and> reg_type s ! i \<noteq> reg_type s' ! i \<longleftrightarrow>
        reg_type (flow_meet s s') ! i \<noteq> reg_type s ! i" if "i < n" for i
      using flow_meet_defined[OF assms that] flow_meet_type[OF assms that] by auto
    then show ?thesis by blast
  qed
  also have "\<dots> \<longleftrightarrow> flow_meet s s' \<noteq> s"
    using flow_state_eqI[OF flow_valid_meet[OF assms] assms(1)] by metis
  finally show ?thesis .
qed

lemma flow_weight_meet:
  assumes "flow_valid n s" "flow_valid n s'" "flow_meet s s' \<noteq> s"
  shows "flow_weight (flow_meet s s') < flow_weight s"
proof -
  let ?m = "flow_meet s s'"
  let ?D = "\<lambda>s. {i. i < n \<and> reg_defined s ! i}" and ?T = "\<lambda>s. {i. i < n \<and> reg_type s ! i \<noteq> TYPE_UNKNOWN}"
  have w: "flow_weight s = card (?D s) + card (?T s)" "flow_weight ?m = card (?D ?m) + card (?T ?m)"
    using assms(1) flow_valid_meet[OF assms(1,2)] by (auto simp: flow_weight_def flow_valid_def)
  have sub: "?D ?m \<subseteq> ?D s" "?T ?m \<subseteq> ?T s"
    using flow_meet_defined[OF assms(1,2)] flow_meet_type[OF assms(1,2)] by (auto split: if_splits)
  have "?D ?m \<noteq> ?D s \<or> ?T ?m \<noteq> ?T s"
  proof (rule ccontr)
    assume "\<not> ?thesis"
    then have eq: "?D ?m = ?D s" "?T ?m = ?T s" by auto
    have "?m = s"
    proof (rule flow_state_eqI[OF flow_valid_meet[OF assms(1,2)] assms(1)])
      fix i assume "i < n"
      then show "reg_defined ?m ! i = reg_defined s ! i" using eq(1) by blast
      show "reg_type ?m ! i = reg_type s ! i"
        using flow_meet_type[OF assms(1,2) \<open>i < n\<close>] eq(2) \<open>i < n\<close>
        by (metis (mono_tags, lifting) mem_Collect_eq)
    qed
    with assms(3) show False by contradiction
  qed
  then have "card (?D ?m) < card (?D s) \<or> card (?T ?m) < card (?T s)"
    using sub psubset_card_mono[of "?D s" "?D ?m"] psubset_card_mono[of "?T s" "?T ?m"] by auto
  moreover have "card (?D ?m) \<le> card (?D s)" "card (?T ?m) \<le> card (?T s)"
    using sub by (auto intro!: card_mono)
  ultimately show ?thesis using w by linarith
qed

lemma flow_weight_max: "flow_valid n s \<Longrightarrow> flow_weight s \<le> 2 * n"
proof -
  assume "flow_valid n s"
  moreover have "card {i. i < n \<and> P i} \<le> n" for P
    using card_mono[of "{..<n}" "{i. i < n \<and> P i}"] by auto
  ultimately show ?thesis by (simp add: flow_weight_def flow_valid_def add_mono mult_2)
qed

interpretation def_flow: must_analysis define_destination flow_meet "flow_valid n" flow_weight
  "2 * n" flow_le UNIV for n
proof
  show "flow_valid n s \<Longrightarrow> flow_valid n (define_destination i s)" for s i
    by (rule flow_valid_define)
  show "flow_valid n s \<Longrightarrow> flow_valid n s' \<Longrightarrow> flow_valid n (flow_meet s s')" for s s'
    by (rule flow_valid_meet)
  show "flow_valid n s \<Longrightarrow> flow_valid n s' \<Longrightarrow> flow_meet s s' \<noteq> s \<Longrightarrow>
      flow_weight (flow_meet s s') < flow_weight s" for s s'
    by (rule flow_weight_meet)
  show "flow_valid n s \<Longrightarrow> flow_weight s \<le> 2 * n" for s by (rule flow_weight_max)
  show "flow_le s s" for s by (simp add: flow_le_def)
  show "flow_le a b \<Longrightarrow> flow_le b c \<Longrightarrow> flow_le a c" for a b c
    by (auto simp: flow_le_def)
  show "flow_valid n s \<Longrightarrow> flow_valid n s' \<Longrightarrow> flow_le (flow_meet s s') s"
    "flow_valid n s \<Longrightarrow> flow_valid n s' \<Longrightarrow> flow_le (flow_meet s s') s'" for s s'
    using flow_valid_meet[of n s s'] flow_meet_defined[of n s s'] flow_meet_type[of n s s']
    by (auto simp: flow_le_def flow_valid_def split: if_splits)
qed

definition flow_abs :: "flow \<Rightarrow> RegisterState solver" where
  "flow_abs fl = (case fl of (blocks, work, queued) \<Rightarrow>
     (\<lambda>b. if b < length blocks \<and> bb_entry_initialized (blocks ! b)
          then Some (bb_entry (blocks ! b)) else None, set work))"

definition flow_shape :: "BasicBlock list \<Rightarrow> flow \<Rightarrow> bool" where
  "flow_shape B fl = (case fl of (blocks, work, queued) \<Rightarrow>
     length blocks = length B \<and> length queued = length B \<and> distinct work \<and>
     set work \<subseteq> {..<length B} \<and>
     (\<forall>b < length B. queued ! b = (b \<in> set work) \<and> bb_begin (blocks ! b) = bb_begin (B ! b) \<and>
        bb_end (blocks ! b) = bb_end (B ! b) \<and> bb_successors (blocks ! b) = bb_successors (B ! b) \<and>
        bb_reachable (blocks ! b) = bb_entry_initialized (blocks ! b)))"

lemma visit_successor_cases:
  "visit_successor st (blocks, work, queued) s =
     (let tg = blocks ! s;
          e = (if bb_entry_initialized tg then flow_meet (bb_entry tg) st else st);
          ch = (\<not> bb_entry_initialized tg \<or> snd (merge_from (bb_entry tg) st));
          r = (bb_entry_initialized tg \<longrightarrow> bb_reachable tg)
      in (blocks[s := tg\<lparr>bb_entry := e, bb_entry_initialized := True, bb_reachable := r\<rparr>],
          if ch \<and> \<not> queued ! s then insort s work else work,
          if ch \<and> \<not> queued ! s then queued[s := True] else queued))"
  by (cases "blocks ! s") (auto simp: visit_successor_def Let_def flow_meet_def split_def)

lemma visit_shape:
  assumes "flow_shape B fl" "s < length B"
  shows "flow_shape B (visit_successor st fl s)"
proof -
  obtain blocks work queued where fl: "fl = (blocks, work, queued)" by (cases fl)
  have s: "set (insort s work) = insert s (set work)" "distinct work \<Longrightarrow> s \<notin> set work \<Longrightarrow> distinct (insort s work)"
    by (auto simp: set_insort_key distinct_insort)
  show ?thesis
    using assms s unfolding fl visit_successor_cases flow_shape_def
    by (auto simp: Let_def nth_list_update)
qed

lemma visit_abs:
  assumes sh: "flow_shape B fl" and s: "s < length B" and st: "flow_valid n st"
    and val: "\<forall>b e. fst (flow_abs fl) b = Some e \<longrightarrow> flow_valid n e"
  shows "flow_abs (visit_successor st fl s) = abs_visit flow_meet st (flow_abs fl) s"
proof -
  obtain blocks work queued where fl: "fl = (blocks, work, queued)" by (cases fl)
  have len: "length blocks = length B" "queued ! s = (s \<in> set work)"
    using sh s by (auto simp: flow_shape_def fl)
  show ?thesis
  proof (cases "bb_entry_initialized (blocks ! s)")
    case False
    then show ?thesis using len s unfolding fl visit_successor_cases
      by (auto simp: flow_abs_def abs_visit_def Let_def set_insort_key fun_eq_iff nth_list_update)
  next
    case True
    then have "flow_valid n (bb_entry (blocks ! s))"
      using val len s by (auto simp: fl flow_abs_def split: if_splits)
    then have "snd (merge_from (bb_entry (blocks ! s)) st) \<longleftrightarrow> flow_meet (bb_entry (blocks ! s)) st \<noteq> bb_entry (blocks ! s)"
      using merge_changed st by blast
    then show ?thesis using len s True unfolding fl visit_successor_cases
      by (auto simp: flow_abs_def abs_visit_def Let_def set_insort_key fun_eq_iff nth_list_update)
  qed
qed

lemma fold_visit_abs:
  assumes "flow_shape B fl" "set ss \<subseteq> {..<length B}" "flow_valid n st"
    "\<forall>b e. fst (flow_abs fl) b = Some e \<longrightarrow> flow_valid n e"
  shows "flow_shape B (foldl (visit_successor st) fl ss) \<and>
    flow_abs (foldl (visit_successor st) fl ss) = foldl (abs_visit flow_meet st) (flow_abs fl) ss"
  using assms
proof (induction ss arbitrary: fl)
  case (Cons s ss)
  let ?fl = "visit_successor st fl s"
  have sh: "flow_shape B ?fl" using Cons.prems by (auto intro: visit_shape)
  have abs: "flow_abs ?fl = abs_visit flow_meet st (flow_abs fl) s"
    using Cons.prems by (intro visit_abs) auto
  have "\<forall>b e. fst (flow_abs ?fl) b = Some e \<longrightarrow> flow_valid n e"
    unfolding abs by (rule def_flow.visit_valid[OF Cons.prems(3,4)])
  with Cons.IH[OF sh _ Cons.prems(3)] Cons.prems(2) abs show ?case by simp
qed simp

definition flow_inv :: "IRFunction \<Rightarrow> BasicBlock list \<Rightarrow> flow \<Rightarrow> bool" where
  "flow_inv f B fl \<longleftrightarrow> flow_shape B fl \<and>
     solver_inv (flow_valid (register_count f)) flow_le (\<lambda>b. transfer f (B ! b))
       (\<lambda>b. bb_successors (B ! b)) (entry_state f) (length B) (flow_abs fl)"

lemma transfer_all_fold: "transfer_all is s = fold define_destination is s"
  by (induction "is" arbitrary: s) auto

lemma transfer_fold: "transfer f b s = fold define_destination (block_code f b) s"
  by (simp add: transfer_def transfer_all_fold)

lemma flow_valid_transfer: "flow_valid n s \<Longrightarrow> flow_valid n (transfer f b s)"
  unfolding transfer_fold by (rule def_flow.valid_fold) auto

lemma transfer_skeleton:
  "bb_begin b = bb_begin b' \<Longrightarrow> bb_end b = bb_end b' \<Longrightarrow> transfer f b = transfer f b'"
  by (simp add: fun_eq_iff transfer_def block_code_def)

lemma flow_step_inv:
  assumes inv: "flow_inv f B (blocks, work, queued)" and w: "work \<noteq> []"
    and succs: "\<And>b. b < length B \<Longrightarrow> set (bb_successors (B ! b)) \<subseteq> {..<length B}"
  shows "flow_inv f B (flow_step f (blocks, work, queued))"
    "(flow_step f (blocks, work, queued), (blocks, work, queued)) \<in>
       measures [\<lambda>fl. solver_weight flow_weight (2 * register_count f) (length B) (fst (flow_abs fl)),
                 \<lambda>(_, work, _). length work]"
proof -
  let ?n = "register_count f" and ?i = "hd work" and ?fl = "(blocks, tl work, queued[hd work := False])"
  have sh: "flow_shape B (blocks, work, queued)"
    and si: "solver_inv (flow_valid ?n) flow_le (\<lambda>b. transfer f (B ! b)) (\<lambda>b. bb_successors (B ! b))
       (entry_state f) (length B) (flow_abs (blocks, work, queued))"
    using inv by (auto simp: flow_inv_def)
  have "set work \<subseteq> {..<length B}" using sh by (simp add: flow_shape_def)
  then have i: "?i \<in> set work" "?i < length B" using hd_in_set[OF w] by blast+
  have dist: "?i \<notin> set (tl work)" "distinct (tl work)" "set work = insert ?i (set (tl work))"
    using w sh by (cases work; auto simp: flow_shape_def)+
  have sh': "flow_shape B ?fl"
    using sh dist i by (auto simp: flow_shape_def nth_list_update)
  define E where "E = fst (flow_abs (blocks, work, queued))"
  have abs: "flow_abs (blocks, work, queued) = (E, set work)" "flow_abs ?fl = (E, set (tl work))"
    by (auto simp: E_def flow_abs_def)
  have val: "\<forall>b e. E b = Some e \<longrightarrow> flow_valid ?n e"
    using si unfolding abs(1) by (auto simp: solver_inv_def)
  obtain e where e: "E ?i = Some e" using si i unfolding abs(1) by (auto simp: solver_inv_def)
  have be: "bb_entry (blocks ! ?i) = e"
    using e by (auto simp: E_def flow_abs_def split: if_splits)
  have tr: "transfer f (blocks ! ?i) = transfer f (B ! ?i)"
    and sc: "bb_successors (blocks ! ?i) = bb_successors (B ! ?i)"
    using sh i by (auto simp: flow_shape_def intro!: transfer_skeleton)
  let ?out = "transfer f (B ! ?i) e"
  have out: "flow_valid ?n ?out" using val e by (auto intro: flow_valid_transfer)
  have st: "flow_step f (blocks, work, queued) = foldl (visit_successor ?out) ?fl (bb_successors (B ! ?i))"
    by (simp add: flow_step_def Let_def be tr sc)
  obtain E' W' where f: "foldl (abs_visit flow_meet ?out) (E, set (tl work)) (bb_successors (B ! ?i)) = (E', W')"
    by fastforce
  have fv: "flow_shape B (flow_step f (blocks, work, queued))"
      "flow_abs (flow_step f (blocks, work, queued)) = (E', W')"
    unfolding st using fold_visit_abs[OF sh' succs[OF i(2)] out] val f by (auto simp: abs)
  note step = def_flow.inv_step[OF si[unfolded abs(1)] i(1) e, of "set (tl work)", OF _ _ out succs[OF i(2)] f]
  show "flow_inv f B (flow_step f (blocks, work, queued))"
    using step(1) dist fv by (auto simp: flow_inv_def)
  show "(flow_step f (blocks, work, queued), (blocks, work, queued)) \<in>
       measures [\<lambda>fl. solver_weight flow_weight (2 * register_count f) (length B) (fst (flow_abs fl)),
                 \<lambda>(_, work, _). length work]"
  proof -
    obtain bl wk qu where r: "flow_step f (blocks, work, queued) = (bl, wk, qu)" by (cases "flow_step f (blocks, work, queued)")
    have "distinct wk" "set wk = W'" using fv r by (auto simp: flow_shape_def flow_abs_def)
    then have "W' = set (tl work) \<Longrightarrow> length wk < length work"
      using dist w by (metis distinct_card length_tl diff_less length_greater_0_conv zero_less_one)
    then show ?thesis using step(2) dist fv(2) r by (auto simp: abs)
  qed
qed

lemma flow_valid_entry: "flow_valid (register_count f) (entry_state f)"
  by (simp add: flow_valid_def entry_state_def Let_def register_state_def)

lemma flow_start_inv:
  assumes "B \<noteq> []" "\<And>b. b \<in> set B \<Longrightarrow> \<not> bb_entry_initialized b \<and> \<not> bb_reachable b"
  shows "flow_inv f B (flow_start f B)"
proof -
  have abs: "flow_abs (flow_start f B) = ([0 \<mapsto> entry_state f], {0})"
    using assms by (auto simp: flow_abs_def flow_start_def fun_eq_iff nth_list_update)
  moreover have "flow_shape B (flow_start f B)"
    using assms by (auto simp: flow_shape_def flow_start_def nth_list_update)
  ultimately show ?thesis
    using assms(1) flow_valid_entry[of f] def_flow.le_refl by (auto simp: flow_inv_def solver_inv_def split: if_splits)
qed

lemma flow_solve_Some:
  assumes "B \<noteq> []" "\<And>b. b \<in> set B \<Longrightarrow> \<not> bb_entry_initialized b \<and> \<not> bb_reachable b"
    "\<And>b. b < length B \<Longrightarrow> set (bb_successors (B ! b)) \<subseteq> {..<length B}"
  obtains solved queued where "flow_solve f B = Some (solved, [], queued)" "flow_inv f B (solved, [], queued)"
proof -
  let ?c = "\<lambda>(_ :: BasicBlock list, work :: nat list, _ :: bool list). work \<noteq> []"
  have st: "flow_inv f B fl \<Longrightarrow> ?c fl \<Longrightarrow> flow_inv f B (flow_step f fl)" for fl
    using flow_step_inv(1)[OF _ _ assms(3)] by (cases fl) auto
  let ?M = "measures [\<lambda>fl. solver_weight flow_weight (2 * register_count f) (length B) (fst (flow_abs fl)),
                 \<lambda>(_, work, _). length work]"
  have dec: "flow_inv f B fl \<Longrightarrow> ?c fl \<Longrightarrow> (flow_step f fl, fl) \<in> ?M" for fl
    using flow_step_inv(2)[OF _ _ assms(3)] by (cases fl) auto
  have "\<exists>t. while_option ?c (flow_step f) (flow_start f B) = Some t"
  proof (rule wf_while_option_Some)
    show "wf {(t, s). (flow_inv f B s \<and> ?c s) \<and> t = flow_step f s}"
    proof (rule wf_subset[OF wf_measures])
      show "{(t, s). (flow_inv f B s \<and> ?c s) \<and> t = flow_step f s} \<subseteq> ?M" using dec by blast
    qed
    show "flow_inv f B (flow_start f B)" using assms(1,2) by (rule flow_start_inv)
  qed (use st in blast)
  then obtain t where t: "flow_solve f B = Some t" by (auto simp: flow_solve_def)
  have "\<not> ?c t" using t unfolding flow_solve_def by (rule while_option_stop)
  moreover have "flow_inv f B t"
    using while_option_rule[where P = "flow_inv f B", OF st t[unfolded flow_solve_def]]
      flow_start_inv[OF assms(1,2)] by auto
  ultimately show ?thesis using t that by (cases t) auto
qed

lemma length_build_blocks [simp]: "length (build_blocks t m f) = length (leaders (instructions f))"
  by (simp add: build_blocks_def)

lemma build_blocks_nth:
  "b < length (leaders (instructions f)) \<Longrightarrow> build_blocks t m f ! b =
     \<lparr>bb_begin = fst (block_bounds (instructions f) ! b), bb_end = snd (block_bounds (instructions f) ! b),
      bb_successors = code_succs t m (instructions f) b, bb_reachable = False,
      bb_entry = register_state (register_count f), bb_entry_initialized = False\<rparr>"
  by (simp add: build_blocks_def nth_enumerate_eq)

lemma block_code_build:
  "b < length (leaders (instructions f)) \<Longrightarrow>
     block_code f (build_blocks t m f ! b) = block_instrs (instructions f) b"
  by (simp add: block_code_def block_instrs_def build_blocks_nth split_def Let_def)

lemma block_index_of:
  assumes "b < length (leaders is)"
  obtains i where "i < length is" "Suc i = length is \<or> is_leader is (Suc i)" "block_of_instruction is i = b"
proof -
  let ?e = "snd (block_bounds is ! b)"
  have L: "leaders is ! b < length is" "is_leader is (leaders is ! b)"
    using assms nth_mem[OF assms] by (auto simp: leaders_def)
  have "\<exists>i < length is. (Suc i = length is \<or> is_leader is (Suc i)) \<and> block_of_instruction is i = block_of_instruction is j"
    if "j < length is" for j
    using that
  proof (induction "length is - j" arbitrary: j rule: less_induct)
    case less
    show ?case
    proof (cases "Suc j = length is \<or> is_leader is (Suc j)")
      case True
      then show ?thesis using less.prems by blast
    next
      case False
      then have "Suc j < length is" using less.prems by simp
      then show ?thesis using less.hyps[of "Suc j"] False by (auto simp: block_of_Suc)
    qed
  qed
  moreover have "block_of_instruction is (leaders is ! b) = b"
  proof -
    have "leaders is ! block_of_instruction is (leaders is ! b) = leaders is ! b"
      using L by (simp add: block_start_leader)
    moreover have "distinct (leaders is)" by (simp add: leaders_def)
    ultimately show ?thesis using assms block_of_less[OF L(1)] by (simp add: nth_eq_iff_index_eq)
  qed
  ultimately show ?thesis using L(1) that by metis
qed

lemma code_succs_range:
  assumes "\<And>l p. m l = Some p \<Longrightarrow> p < length is" "b < length (leaders is)"
  shows "set (code_succs t m is b) \<subseteq> {..<length (leaders is)}"
proof -
  obtain i where i: "i < length is" "Suc i = length is \<or> is_leader is (Suc i)" "block_of_instruction is i = b"
    using block_index_of[OF assms(2)] .
  show ?thesis
    using block_successors_iff[OF i(1,2), of t m] assms(1) block_of_less i(3)
    by (auto split: if_splits dest!: assms(1))
qed

lemma block_instrs_split:
  assumes "i < length is"
  shows "\<exists>rest. block_instrs is (block_of_instruction is i) = block_prefix is i @ is ! i # rest"
  using assms
proof (induction "length is - i" arbitrary: i rule: less_induct)
  case less
  show ?case
  proof (cases "Suc i = length is \<or> is_leader is (Suc i)")
    case True
    then show ?thesis using block_instrs_last[OF less.prems True] by simp
  next
    case False
    then have s: "Suc i < length is" "i < length is" using less.prems by simp_all
    obtain rest where "block_instrs is (block_of_instruction is (Suc i)) = block_prefix is (Suc i) @ is ! Suc i # rest"
      using less.hyps[of "Suc i"] s diff_less_mono2[OF lessI s(2)] by blast
    then show ?thesis using False s by (simp add: block_of_Suc block_prefix_Suc)
  qed
qed

lemma report_all_reads:
  "report_all (pre @ i # rest) s = Inr () \<Longrightarrow> check_reads i (fold define_destination pre s) = Inr ()"
  by (induction pre arbitrary: s) (auto simp: res_simps)

lemma table_opcodes: "\<forall>i < IR_OPCODE_COUNT. info_opcode (IR_OPCODE_TABLE ! i) = IROpcode i"
proof -
  have "map info_opcode IR_OPCODE_TABLE = map IROpcode [0..<IR_OPCODE_COUNT]" by code_simp
  then show ?thesis by (metis add_0 length_map length_upt nth_map nth_upt diff_zero)
qed

lemma opcode_info_rows:
  assumes "\<And>row. row \<in> set IR_OPCODE_TABLE \<Longrightarrow> Q (info_opcode row) row" "opcode_index op < IR_OPCODE_COUNT"
  shows "Q op (ir_opcode_info op)"
proof -
  have i: "opcode_index op < length IR_OPCODE_TABLE" using assms(2) by (simp add: table_length)
  have "info_opcode (IR_OPCODE_TABLE ! opcode_index op) = op" using table_opcodes assms(2) by simp
  then show ?thesis using assms(1)[OF nth_mem[OF i]] assms(2) by (simp add: ir_opcode_info_def)
qed

lemma table_flow:
  "\<forall>row \<in> set IR_OPCODE_TABLE.
     ((LBL \<in> set (signature row) \<or> LBL_LIST \<in> set (signature row)) \<longrightarrow>
        effects row AND (IR_LABEL OR IR_BRANCH OR IR_TERMINATOR) \<noteq> 0) \<and>
     (effects row AND IR_LABEL \<noteq> 0 \<longrightarrow> info_opcode row = OP_LABEL)"
  unfolding list_all_iff[symmetric] by code_simp

lemma kind_at_in: "kind_at sig j \<noteq> NONE \<Longrightarrow> kind_at sig j \<in> set sig"
  by (auto simp: kind_at_def fixed_count_def is_variadic_def split: if_splits)

lemma and_or_nonzero: "x AND (a OR b OR c) \<noteq> 0 \<longleftrightarrow> x AND a \<noteq> 0 \<or> x AND b \<noteq> 0 \<or> x AND (c :: 32 word) \<noteq> 0"
  by (simp add: bit.conj_disj_distrib or_eq_0_iff)

lemma label_effect: "ir_has_effect op IR_LABEL \<longleftrightarrow> op = OP_LABEL"
proof (cases "opcode_index op < IR_OPCODE_COUNT")
  case True
  have "effects (ir_opcode_info op) AND IR_LABEL \<noteq> 0 \<longrightarrow> op = OP_LABEL"
    by (rule opcode_info_rows[OF _ True]) (use table_flow in blast)
  then show ?thesis by auto
next
  case False
  then show ?thesis by (cases op) (auto simp: ir_opcode_info_def op_row_def IR_OPCODE_COUNT_def)
qed

lemma branch_effect_of_label:
  assumes ok: "operands_ok i" and v: "v \<in> set (operands i)" "is_label v"
    and nl: "\<not> ir_has_effect (opcode i) IR_LABEL"
  shows "ir_has_effect (opcode i) IR_BRANCH \<or> ir_has_effect (opcode i) IR_TERMINATOR"
proof -
  let ?sig = "signature (ir_opcode_info (opcode i))"
  obtain j where j: "j < length (operands i)" "operands i ! j = v" using v(1) by (auto simp: in_set_conv_nth)
  have k: "kind_at ?sig j \<in> {LBL, LBL_LIST}"
    using operands_okD(3)[OF ok refl j(1)] v(2) j(2)
    by (cases v) (auto simp: operand_matches_def is_label_def is_register_def is_immediate_def split: if_splits)
  then have s: "LBL \<in> set ?sig \<or> LBL_LIST \<in> set ?sig" using kind_at_in[of ?sig j] by auto
  have "opcode_index (opcode i) < IR_OPCODE_COUNT"
    using s by (cases "opcode_index (opcode i) < IR_OPCODE_COUNT") (auto simp: ir_opcode_info_def op_row_def)
  then have "(LBL \<in> set ?sig \<or> LBL_LIST \<in> set ?sig) \<longrightarrow>
      effects (ir_opcode_info (opcode i)) AND (IR_LABEL OR IR_BRANCH OR IR_TERMINATOR) \<noteq> 0"
    by (rule opcode_info_rows[rotated]) (use table_flow in blast)
  then show ?thesis using s nl by (simp only: and_or_nonzero ir_has_effect_def) blast
qed

lemma index_labels_Some:
  "index_labels t i is m = Inr m' \<Longrightarrow> m' l = Some p \<Longrightarrow>
     m l = Some p \<or> (i \<le> p \<and> p < i + length is \<and> opcode (is ! (p - i)) = OP_LABEL \<and>
       operands (is ! (p - i)) \<noteq> [] \<and> name_of t (operands (is ! (p - i)) ! 0) = l)"
proof (induction "is" arbitrary: i m)
  case (Cons x xs)
  show ?case
  proof (cases "ir_has_effect (opcode x) IR_LABEL")
    case False
    then have "index_labels t (Suc i) xs m = Inr m'" using Cons.prems(1) by simp
    from Cons.IH[OF this Cons.prems(2)] show ?thesis
      by (auto simp: nth_Cons' Suc_diff_le le_Suc_eq dest!: Suc_le_lessD)
  next
    case True
    then obtain v vs where ops: "operands x = v # vs" "m (name_of t v) = None"
        "index_labels t (Suc i) xs (m(name_of t v \<mapsto> i)) = Inr m'"
      using Cons.prems(1) by (auto split: list.splits if_splits)
    from Cons.IH[OF ops(3) Cons.prems(2)] True ops(1) show ?thesis
      unfolding label_effect by (auto simp: nth_Cons' dest!: Suc_le_lessD split: if_splits)
  qed
qed simp

lemma label_operand_0:
  assumes "operands_ok i" "opcode i = OP_LABEL"
  shows "operands i \<noteq> [] \<and> is_label (operands i ! 0)"
  using fixed_operand[OF assms(1) refl, of 0] assms(2) by (auto simp: signature_eval operand_matches_def)

lemma index_labels_fold:
  "index_labels (Some (strings P)) i is m = Inr m' \<Longrightarrow> \<forall>x \<in> set is. operands_ok x \<Longrightarrow>
     fold (\<lambda>(i, instr) m.
       if opcode instr = OP_LABEL \<and> operands instr \<noteq> [] \<and> is_label (operands instr ! 0)
       then m(label_text P (operands instr ! 0) \<mapsto> i) else m) (enumerate i is) m = m'"
proof (induction "is" arbitrary: i m)
  case (Cons x xs)
  show ?case
  proof (cases "opcode x = OP_LABEL")
    case False
    then have "\<not> ir_has_effect (opcode x) IR_LABEL" unfolding label_effect .
    with False Cons show ?thesis by simp
  next
    case True
    then have "operands x \<noteq> [] \<and> is_label (operands x ! 0)" using label_operand_0 Cons.prems(2) by simp
    then obtain v vs where ops: "operands x = v # vs" "is_label v" by (cases "operands x") auto
    have "ir_has_effect (opcode x) IR_LABEL" using True unfolding label_effect .
    then have "index_labels (Some (strings P)) (Suc i) xs (m(label_text P v \<mapsto> i)) = Inr m'"
      using Cons.prems(1) ops by (auto simp: name_of_def label_text_def split: if_splits)
    moreover have "\<forall>x \<in> set xs. operands_ok x" using Cons.prems(2) by simp
    ultimately show ?thesis
      by (subst Cons.IH[symmetric]) (simp_all add: True ops)
  qed
qed simp

definition verified_labels :: "IRStringTable option \<Rightarrow> IRFunction \<Rightarrow> label_index" where
  "verified_labels t f = (case check_labels t f of Inr m \<Rightarrow> m | Inl _ \<Rightarrow> Map.empty)"

lemma ir_verify_Inr:
  assumes "ir_verify t f = Inr ()"
  obtains blocks where "\<forall>i \<in> set (instructions f). operands_ok i"
    "check_labels t f = Inr (verified_labels t f)"
    "check_definedness_and_types f (build_blocks t (verified_labels t f) f) = Inr blocks"
    "check_scope_marks f blocks = Inr ()" "check_register_range f = Inr ()"
    "check_coroutine f = Inr ()"
  using assms by (auto simp: ir_verify_def res_simps check_operands_def verified_labels_def operands_ok_def)

lemma check_labels_facts:
  assumes "check_labels t f = Inr m" "m l = Some p"
  shows "p < length (instructions f) \<and> opcode (instructions f ! p) = OP_LABEL \<and> is_leader (instructions f) p"
proof -
  have "index_labels t 0 (instructions f) Map.empty = Inr m"
    using assms(1) by (auto simp: check_labels_def res_simps)
  from index_labels_Some[OF this assms(2)]
  have p: "p < length (instructions f)" "opcode (instructions f ! p) = OP_LABEL" by auto
  have "ir_has_effect (opcode (instructions f ! p)) IR_LABEL" using p(2) unfolding label_effect .
  then show ?thesis using p unfolding is_leader_def by blast
qed

lemma collect_labels_verified:
  assumes "ir_verify (Some (strings P)) f = Inr ()"
  shows "collect_labels P (instructions f) = verified_labels (Some (strings P)) f"
proof -
  obtain blocks where ok: "\<forall>i \<in> set (instructions f). operands_ok i"
    and l: "check_labels (Some (strings P)) f = Inr (verified_labels (Some (strings P)) f)"
    by (rule ir_verify_Inr[OF assms])
  then have "index_labels (Some (strings P)) 0 (instructions f) Map.empty =
      Inr (verified_labels (Some (strings P)) f)"
    by (auto simp: check_labels_def res_simps)
  from index_labels_fold[OF this ok] show ?thesis by (simp only: collect_labels_def)
qed

lemma target_label:
  assumes "check_labels t f = Inr m" "i < length (instructions f)" "v \<in> set (operands (instructions f ! i))"
    "is_label v" "opcode (instructions f ! i) \<noteq> OP_LABEL"
  shows "m (name_of t v) \<noteq> None"
proof -
  have "check_targets t m f = Inr ()" using assms(1) by (auto simp: check_labels_def res_simps)
  moreover have "\<not> ir_has_effect (opcode (instructions f ! i)) IR_LABEL" using assms(5) unfolding label_effect .
  ultimately have "each_res (\<lambda>v. if is_label v then guard_res (m (name_of t v) \<noteq> None)
      IR_VERIFIER_ERROR BranchTargetMissing else Inr ()) (operands (instructions f ! i)) = Inr ()"
    unfolding check_targets_def each_res_eq_Inr[where xs = "instructions f"]
    using nth_mem[OF assms(2)] by (metis (no_types, lifting))
  then have "(if is_label v then guard_res (m (name_of t v) \<noteq> None)
      IR_VERIFIER_ERROR BranchTargetMissing else Inr ()) = Inr ()"
    unfolding each_res_eq_Inr using assms(3) by (rule bspec)
  then show ?thesis using assms(4) by simp
qed

definition flow_entries :: "BasicBlock list \<Rightarrow> nat \<Rightarrow> RegisterState option" where
  "flow_entries blocks = fst (flow_abs (blocks, [], []))"

text \<open>The states the definedness analysis computes, one per instruction it reaches.\<close>

definition instr_facts :: "IRStringTable option \<Rightarrow> IRFunction \<Rightarrow> nat \<Rightarrow> RegisterState option" where
  "instr_facts t f = (case flow_solve f (build_blocks t (verified_labels t f) f) of
     Some (blocks, _) \<Rightarrow> instr_state define_destination (instructions f) (flow_entries blocks)
   | None \<Rightarrow> Map.empty)"

lemma flow_inv_code:
  assumes "flow_inv f (build_blocks t m f) (blocks, work, queued)"
  shows "solver_inv (flow_valid (register_count f)) flow_le (code_trans define_destination (instructions f))
    (code_succs t m (instructions f)) (entry_state f) (length (leaders (instructions f)))
    (flow_entries blocks, set work)"
proof -
  let ?B = "build_blocks t m f" and ?is = "instructions f"
  have *: "b < length (leaders ?is) \<Longrightarrow> transfer f (?B ! b) = code_trans define_destination ?is b"
    "b < length (leaders ?is) \<Longrightarrow> bb_successors (?B ! b) = code_succs t m ?is b" for b
    using block_code_build[of b f t m] build_blocks_nth[of b f t m]
    by (simp_all add: fun_eq_iff transfer_fold)
  have "flow_abs (blocks, work, queued) = (flow_entries blocks, set work)"
    by (simp add: flow_abs_def flow_entries_def)
  then show ?thesis using assms * unfolding flow_inv_def solver_inv_def by auto
qed

lemma solved_facts:
  assumes "ir_verify t f = Inr ()" "instructions f \<noteq> []"
  obtains blocks queued where
    "flow_solve f (build_blocks t (verified_labels t f) f) = Some (blocks, [], queued)"
    "flow_inv f (build_blocks t (verified_labels t f) f) (blocks, [], queued)"
    "check_scope_marks f blocks = Inr ()"
    "\<forall>b \<in> set blocks. bb_reachable b \<longrightarrow> transfer_report f b (bb_entry b) = Inr ()"
proof -
  let ?m = "verified_labels t f" and ?is = "instructions f"
  let ?B = "build_blocks t ?m f"
  obtain blocks where v: "check_labels t f = Inr ?m" "check_definedness_and_types f ?B = Inr blocks"
    "check_scope_marks f blocks = Inr ()"
    by (rule ir_verify_Inr[OF assms(1)])
  have ne: "leaders ?is \<noteq> []" using block_of_less[of 0 ?is] assms(2) by auto
  then have B: "?B \<noteq> []" by (metis length_build_blocks length_0_conv)
  have "b \<in> set ?B \<Longrightarrow> \<not> bb_entry_initialized b \<and> \<not> bb_reachable b" for b
    by (auto simp: in_set_conv_nth build_blocks_nth)
  moreover have "b < length ?B \<Longrightarrow> set (bb_successors (?B ! b)) \<subseteq> {..<length ?B}" for b
    using code_succs_range[of ?m ?is b t] check_labels_facts[OF v(1)] by (auto simp: build_blocks_nth)
  ultimately obtain solved queued where
    s: "flow_solve f ?B = Some (solved, [], queued)" "flow_inv f ?B (solved, [], queued)"
    using flow_solve_Some[OF B] by metis
  then have "blocks = solved" "\<forall>b \<in> set solved. bb_reachable b \<longrightarrow> transfer_report f b (bb_entry b) = Inr ()"
    using v(2) B by (auto simp: check_definedness_and_types_def res_simps split: if_splits)
  then show ?thesis using that s v(3) by blast
qed

theorem instr_facts_sound:
  assumes ver: "ir_verify t f = Inr ()"
  shows "instructions f \<noteq> [] \<Longrightarrow> \<exists>s. instr_facts t f 0 = Some s \<and> flow_le s (entry_state f)"
    "i < length (instructions f) \<Longrightarrow> instr_facts t f i = Some s \<Longrightarrow> flow_valid (register_count f) s"
    "i < length (instructions f) \<Longrightarrow> instr_facts t f i = Some s \<Longrightarrow> check_reads (instructions f ! i) s = Inr ()"
    "i < length (instructions f) \<Longrightarrow> instr_facts t f i = Some s \<Longrightarrow>
       k \<in> instr_succs t (verified_labels t f) (instructions f) i \<Longrightarrow> k < length (instructions f) \<Longrightarrow>
       \<exists>s'. instr_facts t f k = Some s' \<and> flow_le s' (define_destination (instructions f ! i) s)"
proof -
  let ?m = "verified_labels t f" and ?is = "instructions f"
  have "?is \<noteq> [] \<Longrightarrow> (\<exists>s. instr_facts t f 0 = Some s \<and> flow_le s (entry_state f)) \<and>
    (\<forall>i < length ?is. \<forall>s. instr_facts t f i = Some s \<longrightarrow>
       flow_valid (register_count f) s \<and> check_reads (?is ! i) s = Inr () \<and>
       (\<forall>k \<in> instr_succs t ?m ?is i. k < length ?is \<longrightarrow>
          (\<exists>s'. instr_facts t f k = Some s' \<and> flow_le s' (define_destination (?is ! i) s))))"
  proof (intro conjI allI impI ballI)
    assume ne: "?is \<noteq> []"
    obtain blocks queued where
      sol: "flow_solve f (build_blocks t ?m f) = Some (blocks, [], queued)"
        "flow_inv f (build_blocks t ?m f) (blocks, [], queued)"
        "\<forall>b \<in> set blocks. bb_reachable b \<longrightarrow> transfer_report f b (bb_entry b) = Inr ()"
      by (rule solved_facts[OF ver ne])
    have facts: "instr_facts t f = instr_state define_destination ?is (flow_entries blocks)"
      by (simp add: instr_facts_def sol(1))
    have inv: "solver_inv (flow_valid (register_count f)) flow_le (code_trans define_destination ?is)
        (code_succs t ?m ?is) (entry_state f) (length (leaders ?is)) (flow_entries blocks, {})"
      using flow_inv_code[OF sol(2)] by simp
    have ok: "\<forall>i \<in> set ?is. operands_ok i" and lab: "check_labels t f = Inr ?m"
      by (rule ir_verify_Inr[OF ver], assumption)+
    show "\<exists>s. instr_facts t f 0 = Some s \<and> flow_le s (entry_state f)"
      using inv ne instr_state_leader[of ?is 0 define_destination "flow_entries blocks"]
      by (auto simp: facts solver_inv_def block_of_leader)
    fix i s assume i: "i < length ?is" "instr_facts t f i = Some s"
    obtain e where e: "flow_entries blocks (block_of_instruction ?is i) = Some e"
        "s = fold define_destination (block_prefix ?is i) e"
      using i(2) by (auto simp: facts instr_state_def)
    have ve: "flow_valid (register_count f) e" using inv e(1) by (auto simp: solver_inv_def)
    show "flow_valid (register_count f) s"
      using def_flow.valid_fold[OF ve] e(2) by simp
    let ?b = "block_of_instruction ?is i"
    have b: "?b < length (leaders ?is)" by (rule block_of_less[OF i(1)])
    have sh: "length blocks = length (leaders ?is)" "bb_begin (blocks ! ?b) = bb_begin (build_blocks t ?m f ! ?b)"
      "bb_end (blocks ! ?b) = bb_end (build_blocks t ?m f ! ?b)"
      "bb_reachable (blocks ! ?b) = bb_entry_initialized (blocks ! ?b)"
      using sol(2) b by (auto simp: flow_inv_def flow_shape_def)
    have en: "bb_entry (blocks ! ?b) = e" "bb_entry_initialized (blocks ! ?b)"
      using e(1) by (auto simp: flow_entries_def flow_abs_def split: if_splits)
    have "transfer_report f (blocks ! ?b) e = Inr ()"
      using sol(3) b sh(1,4) en by (metis nth_mem)
    moreover have "block_code f (blocks ! ?b) = block_instrs ?is ?b"
      using block_code_build[OF b, of t ?m] sh(2,3) by (simp add: block_code_def)
    moreover obtain rest where "block_instrs ?is ?b = block_prefix ?is i @ ?is ! i # rest"
      using block_instrs_split[OF i(1)] by blast
    ultimately show "check_reads (?is ! i) s = Inr ()"
      using report_all_reads[of "block_prefix ?is i" "?is ! i" rest e] e(2) by (simp add: transfer_report_def)
    fix k assume k: "k \<in> instr_succs t ?m ?is i" "k < length ?is"
    show "\<exists>s'. instr_facts t f k = Some s' \<and> flow_le s' (define_destination (?is ! i) s)"
      unfolding facts
    proof (rule def_flow.instr_solution[OF inv _ _ i(1) i(2)[unfolded facts] k])
      show "?m l = Some p \<Longrightarrow> p < length ?is \<and> is_leader ?is p" for l p
        using check_labels_facts[OF lab] by blast
      show "ir_has_effect (opcode (?is ! i)) IR_BRANCH \<or> ir_has_effect (opcode (?is ! i)) IR_TERMINATOR"
        if "i < length ?is" "v \<in> set (operands (?is ! i))" "is_label v" "\<not> ir_has_effect (opcode (?is ! i)) IR_LABEL" for i v
        using branch_effect_of_label[OF _ that(2-4)] ok that(1) by simp
    qed
  qed
  then show "?is \<noteq> [] \<Longrightarrow> \<exists>s. instr_facts t f 0 = Some s \<and> flow_le s (entry_state f)"
    "i < length ?is \<Longrightarrow> instr_facts t f i = Some s \<Longrightarrow> flow_valid (register_count f) s"
    "i < length ?is \<Longrightarrow> instr_facts t f i = Some s \<Longrightarrow> check_reads (?is ! i) s = Inr ()"
    "i < length ?is \<Longrightarrow> instr_facts t f i = Some s \<Longrightarrow> k \<in> instr_succs t ?m ?is i \<Longrightarrow> k < length ?is \<Longrightarrow>
       \<exists>s'. instr_facts t f k = Some s' \<and> flow_le s' (define_destination (?is ! i) s)"
    by fastforce+
qed

end
