(* ===== verification/Verified_Run.thy ===== *)
theory Verified_Run
  imports Verifier_Sound
begin

text \<open>
  What acceptance by the verifier means for a run. \<open>reaches\<close> is the set of states an
  activation passes through; along it \<open>run_inv\<close> holds: the registers the analysis calls
  defined are present, and every label a taken jump names exists.
\<close>

definition verified :: "IRProgram \<Rightarrow> IRFunction \<Rightarrow> bool" where
  "verified P f \<longleftrightarrow> ir_verify (Some (strings P)) f = Inr ()"

definition facts_hold :: "RegisterState \<Rightarrow> (int \<Rightarrow> Value option) \<Rightarrow> bool" where
  "facts_hold s regs \<longleftrightarrow> (\<forall>i < length (reg_defined s). reg_defined s ! i \<longrightarrow> regs (int i) \<noteq> None)"

definition run_inv :: "IRProgram \<Rightarrow> IRFunction \<Rightarrow> ExecutionContext \<Rightarrow> bool" where
  "run_inv P f c \<longleftrightarrow> labels c = collect_labels P (instructions f) \<and>
     (running (instructions f) c \<longrightarrow>
       (\<exists>s. instr_facts (Some (strings P)) f (pc c) = Some s \<and> facts_hold s (registers c)))"

text \<open>The states an activation passes through.\<close>

inductive reaches ::
  "callee \<Rightarrow> libm \<Rightarrow> IRProgram \<Rightarrow> IRFunction \<Rightarrow> Value list \<Rightarrow> Value list \<Rightarrow>
   ExecutionContext \<times> Value list \<Rightarrow> bool"
  for call lm P f args gs where
  reaches_start: "reaches call lm P f args gs (start_context P f args, gs)"
| reaches_step: "reaches call lm P f args gs st \<Longrightarrow> running (instructions f) (fst st) \<Longrightarrow>
    step call lm P (instructions f) st = Inr st' \<Longrightarrow> reaches call lm P f args gs st'"

lemma register_range:
  assumes "verified P f" "i \<in> set (instructions f)" "Reg r \<in> set (operands i)"
  shows "0 \<le> r \<and> nat r < register_count f"
proof -
  have "check_register_range f = Inr ()"
    using assms(1) unfolding verified_def by (rule ir_verify_Inr)
  then have "\<forall>v \<in> set (operands i). (case v of
          Reg reg \<Rightarrow> then_check (ver_check (0 \<le> reg) NegativeRegister)
                      (ver_check (reg < max_registers f) RegisterOutsideMax)
        | _ \<Rightarrow> Inr ()) = Inr ()"
    using assms(2) by (auto simp: check_register_range_def res_simps)
  from bspec[OF this assms(3)] have "0 \<le> r" "r < max_registers f" by (auto simp: res_simps)
  then show ?thesis by (auto simp: register_count_def)
qed

lemma reads_are_operands:
  "opcode i \<noteq> OP_RETURN \<Longrightarrow> r \<in> set (ir_collect_read_registers i) \<Longrightarrow> Reg r \<in> set (operands i)"
  using collect_reads_iff[of i r] nth_mem by fastforce

lemma verified_operands: "verified P f \<Longrightarrow> i < length (instructions f) \<Longrightarrow> operands_ok (instructions f ! i)"
  unfolding verified_def by (rule ir_verify_Inr) auto

lemma verified_labels_eq:
  "verified P f \<Longrightarrow> collect_labels P (instructions f) = verified_labels (Some (strings P)) f"
  unfolding verified_def by (rule collect_labels_verified)

lemma run_inv_reads:
  assumes v: "verified P f" and inv: "run_inv P f c" and r: "running (instructions f) c"
    and nr: "opcode (instructions f ! pc c) \<noteq> OP_RETURN"
    and x: "x \<in> set (ir_collect_read_registers (instructions f ! pc c))"
  shows "registers c x \<noteq> None"
proof -
  let ?i = "instructions f ! pc c" and ?t = "Some (strings P)"
  have p: "pc c < length (instructions f)" using r by (simp add: running_def)
  obtain s where s: "instr_facts ?t f (pc c) = Some s" "facts_hold s (registers c)"
    using inv r by (auto simp: run_inv_def)
  note v' = v[unfolded verified_def]
  have val: "flow_valid (register_count f) s" by (rule instr_facts_sound(2)[OF v' p s(1)])
  have "check_reads ?i s = Inr ()" by (rule instr_facts_sound(3)[OF v' p s(1)])
  then have "\<not> (0 \<le> x \<and> nat x < length (reg_defined s) \<and> \<not> reg_defined s ! nat x)"
    using nr x by (auto simp: check_reads_def res_simps)
  moreover have "0 \<le> x \<and> nat x < register_count f"
    using register_range[OF v nth_mem[OF p] reads_are_operands[OF nr x]] .
  ultimately have "reg_defined s ! nat x" "0 \<le> x" "nat x < length (reg_defined s)"
    using val by (auto simp: flow_valid_def)
  then show ?thesis using s(2) by (auto simp: facts_hold_def)
qed

lemma run_inv_step_effect:
  assumes "verified P f" "run_inv P f c" "running (instructions f) c"
    "opcode (instructions f ! pc c) \<noteq> OP_RETURN"
  shows "step call lm P (instructions f) (c, gs) =
    bind_res (instr_effect call lm P (instructions f ! pc c) (\<lambda>r. the (registers c r)) gs)
      (take_effect (ir_destination_register (instructions f ! pc c)) c)"
  by (rule step_effect)
    (use assms run_inv_reads[OF assms] verified_operands[OF assms(1)] in
      \<open>auto simp: running_def run_inv_def\<close>)

lemma table_terminators:
  "\<forall>row \<in> set IR_OPCODE_TABLE. effects row AND IR_TERMINATOR \<noteq> 0 \<longrightarrow>
     info_opcode row = OP_JUMP \<or> info_opcode row = OP_RETURN"
  unfolding list_all_iff[symmetric] by code_simp

lemma terminator_effect:
  "ir_has_effect op IR_TERMINATOR \<longleftrightarrow> op = OP_JUMP \<or> op = OP_RETURN"
proof (cases "opcode_index op < IR_OPCODE_COUNT")
  case True
  have "effects (ir_opcode_info op) AND IR_TERMINATOR \<noteq> 0 \<longrightarrow> op = OP_JUMP \<or> op = OP_RETURN"
    by (rule opcode_info_rows[OF _ True]) (use table_terminators in blast)
  then show ?thesis by auto
next
  case False
  then show ?thesis by (cases op) (auto simp: ir_opcode_info_def op_row_def IR_OPCODE_COUNT_def)
qed

lemma jump_always: "opcode i = OP_JUMP \<Longrightarrow> instr_effect call lm P i rd gs = Inr (w, j, gs') \<Longrightarrow> j \<noteq> None"
  by (auto simp: instr_effect_def op_lists branch_effect_def jump_effect_def Let_def)

lemma return_no_effect: "opcode i = OP_RETURN \<Longrightarrow> instr_effect call lm P i rd gs \<noteq> Inr e"
  by (auto simp: instr_effect_def op_lists Let_def)

lemma effect_succ:
  assumes ok: "operands_ok (is ! p)" and e: "instr_effect call lm P (is ! p) rd gs = Inr (w, j, gs')"
    and n: "next_pc m p j = Some k"
  shows "k \<in> instr_succs (Some (strings P)) m is p"
proof (cases j)
  case None
  have "\<not> ir_has_effect (opcode (is ! p)) IR_TERMINATOR"
    using jump_always[OF _ e] return_no_effect[of "is ! p" call lm P rd gs "(w, j, gs')"] e None
    unfolding terminator_effect by blast
  then show ?thesis using n None by (simp add: instr_succs_def next_pc_def)
next
  case (Some l)
  obtain v where v: "v \<in> set (operands (is ! p))" "is_label v" "label_text P v = l"
    using effect_target[OF ok e[unfolded Some]] by blast
  have "opcode (is ! p) \<noteq> OP_LABEL" using effect_shape(3)[OF e] Some by (auto simp: op_lists)
  then have "\<not> ir_has_effect (opcode (is ! p)) IR_LABEL" unfolding label_effect .
  then show ?thesis using n Some v unfolding instr_succs_def
    by (auto simp: next_pc_def name_of_def label_text_def)
qed

lemma effect_destination:
  assumes "operands_ok i" "instr_effect call lm P i rd gs = Inr (w, j, gs')"
  shows "w = None \<Longrightarrow> ir_destination_register i = - 1" "w \<noteq> None \<Longrightarrow> Reg (ir_destination_register i) \<in> set (operands i)"
proof -
  have 1: "w = None \<Longrightarrow> ir_destination_register i = - 1"
    using effect_shape(2)[OF assms(2)] destination_none by blast
  have 2: "Reg (ir_destination_register i) \<in> set (operands i)" if w: "w \<noteq> None"
  proof (cases "opcode i = OP_CALL")
    case True
    have "1 < length (operands i)" using fixed_index[OF assms(1), of 1] True by (simp add: signature_eval)
    then show ?thesis using destination_call[OF assms(1) True]
      by (metis is_register_iff nth_mem operand_nth reg_index_Reg)
  next
    case False
    then have d: "opcode i \<in> set DST0_OPS" using effect_shape(1)[OF assms(2) w] by simp
    have "0 < length (operands i)"
      using fixed_index[OF assms(1), of 0] destination_index_0[OF d] by simp
    then show ?thesis using destination_0[OF assms(1) d]
      by (metis is_register_iff nth_mem operand_nth reg_index_Reg)
  qed
  show "w \<noteq> None \<Longrightarrow> Reg (ir_destination_register i) \<in> set (operands i)" by (rule 2)
  show "w = None \<Longrightarrow> ir_destination_register i = - 1" by (rule 1)
qed

lemma facts_hold_define:
  assumes "facts_hold s regs" "w = None \<Longrightarrow> ir_destination_register i = - 1"
  shows "facts_hold (define_destination i s) (write_register (ir_destination_register i) w regs)"
  using assms by (cases w) (auto simp: facts_hold_def define_destination_def write_register_def Let_def
    nth_list_update split: if_splits)

lemma facts_hold_le: "flow_le s' s \<Longrightarrow> facts_hold s regs \<Longrightarrow> facts_hold s' regs"
  by (auto simp: facts_hold_def flow_le_def)

lemma run_inv_target:
  assumes v: "verified P f" and inv: "run_inv P f c" and r: "running (instructions f) c"
    and e: "instr_effect call lm P (instructions f ! pc c) rd gs = Inr (w, j, gs')"
  shows "next_pc (labels c) (pc c) j \<noteq> None"
proof (cases j)
  case (Some l)
  let ?i = "instructions f ! pc c" and ?t = "Some (strings P)"
  have p: "pc c < length (instructions f)" using r by (simp add: running_def)
  obtain v' where v': "v' \<in> set (operands ?i)" "is_label v'" "label_text P v' = l"
    using effect_target[OF verified_operands[OF v p] e[unfolded Some]] by blast
  have nl: "opcode ?i \<noteq> OP_LABEL" using effect_shape(3)[OF e] Some by (auto simp: op_lists)
  have l: "check_labels ?t f = Inr (verified_labels ?t f)"
    using v unfolding verified_def by (rule ir_verify_Inr)
  have "labels c l \<noteq> None"
    using target_label[OF l p v'(1,2) nl] inv verified_labels_eq[OF v] v'(3)
    by (simp add: run_inv_def name_of_def label_text_def)
  then show ?thesis by (simp add: next_pc_def Some)
qed (simp add: next_pc_def)

lemma run_inv_step:
  assumes v: "verified P f" and inv: "run_inv P f c" and r: "running (instructions f) c"
    and st: "step call lm P (instructions f) (c, gs) = Inr (c1, gs1)"
  shows "run_inv P f c1"
proof (cases "opcode (instructions f ! pc c) = OP_RETURN")
  case True
  then have "c1 = exec_return c" using st step_return[OF True] by simp
  then show ?thesis using inv by (simp add: run_inv_def running_def exec_return_def)
next
  case False
  let ?i = "instructions f ! pc c" and ?t = "Some (strings P)" and ?d = "ir_destination_register (instructions f ! pc c)"
  have p: "pc c < length (instructions f)" using r by (simp add: running_def)
  obtain w j where e: "instr_effect call lm P ?i (\<lambda>r. the (registers c r)) gs = Inr (w, j, gs1)"
      and k: "next_pc (labels c) (pc c) j = Some (pc c1)"
      and c1: "labels c1 = labels c" "registers c1 = write_register ?d w (registers c)"
    using st unfolding run_inv_step_effect[OF v inv r False]
    by (auto simp: res_simps take_effect_Inr)
  obtain s where s: "instr_facts ?t f (pc c) = Some s" "facts_hold s (registers c)"
    using inv r by (auto simp: run_inv_def)
  have "pc c1 \<in> instr_succs ?t (verified_labels ?t f) (instructions f) (pc c)"
    using effect_succ[OF verified_operands[OF v p] e] k inv verified_labels_eq[OF v]
    by (simp add: run_inv_def)
  then have "pc c1 < length (instructions f) \<Longrightarrow>
      \<exists>s'. instr_facts ?t f (pc c1) = Some s' \<and> flow_le s' (define_destination ?i s)"
    using instr_facts_sound(4)[OF v[unfolded verified_def] p s(1)] by blast
  moreover have "facts_hold (define_destination ?i s) (registers c1)"
    unfolding c1 by (rule facts_hold_define[OF s(2) effect_destination(1)[OF verified_operands[OF v p] e]])
  ultimately show ?thesis using inv c1 facts_hold_le by (auto simp: run_inv_def running_def)
qed

lemma bind_args_defined:
  "i + min (length args) (length ps) > k \<Longrightarrow> i \<le> k \<Longrightarrow> bind_args i args ps regs (int k) \<noteq> None"
proof (induction i args ps regs rule: bind_args.induct)
  case (1 i v vs p ps regs)
  have keep: "regs x \<noteq> None \<Longrightarrow> bind_args i vs ps regs x \<noteq> None" for i vs ps regs x
    by (induction i vs ps regs rule: bind_args.induct) auto
  show ?case
  proof (cases "k = i")
    case True
    then show ?thesis using keep[of "regs(int i \<mapsto> v)" "int k" "Suc i" vs ps] by simp
  next
    case False
    have "bind_args (Suc i) vs ps (regs(int i \<mapsto> v)) (int k) \<noteq> None"
      by (rule 1) (use 1 False in auto)
    then show ?thesis by simp
  qed
qed auto

lemma run_inv_start:
  assumes v: "verified P f" and a: "length (parameters f) \<le> length args"
  shows "run_inv P f (start_context P f args)"
proof -
  have "\<exists>s. instr_facts (Some (strings P)) f 0 = Some s \<and> facts_hold s (registers (start_context P f args))"
    if ne: "instructions f \<noteq> []"
  proof -
    obtain s where s: "instr_facts (Some (strings P)) f 0 = Some s" "flow_le s (entry_state f)"
      using instr_facts_sound(1)[OF v[unfolded verified_def] ne] by blast
    have "facts_hold (entry_state f) (registers (start_context P f args))"
      using a bind_args_defined[of _ 0 args "parameters f" Map.empty]
      by (auto simp: facts_hold_def entry_state_def Let_def register_state_def start_context_def
        entry_context_def empty_context_def)
    with s facts_hold_le show ?thesis by blast
  qed
  then show ?thesis by (auto simp: run_inv_def running_def start_context_def)
qed

lemma reaches_inv:
  assumes "reaches call lm P f args gs st" "verified P f" "length (parameters f) \<le> length args"
  shows "run_inv P f (fst st)"
  using assms(1)
proof (induction rule: reaches.induct)
  case reaches_start
  then show ?case using run_inv_start[OF assms(2,3)] by simp
next
  case (reaches_step st st')
  then show ?case
    using run_inv_step[OF assms(2), of "fst st" call lm "snd st" "fst st'" "snd st'"] by simp
qed

end
