(* ===== verification/Worked_Example.thy ===== *)
theory Worked_Example
  imports Verified_Run
begin

text \<open>
  A small program on which the theorems about verified functions and optimisation passes are
  applied: its function adds a constant to its argument through a copy, jumps over an
  unreachable load and computes one value nobody reads. \<open>interp_call_run\<close> evaluates a call
  from the few steps it takes.
\<close>


definition example_strings :: IRStringTable where
  "example_strings = \<lparr>m_strings = [''f'', ''end''], m_ids = [''f'' \<mapsto> 0, ''end'' \<mapsto> 1]\<rparr>"

definition example_function :: IRFunction where
  "example_function = empty_function\<lparr>func_name := ''f'', parameters := [''x''], max_registers := 9,
     instructions :=
       [mk_instr OP_LOAD_IMM [Reg 3, Imm 5], mk_instr OP_MOVE [Reg 5, Reg 3],
        mk_instr OP_ADD [Reg 0, Reg 0, Reg 5], mk_instr OP_JUMP [Label 1],
        mk_instr OP_LOAD_IMM [Reg 6, Imm 9], mk_instr OP_LABEL [Label 1],
        mk_instr OP_LOAD_IMM [Reg 7, Imm 1], mk_instr OP_RETURN []]\<rparr>"

definition example_program :: IRProgram where
  "example_program = \<lparr>prog_globals = [], prog_functions = [example_function], string_constants = [],
     strings = example_strings, global_init = empty_function, has_global_init = False,
     member_init = empty_function, has_member_init = False\<rparr>"

definition example_libm :: libm where
  "example_libm = \<lparr>lm_sin = id, lm_cos = id, lm_tan = id, lm_asin = id, lm_acos = id, lm_atan = id,
     lm_sinh = id, lm_cosh = id, lm_tanh = id, lm_asinh = id, lm_acosh = id, lm_atanh = id,
     lm_exp = id, lm_log = id, lm_atan2 = (\<lambda>x y. x), lm_pow = (\<lambda>x y. x)\<rparr>"

lemma interp_call_run:
  assumes "function_map P name = Some f"
    "\<And>call. bind_res (execute_steps call lm P (instructions f) n (start_context P f args, gs))
      (\<lambda>st. Inr (call_result st)) = Inr r"
    "n \<le> MAX_STEPS"
  shows "interp_call lm P name args gs = Inr r"
proof -
  let ?call = "call_at lm P (MAX_CALL_DEPTH - 1)"
  obtain st where st: "execute_steps ?call lm P (instructions f) n (start_context P f args, gs) = Inr st"
    "call_result st = r" using assms(2)[of ?call] by (auto simp: bind_res_eq_Inr)
  have "execute_body ?call lm P f (entry_context f args, gs) = Inr st"
    unfolding execute_body_start using st(1) assms(3) by (rule execute_steps_more)
  moreover have "call_at lm P MAX_CALL_DEPTH = call_at lm P (Suc (MAX_CALL_DEPTH - 1))" by (simp add: MAX_CALL_DEPTH_def)
  ultimately show ?thesis using assms(1) st(2) by (simp add: interp_call_def)
qed

lemma example_verified: "verified example_program example_function"
  by code_simp

lemma example_covered: "calls_covered example_program example_function" "covered example_program ''f'' (Suc 0)"
  by (simp_all add: calls_covered_def covered_def function_map_def example_program_def example_function_def)

lemma example_functions: "set (prog_functions example_program) = {example_function}"
  by (simp add: example_program_def)

lemma example_run: "interp_call lm example_program ''f'' [VInt 7] [] = Inr (VInt 12, [])"
proof (rule interp_call_run)
  show "function_map example_program ''f'' = Some example_function"
    by (simp add: function_map_def example_program_def example_function_def)
  show "bind_res (execute_steps call lm example_program (instructions example_function) 8
      (start_context example_program example_function [VInt 7], [])) (\<lambda>st. Inr (call_result st)) = Inr (VInt 12, [])" for call
    by code_simp
  show "8 \<le> MAX_STEPS" by (simp add: MAX_STEPS_def)
qed


end
