(* ===== verification/In_Place_Passes.thy ===== *)
theory In_Place_Passes
  imports Verified_Run
begin

text \<open>
  Passes that rewrite instructions where they stand. \<open>pointwise_pass\<close> is their contract: facts
  about the registers, kept by straight-line code and forgotten at labels, under which the
  new instruction has the old one's effect. Such a pass is a \<open>preserving_pass\<close>.
\<close>

section \<open>Passes that rewrite in place\<close>

text \<open>
  A pass that replaces each instruction by one with the same effect, wherever facts about
  the registers hold that straight-line code establishes and labels forget.
\<close>

locale pointwise_pass =
  fixes T :: "IRProgram \<Rightarrow> IRFunction \<Rightarrow> IRFunction"
    and pre :: "IRProgram \<Rightarrow> IRFunction \<Rightarrow> bool"
    and facts :: "IRFunction \<Rightarrow> nat \<Rightarrow> 's"
    and holds :: "'s \<Rightarrow> (int \<Rightarrow> Value option) \<Rightarrow> bool"
  assumes pre_verified: "pre P f \<Longrightarrow> verified P f"
    and same_name: "func_name (T P f) = func_name f"
    and same_parameters: "parameters (T P f) = parameters f"
    and keeps_length: "length (instructions (T P f)) = length (instructions f)"
    and keeps_labels: "pre P f \<Longrightarrow>
      collect_labels P (instructions (T P f)) = collect_labels P (instructions f)"
    and keeps_return: "pre P f \<Longrightarrow> p < length (instructions f) \<Longrightarrow>
      opcode (instructions f ! p) = OP_RETURN \<Longrightarrow> opcode (instructions (T P f) ! p) = OP_RETURN"
    and holds_start: "holds (facts f 0) regs"
    and holds_label: "p < length (instructions f) \<Longrightarrow> opcode (instructions f ! p) = OP_LABEL \<Longrightarrow>
      holds (facts f p) regs"
    and holds_next: "pre P f \<Longrightarrow> Suc p < length (instructions f) \<Longrightarrow> holds (facts f p) regs \<Longrightarrow>
      \<forall>r \<in> set (ir_collect_read_registers (instructions f ! p)). regs r \<noteq> None \<Longrightarrow>
      instr_effect call lm P (instructions f ! p) (\<lambda>r. the (regs r)) gs = Inr (w, None, gs') \<Longrightarrow>
      holds (facts f (Suc p)) (write_register (ir_destination_register (instructions f ! p)) w regs)"
    and keeps_instruction: "pre P f \<Longrightarrow> p < length (instructions f) \<Longrightarrow>
      opcode (instructions f ! p) \<noteq> OP_RETURN \<Longrightarrow> holds (facts f p) regs \<Longrightarrow>
      \<forall>r \<in> set (ir_collect_read_registers (instructions f ! p)). regs r \<noteq> None \<Longrightarrow>
      operands_ok (instructions (T P f) ! p) \<and> opcode (instructions (T P f) ! p) \<noteq> OP_RETURN \<and>
      ir_destination_register (instructions (T P f) ! p) = ir_destination_register (instructions f ! p) \<and>
      (\<forall>r \<in> set (ir_collect_read_registers (instructions (T P f) ! p)). regs r \<noteq> None) \<and>
      instr_effect call lm P (instructions (T P f) ! p) (\<lambda>r. the (regs r)) gs =
        instr_effect call lm P (instructions f ! p) (\<lambda>r. the (regs r)) gs"
begin

definition related :: "IRProgram \<Rightarrow> IRFunction \<Rightarrow> ExecutionContext \<Rightarrow> ExecutionContext \<Rightarrow> bool" where
  "related P f c c' \<longleftrightarrow> c' = c \<and> run_inv P f c \<and>
     (running (instructions f) c \<longrightarrow> holds (facts f (pc c)) (registers c))"

lemma related_step:
  assumes pr: "pre P f" and r: "related P f c c'" and run: "running (instructions f) c"
    and s: "step call lm P (instructions f) (c, gs) = Inr (c1, gs1)"
  shows "step call lm P (instructions (T P f)) (c', gs) = Inr (c1, gs1)" "related P f c1 c1"
proof -
  let ?i = "instructions f ! pc c" and ?i' = "instructions (T P f) ! pc c"
  note v = pre_verified[OF pr]
  have inv: "run_inv P f c" and c': "c' = c" and h: "holds (facts f (pc c)) (registers c)"
    using r run by (auto simp: related_def)
  have p: "pc c < length (instructions f)" and nr: "\<not> returned c" using run by (auto simp: running_def)
  have inv1: "run_inv P f c1" by (rule run_inv_step[OF v inv run s])
  have "step call lm P (instructions (T P f)) (c', gs) = Inr (c1, gs1) \<and> related P f c1 c1"
  proof (cases "opcode ?i = OP_RETURN")
    case True
    then have "c1 = exec_return c" "gs1 = gs" using s step_return[OF True] by simp_all
    then show ?thesis using step_return[OF keeps_return[OF pr p True]] c' inv1
      by (simp add: related_def running_def exec_return_def)
  next
    case False
    note reads = run_inv_reads[OF v inv run False]
    have k: "operands_ok ?i'" "opcode ?i' \<noteq> OP_RETURN"
        "ir_destination_register ?i' = ir_destination_register ?i"
        "\<forall>r \<in> set (ir_collect_read_registers ?i'). registers c r \<noteq> None"
        "instr_effect call lm P ?i' (\<lambda>r. the (registers c r)) gs =
         instr_effect call lm P ?i (\<lambda>r. the (registers c r)) gs"
      using keeps_instruction[OF pr p False h, of call lm gs] reads by blast+
    have "step call lm P (instructions (T P f)) (c, gs) =
        bind_res (instr_effect call lm P ?i' (\<lambda>r. the (registers c r)) gs)
          (take_effect (ir_destination_register ?i') c)"
      by (rule step_effect) (use k inv nr keeps_labels[OF pr] in \<open>auto simp: run_inv_def\<close>)
    then have st: "step call lm P (instructions (T P f)) (c, gs) = Inr (c1, gs1)"
      using s run_inv_step_effect[OF v inv run False] k by simp
    obtain w j where e: "instr_effect call lm P ?i (\<lambda>r. the (registers c r)) gs = Inr (w, j, gs1)"
        and n: "next_pc (labels c) (pc c) j = Some (pc c1)"
        and c1: "registers c1 = write_register (ir_destination_register ?i) w (registers c)"
      using s unfolding run_inv_step_effect[OF v inv run False] by (auto simp: res_simps take_effect_Inr)
    have "holds (facts f (pc c1)) (registers c1)" if "running (instructions f) c1"
    proof (cases j)
      case None
      then have "pc c1 = Suc (pc c)" using n by (simp add: next_pc_def)
      then show ?thesis using holds_next[OF pr _ h _ e[unfolded None]] reads that c1
        by (auto simp: running_def)
    next
      case (Some l)
      then have "collect_labels P (instructions f) l = Some (pc c1)"
        using n inv by (simp add: next_pc_def run_inv_def)
      then show ?thesis using collect_labels_Some holds_label by blast
    qed
    then show ?thesis using st inv1 c' by (simp add: related_def)
  qed
  then show "step call lm P (instructions (T P f)) (c', gs) = Inr (c1, gs1)" "related P f c1 c1" by auto
qed

end

sublocale pointwise_pass \<subseteq> preserving_pass T pre related
proof (unfold_locales, goal_cases)
  case (1 P f)
  show ?case by (rule same_name)
next
  case (2 P f)
  show ?case by (rule same_parameters)
next
  case (3 P f args)
  have "start_context P (T P f) args = start_context P f args"
    using keeps_labels[OF 3(1)] by (simp add: start_context_def entry_context_def same_parameters)
  then show ?case using run_inv_start[OF pre_verified[OF 3(1)] 3(2)] holds_start
    by (simp add: related_def) (simp add: start_context_def)
next
  case (4 P f c c' call lm gs c1 gs1)
  then show ?case using related_step[OF 4(1-3), of call lm gs c1 gs1]
    by (auto simp: running_def keeps_length related_def)
next
  case (5 P f c c')
  then show ?case by (simp add: related_def running_def keeps_length)
qed

end
