(* ===== verification/Scope_Flow.thy ===== *)
theory Scope_Flow
  imports Verifier_Sound
begin

text \<open>
  The scope-mark analysis of the verifier as an instance of \<open>must_analysis\<close>, the paths of
  the control-flow graph it speaks about, and the termination of the whole verifier.
\<close>

definition mark_scope :: "IRInstruction \<Rightarrow> int64 list \<Rightarrow> int64 list" where
  "mark_scope i marked =
     (if opcode i = OP_SCOPE_MARK then List.insert (immediate (operand i 0)) marked else marked)"

definition scope_meet :: "int64 list \<Rightarrow> int64 list \<Rightarrow> int64 list" where
  "scope_meet a b = filter (\<lambda>x. x \<in> set b) a"

definition scope_marks :: "IRInstruction list \<Rightarrow> int64 set" where
  "scope_marks is = {immediate (operand i 0) | i. i \<in> set is \<and> opcode i = OP_SCOPE_MARK}"

definition scope_valid :: "IRInstruction list \<Rightarrow> int64 list \<Rightarrow> bool" where
  "scope_valid is s \<longleftrightarrow> distinct s \<and> set s \<subseteq> scope_marks is"

lemma scope_marks_finite: "finite (scope_marks is)"
proof -
  have "scope_marks is \<subseteq> (\<lambda>i. immediate (operand i 0)) ` set is" by (auto simp: scope_marks_def)
  then show ?thesis by (rule finite_subset) simp
qed

interpretation scope_flow: must_analysis mark_scope scope_meet "scope_valid is" length
  "card (scope_marks is)" "\<lambda>a b. set a \<subseteq> set b" "set is" for "is"
proof
  fix s s' :: "int64 list" and i
  show "scope_valid is s \<Longrightarrow> i \<in> set is \<Longrightarrow> scope_valid is (mark_scope i s)"
    by (auto simp: scope_valid_def mark_scope_def scope_marks_def)
  show "scope_valid is s \<Longrightarrow> scope_valid is s' \<Longrightarrow> scope_valid is (scope_meet s s')"
    by (auto simp: scope_valid_def scope_meet_def)
  show "scope_valid is s \<Longrightarrow> scope_valid is s' \<Longrightarrow> scope_meet s s' \<noteq> s \<Longrightarrow>
      length (scope_meet s s') < length s"
    by (metis scope_meet_def filter_True length_filter_less)
  show "scope_valid is s \<Longrightarrow> length s \<le> card (scope_marks is)"
    by (metis scope_valid_def distinct_card card_mono scope_marks_finite)
qed (auto simp: scope_meet_def)

definition scope_abs :: "scope_flow \<Rightarrow> int64 list solver" where
  "scope_abs fl = (\<lambda>b. if b < length (sf_entry fl) \<and> sf_seen fl ! b then Some (sf_entry fl ! b) else None,
     set (sf_work fl))"

definition scope_shape :: "nat \<Rightarrow> scope_flow \<Rightarrow> bool" where
  "scope_shape n fl \<longleftrightarrow> length (sf_entry fl) = n \<and> length (sf_seen fl) = n \<and> set (sf_work fl) \<subseteq> {..<n}"

lemma scope_visit_abs:
  assumes "scope_shape n fl" "s < n"
  shows "scope_shape n (scope_visit out fl s)"
    "scope_abs (scope_visit out fl s) = abs_visit scope_meet out (scope_abs fl) s"
  using assms by (auto simp: scope_shape_def scope_visit_def scope_abs_def abs_visit_def scope_meet_def
    Let_def fun_eq_iff nth_list_update)

lemma scope_fold_abs:
  "scope_shape n fl \<Longrightarrow> set ss \<subseteq> {..<n} \<Longrightarrow>
     scope_shape n (foldl (scope_visit out) fl ss) \<and>
     scope_abs (foldl (scope_visit out) fl ss) = foldl (abs_visit scope_meet out) (scope_abs fl) ss"
  by (induction ss arbitrary: fl) (auto simp: scope_visit_abs)

text \<open>A fold that leaves every entry as it was adds nothing to the queue.\<close>

lemma scope_visit_same:
  "scope_shape n fl \<Longrightarrow> s < n \<Longrightarrow> fst (scope_abs (scope_visit out fl s)) = fst (scope_abs fl) \<Longrightarrow>
     sf_work (scope_visit out fl s) = sf_work fl"
  by (auto simp: scope_visit_def scope_abs_def scope_shape_def Let_def fun_eq_iff nth_list_update
    split: if_splits)

lemma scope_fold_work:
  assumes "scope_valid is out" "\<forall>b e. fst (scope_abs fl) b = Some e \<longrightarrow> scope_valid is e"
    "scope_shape n fl" "set ss \<subseteq> {..<n}"
  shows "fst (scope_abs (foldl (scope_visit out) fl ss)) = fst (scope_abs fl) \<and>
      sf_work (foldl (scope_visit out) fl ss) = sf_work fl \<or>
    solver_weight length (card (scope_marks is)) n (fst (scope_abs (foldl (scope_visit out) fl ss))) <
      solver_weight length (card (scope_marks is)) n (fst (scope_abs fl))"
  using assms(2-4)
proof (induction ss arbitrary: fl)
  case (Cons s ss)
  let ?fl = "scope_visit out fl s" and ?w = "\<lambda>fl. solver_weight length (card (scope_marks is)) n (fst (scope_abs fl))"
  have s: "s < n" "set ss \<subseteq> {..<n}" using Cons.prems by auto
  note va = scope_visit_abs[OF Cons.prems(2) s(1), of out]
  have val: "\<forall>b e. fst (scope_abs ?fl) b = Some e \<longrightarrow> scope_valid is e"
    unfolding va(2) by (rule scope_flow.visit_valid[OF assms(1) Cons.prems(1)])
  obtain E' W' where v: "abs_visit scope_meet out (fst (scope_abs fl), snd (scope_abs fl)) s = (E', W')"
    by fastforce
  have "fst (scope_abs ?fl) = fst (scope_abs fl) \<or> ?w ?fl < ?w fl"
    using scope_flow.visit_props(7)[OF assms(1) Cons.prems(1) v s(1)] va(2) v by auto
  moreover have "fst (scope_abs ?fl) = fst (scope_abs fl) \<Longrightarrow> sf_work ?fl = sf_work fl"
    using scope_visit_same[OF Cons.prems(2) s(1)] .
  ultimately show ?case
    using Cons.IH[OF val va(1) s(2)] by auto
qed simp

definition scope_inv :: "IRFunction \<Rightarrow> BasicBlock list \<Rightarrow> scope_flow \<Rightarrow> bool" where
  "scope_inv f B fl \<longleftrightarrow> scope_shape (length B) fl \<and>
     solver_inv (scope_valid (instructions f)) (\<lambda>a b. set a \<subseteq> set b)
       (\<lambda>b. fold mark_scope (block_code f (B ! b))) (\<lambda>b. bb_successors (B ! b)) [] (length B) (scope_abs fl)"

lemma scope_transfer_fold: "scope_transfer is s = fold mark_scope is s"
  by (induction "is" arbitrary: s) (auto simp: mark_scope_def)

lemma block_code_subset: "set (block_code f b) \<subseteq> set (instructions f)"
  unfolding block_code_def by (meson order_trans set_drop_subset set_take_subset)

lemma scope_step_inv:
  assumes inv: "scope_inv f B fl" and w: "sf_work fl \<noteq> []"
    and succs: "\<And>b. b < length B \<Longrightarrow> set (bb_successors (B ! b)) \<subseteq> {..<length B}"
  shows "scope_inv f B (scope_step f B fl)"
    "(scope_step f B fl, fl) \<in>
       measures [\<lambda>fl. solver_weight length (card (scope_marks (instructions f))) (length B) (fst (scope_abs fl)),
                 \<lambda>fl. length (sf_work fl)]"
proof -
  let ?n = "length B" and ?b = "hd (sf_work fl)" and ?fl = "fl\<lparr>sf_work := tl (sf_work fl)\<rparr>"
  let ?V = "scope_valid (instructions f)"
  have sh: "scope_shape ?n fl"
    and si: "solver_inv ?V (\<lambda>a b. set a \<subseteq> set b) (\<lambda>b. fold mark_scope (block_code f (B ! b)))
       (\<lambda>b. bb_successors (B ! b)) [] ?n (scope_abs fl)"
    using inv by (auto simp: scope_inv_def)
  have b: "?b \<in> set (sf_work fl)" using w by simp
  then have bn: "?b < ?n" using sh unfolding scope_shape_def by blast
  have tlw: "set (sf_work fl) - {?b} \<subseteq> set (tl (sf_work fl))" "set (tl (sf_work fl)) \<subseteq> set (sf_work fl)"
    using w by (cases "sf_work fl"; auto)+
  have sh': "scope_shape ?n ?fl" using sh tlw(2) by (auto simp: scope_shape_def)
  define E where "E = fst (scope_abs fl)"
  have abs: "scope_abs fl = (E, set (sf_work fl))" "scope_abs ?fl = (E, set (tl (sf_work fl)))"
    by (auto simp: E_def scope_abs_def)
  have val: "\<forall>b e. E b = Some e \<longrightarrow> ?V e" using si unfolding abs(1) by (auto simp: solver_inv_def)
  obtain e where e: "E ?b = Some e" using si b unfolding abs(1) by (auto simp: solver_inv_def)
  have be: "sf_entry fl ! ?b = e" using e by (auto simp: E_def scope_abs_def split: if_splits)
  let ?out = "fold mark_scope (block_code f (B ! ?b)) e"
  have out: "?V ?out" using val e scope_flow.valid_fold block_code_subset by blast
  have st: "scope_step f B fl = foldl (scope_visit ?out) ?fl (bb_successors (B ! ?b))"
    by (simp add: scope_step_def Let_def be scope_transfer_fold)
  obtain E' W' where f: "foldl (abs_visit scope_meet ?out) (E, set (tl (sf_work fl))) (bb_successors (B ! ?b)) = (E', W')"
    by fastforce
  have fv: "scope_shape ?n (scope_step f B fl)" "scope_abs (scope_step f B fl) = (E', W')"
    unfolding st using scope_fold_abs[OF sh' succs[OF bn]] f by (auto simp: abs)
  note stp = scope_flow.inv_step[OF si[unfolded abs(1)] b e tlw out succs[OF bn] f]
  show "scope_inv f B (scope_step f B fl)" using stp(1) fv by (auto simp: scope_inv_def)
  have "fst (scope_abs (scope_step f B fl)) = E \<and> sf_work (scope_step f B fl) = tl (sf_work fl) \<or>
      solver_weight length (card (scope_marks (instructions f))) ?n (fst (scope_abs (scope_step f B fl))) <
      solver_weight length (card (scope_marks (instructions f))) ?n E"
    unfolding st using scope_fold_work[OF out _ sh' succs[OF bn]] val by (auto simp: abs)
  then show "(scope_step f B fl, fl) \<in>
       measures [\<lambda>fl. solver_weight length (card (scope_marks (instructions f))) (length B) (fst (scope_abs fl)),
                 \<lambda>fl. length (sf_work fl)]"
    using w by (auto simp: abs)
qed

lemma scope_start_inv: "B \<noteq> [] \<Longrightarrow> scope_inv f B (scope_start (length B))"
proof -
  assume "B \<noteq> []"
  then have "scope_abs (scope_start (length B)) = ([0 \<mapsto> []], {0})" "scope_shape (length B) (scope_start (length B))"
    by (auto simp: scope_abs_def scope_shape_def scope_start_def fun_eq_iff nth_list_update)
  then show ?thesis using \<open>B \<noteq> []\<close> by (auto simp: scope_inv_def solver_inv_def scope_valid_def)
qed

lemma scope_solve_Some:
  assumes "B \<noteq> []" "\<And>b. b < length B \<Longrightarrow> set (bb_successors (B ! b)) \<subseteq> {..<length B}"
  obtains fl where "scope_solve f B = Some fl" "sf_work fl = []" "scope_inv f B fl"
proof -
  let ?c = "\<lambda>fl. sf_work fl \<noteq> []"
  let ?M = "measures [\<lambda>fl. solver_weight length (card (scope_marks (instructions f))) (length B) (fst (scope_abs fl)),
                 \<lambda>fl. length (sf_work fl)]"
  have "\<exists>t. while_option ?c (scope_step f B) (scope_start (length B)) = Some t"
  proof (rule wf_while_option_Some)
    show "wf {(t, s). (scope_inv f B s \<and> ?c s) \<and> t = scope_step f B s}"
    proof (rule wf_subset[OF wf_measures])
      show "{(t, s). (scope_inv f B s \<and> ?c s) \<and> t = scope_step f B s} \<subseteq> ?M"
        using scope_step_inv(2)[OF _ _ assms(2)] by blast
    qed
    show "scope_inv f B (scope_start (length B))" using assms(1) by (rule scope_start_inv)
  qed (use scope_step_inv(1)[OF _ _ assms(2)] in blast)
  then obtain t where t: "scope_solve f B = Some t" by (auto simp: scope_solve_def)
  have "\<not> ?c t" using t unfolding scope_solve_def by (rule while_option_stop)
  moreover have "scope_inv f B t"
    using while_option_rule[where P = "scope_inv f B", OF scope_step_inv(1)[OF _ _ assms(2)] t[unfolded scope_solve_def]]
      scope_start_inv[OF assms(1)] by auto
  ultimately show ?thesis using t that by auto
qed

text \<open>The control-flow paths from a function's entry.\<close>

inductive cfg_path :: "IRStringTable option \<Rightarrow> label_index \<Rightarrow> IRInstruction list \<Rightarrow> nat list \<Rightarrow> bool"
  for t m "is" where
  path_start: "cfg_path t m is [0]"
| path_step: "cfg_path t m is (ps @ [i]) \<Longrightarrow> i < length is \<Longrightarrow> k \<in> instr_succs t m is i \<Longrightarrow>
    k < length is \<Longrightarrow> cfg_path t m is (ps @ [i, k])"

lemma scope_report_released:
  "scope_report (pre @ i # rest) s = Inr () \<Longrightarrow> opcode i = OP_SCOPE_RELEASE \<Longrightarrow>
     immediate (operand i 0) \<in> set (fold mark_scope pre s)"
  by (induction pre arbitrary: s) (auto simp: mark_scope_def split: if_splits)

lemma scope_inv_code:
  assumes inv: "scope_inv f blocks fl" and sh: "flow_shape (build_blocks t m f) (blocks, [], queued)"
  shows "solver_inv (scope_valid (instructions f)) (\<lambda>a b. set a \<subseteq> set b)
    (code_trans mark_scope (instructions f)) (code_succs t m (instructions f)) []
    (length (leaders (instructions f))) (fst (scope_abs fl), set (sf_work fl))"
    "b < length (leaders (instructions f)) \<Longrightarrow> block_code f (blocks ! b) = block_instrs (instructions f) b"
proof -
  let ?B = "build_blocks t m f" and ?is = "instructions f"
  have len: "length blocks = length (leaders ?is)" using sh by (simp add: flow_shape_def)
  have code: "block_code f (blocks ! b) = block_instrs ?is b"
    "bb_successors (blocks ! b) = code_succs t m ?is b" if b: "b < length (leaders ?is)" for b
    using sh b block_code_build[OF b, of t m] build_blocks_nth[OF b, of t m]
    by (auto simp: flow_shape_def block_code_def)
  then show "b < length (leaders ?is) \<Longrightarrow> block_code f (blocks ! b) = block_instrs ?is b" by blast
  have "scope_abs fl = (fst (scope_abs fl), set (sf_work fl))" by (simp add: scope_abs_def)
  then show "solver_inv (scope_valid ?is) (\<lambda>a b. set a \<subseteq> set b)
    (code_trans mark_scope ?is) (code_succs t m ?is) [] (length (leaders ?is)) (fst (scope_abs fl), set (sf_work fl))"
    using inv code len unfolding scope_inv_def solver_inv_def by auto
qed

lemma path_marks:
  assumes ver: "ir_verify t f = Inr ()"
    and inv: "solver_inv (scope_valid (instructions f)) (\<lambda>a b. set a \<subseteq> set b)
      (code_trans mark_scope (instructions f)) (code_succs t (verified_labels t f) (instructions f)) [] N (E, {})"
    and path: "cfg_path t (verified_labels t f) (instructions f) ps" and ne: "instructions f \<noteq> []"
  shows "\<exists>s. instr_state mark_scope (instructions f) E (last ps) = Some s \<and> last ps < length (instructions f) \<and> ps \<noteq> [] \<and>
    (\<forall>x \<in> set s. \<exists>j \<in> set (butlast ps). opcode (instructions f ! j) = OP_SCOPE_MARK \<and>
       immediate (operand (instructions f ! j) 0) = x)"
  using path
proof (induction rule: cfg_path.induct)
  case path_start
  have "E 0 = Some []" using inv by (auto simp: solver_inv_def)
  then show ?case using ne instr_state_leader[of "instructions f" 0 mark_scope E]
    by (auto simp: block_of_leader)
next
  case (path_step ps i k)
  let ?is = "instructions f"
  have ok: "\<forall>i \<in> set ?is. operands_ok i" and lab: "check_labels t f = Inr (verified_labels t f)"
    by (rule ir_verify_Inr[OF ver], assumption)+
  obtain s where s: "instr_state mark_scope ?is E i = Some s"
    "\<forall>x \<in> set s. \<exists>j \<in> set ps. opcode (?is ! j) = OP_SCOPE_MARK \<and> immediate (operand (?is ! j) 0) = x"
    using path_step.IH by auto
  have "\<exists>s'. instr_state mark_scope ?is E k = Some s' \<and> set s' \<subseteq> set (mark_scope (?is ! i) s)"
  proof (rule scope_flow.instr_solution[OF inv _ _ path_step.hyps(2) s(1) path_step.hyps(3,4)])
    show "verified_labels t f l = Some p \<Longrightarrow> p < length ?is \<and> is_leader ?is p" for l p
      using check_labels_facts[OF lab] by blast
    show "ir_has_effect (opcode (?is ! i)) IR_BRANCH \<or> ir_has_effect (opcode (?is ! i)) IR_TERMINATOR"
      if "i < length ?is" "v \<in> set (operands (?is ! i))" "is_label v" "\<not> ir_has_effect (opcode (?is ! i)) IR_LABEL" for i v
      using branch_effect_of_label[OF _ that(2-4)] ok that(1) by simp
  qed
  then obtain s' where s': "instr_state mark_scope ?is E k = Some s'" "set s' \<subseteq> set (mark_scope (?is ! i) s)"
    by blast
  have "\<exists>j \<in> set (ps @ [i]). opcode (?is ! j) = OP_SCOPE_MARK \<and> immediate (operand (?is ! j) 0) = x"
    if "x \<in> set s'" for x
    using that s(2) s'(2) by (fastforce simp: mark_scope_def split: if_splits)
  then show ?case using s'(1) path_step.hyps(4) by (auto simp: butlast_append)
qed

text \<open>Every path of an accepted function to a release has marked the scope it releases.\<close>

lemma released_scope_marked:
  assumes ver: "ir_verify t f = Inr ()"
    and path: "cfg_path t (verified_labels t f) (instructions f) (ps @ [i])"
    and i: "i < length (instructions f)" "opcode (instructions f ! i) = OP_SCOPE_RELEASE"
  shows "\<exists>j \<in> set ps. opcode (instructions f ! j) = OP_SCOPE_MARK \<and>
    immediate (operand (instructions f ! j) 0) = immediate (operand (instructions f ! i) 0)"
proof -
  let ?is = "instructions f" and ?m = "verified_labels t f"
  have ne: "?is \<noteq> []" using i by auto
  obtain blocks queued where sol: "flow_inv f (build_blocks t ?m f) (blocks, [], queued)"
      "check_scope_marks f blocks = Inr ()"
    by (rule solved_facts[OF ver ne])
  have sh: "flow_shape (build_blocks t ?m f) (blocks, [], queued)" using sol(1) by (simp add: flow_inv_def)
  have len: "length blocks = length (leaders ?is)" using sh by (simp add: flow_shape_def)
  let ?b = "block_of_instruction ?is i"
  have b: "?b < length (leaders ?is)" by (rule block_of_less[OF i(1)])
  have lab: "check_labels t f = Inr ?m" by (rule ir_verify_Inr[OF ver])
  have "b < length blocks \<Longrightarrow> set (bb_successors (blocks ! b)) \<subseteq> {..<length blocks}" for b
    using sh code_succs_range[of ?m ?is b t] check_labels_facts[OF lab] len build_blocks_nth[of b f t ?m]
    by (auto simp: flow_shape_def)
  moreover have "blocks \<noteq> []" using len b by auto
  ultimately obtain fl where fl: "scope_solve f blocks = Some fl" "sf_work fl = []" "scope_inv f blocks fl"
    using scope_solve_Some by metis
  let ?E = "fst (scope_abs fl)"
  have inv: "solver_inv (scope_valid ?is) (\<lambda>a b. set a \<subseteq> set b) (code_trans mark_scope ?is)
      (code_succs t ?m ?is) [] (length (leaders ?is)) (?E, {})"
    using scope_inv_code(1)[OF fl(3) sh] fl(2) by simp
  obtain s where s: "instr_state mark_scope ?is ?E i = Some s"
    "\<forall>x \<in> set s. \<exists>j \<in> set ps. opcode (?is ! j) = OP_SCOPE_MARK \<and> immediate (operand (?is ! j) 0) = x"
    using path_marks[OF ver inv path ne] by auto
  then obtain e where e: "?E ?b = Some e" "s = fold mark_scope (block_prefix ?is i) e"
    by (auto simp: instr_state_def)
  then have seen: "sf_seen fl ! ?b" "sf_entry fl ! ?b = e" by (auto simp: scope_abs_def split: if_splits)
  have "\<forall>b \<in> {0..<length blocks}. (if sf_seen fl ! b
      then scope_report (block_code f (blocks ! b)) (sf_entry fl ! b) else Inr ()) = Inr ()"
    using sol(2) fl(1) \<open>blocks \<noteq> []\<close> by (simp add: check_scope_marks_def)
  from bspec[OF this, of ?b] have "scope_report (block_code f (blocks ! ?b)) e = Inr ()"
    using len b seen by simp
  moreover obtain rest where "block_instrs ?is ?b = block_prefix ?is i @ ?is ! i # rest"
    using block_instrs_split[OF i(1)] by blast
  ultimately have "immediate (operand (?is ! i) 0) \<in> set s"
    using scope_report_released[OF _ i(2)] scope_inv_code(2)[OF fl(3) sh b] e(2) by simp
  then show ?thesis using s(2) by blast
qed

section \<open>Termination\<close>

lemma each_res_Inl: "each_res g xs = Inl e \<Longrightarrow> \<exists>x \<in> set xs. g x = Inl e"
  by (induction xs) (auto simp: bind_res_eq_Inl)

definition ends :: "'a res \<Rightarrow> bool" where
  "ends r \<longleftrightarrow> r \<noteq> Inl Diverges"

lemma ends_simps [simp]:
  "ends (Inr x)" "ends (Inl (CompilerException a b))" "ends (Inl (StdException s))"
  "ends (guard_res cond ty re)"
  by (auto simp: ends_def guard_res_def)

lemma ends_bind: "ends r \<Longrightarrow> (\<And>x. r = Inr x \<Longrightarrow> ends (g x)) \<Longrightarrow> ends (bind_res r g)"
  by (cases r) (auto simp: ends_def)

lemma ends_each: "(\<And>x. x \<in> set xs \<Longrightarrow> ends (g x)) \<Longrightarrow> ends (each_res g xs)"
  unfolding ends_def using each_res_Inl by blast

lemma ends_counts: "ends (check_counts i n j ks)"
  by (induction i n j ks rule: check_counts.induct) (auto simp: Let_def intro!: ends_bind)

lemma ends_index: "ends (index_labels t i is m)"
  by (induction t i "is" m rule: index_labels.induct) (auto simp: fun_upd_def split: list.splits)

lemma ends_hints: "ends (check_hints i s n js)"
  by (induction i s n js rule: check_hints.induct) (auto simp: Let_def)

lemma ends_report: "ends (report_all is s)"
  by (induction "is" arbitrary: s)
    (auto intro!: ends_bind ends_each ends_hints simp: check_reads_def check_type_hint_def)

lemma ends_scope_report: "ends (scope_report is s)"
  by (induction "is" arbitrary: s) auto

lemma check_flow_ends:
  assumes lab: "check_labels t f = Inr m"
  shows "ends (check_definedness_and_types f (build_blocks t m f))"
    "check_definedness_and_types f (build_blocks t m f) = Inr blocks \<Longrightarrow> ends (check_scope_marks f blocks)"
proof -
  let ?B = "build_blocks t m f" and ?is = "instructions f"
  have un: "b \<in> set ?B \<Longrightarrow> \<not> bb_entry_initialized b \<and> \<not> bb_reachable b" for b
    by (auto simp: in_set_conv_nth build_blocks_nth)
  have rng: "b < length ?B \<Longrightarrow> set (bb_successors (?B ! b)) \<subseteq> {..<length ?B}" for b
    using code_succs_range[of m ?is b t] check_labels_facts[OF lab] by (auto simp: build_blocks_nth)
  have sol: "?B \<noteq> [] \<Longrightarrow> \<exists>solved queued. flow_solve f ?B = Some (solved, [], queued) \<and>
      flow_inv f ?B (solved, [], queued)"
    using flow_solve_Some[OF _ un rng] by metis
  show "ends (check_definedness_and_types f ?B)"
    using sol by (auto simp: check_definedness_and_types_def transfer_report_def split: option.splits
      intro!: ends_bind ends_each ends_report)
  assume c: "check_definedness_and_types f ?B = Inr blocks"
  show "ends (check_scope_marks f blocks)"
  proof (cases "blocks = []")
    case False
    then have "?B \<noteq> []" using c by (auto simp: check_definedness_and_types_def)
    then obtain queued where "flow_inv f ?B (blocks, [], queued)"
      using sol c by (auto simp: check_definedness_and_types_def res_simps)
    then have "b < length blocks \<Longrightarrow> set (bb_successors (blocks ! b)) \<subseteq> {..<length blocks}" for b
      using rng[of b] by (auto simp: flow_inv_def flow_shape_def)
    then obtain fl where "scope_solve f blocks = Some fl" using scope_solve_Some[OF False] by metis
    then show ?thesis by (auto simp: check_scope_marks_def intro!: ends_each ends_scope_report)
  qed (simp add: check_scope_marks_def)
qed

lemma ir_verify_ends: "ir_verify t f \<noteq> Inl Diverges"
proof -
  have "ends (check_register_range f)" unfolding check_register_range_def
    by (intro ends_bind ends_each ends_simps) (auto split: IRValue.splits intro!: ends_bind)
  moreover have "ends (check_operands f)"
    unfolding check_operands_def check_instruction_operands_def Let_def check_argument_count_def
      check_call_destination_def
    by (intro ends_each ends_bind) (auto intro!: ends_counts ends_each)
  moreover have "ends (check_labels t f)" unfolding check_labels_def check_targets_def
    by (auto intro!: ends_bind ends_each ends_index)
  moreover have "ends (check_coroutine f)" unfolding check_coroutine_def by (auto intro!: ends_each)
  ultimately have "ends (ir_verify t f)"
    unfolding ir_verify_def by (intro ends_bind) (auto intro: check_flow_ends)
  then show ?thesis by (simp add: ends_def)
qed

end
