(* ===== verification/Optimizer.thy ===== *)
theory Optimizer
  imports Scope_Flow Verified_Run
begin

text \<open>
  The optimiser's state and its shared control-flow analysis, with the passes that rewrite
  instruction by instruction (\<^verbatim>\<open>ir_optimizer.cpp\<close>): unreachable code, the two copy
  propagations, register renumbering and scope marks. A pass takes the optimiser's state,
  which holds the cached analysis, and answers the new state, the new function and whether
  it changed anything.
\<close>

section \<open>State\<close>

record Block =
  blk_begin :: nat
  blk_end :: nat
  blk_successors :: "nat list"

record FunctionAnalysis =
  an_valid :: bool
  an_instruction_count :: nat
  an_label_index :: "nat \<Rightarrow> nat option"
  an_blocks :: "Block list"

record IROptimizer =
  m_analysis :: FunctionAnalysis
  m_pass_limit :: nat
  m_enabled_passes :: "string list"

definition SIZE_MAX :: nat where
  "SIZE_MAX = 2 ^ 64 - 1"

definition no_analysis :: FunctionAnalysis where
  "no_analysis = \<lparr>an_valid = False, an_instruction_count = 0, an_label_index = Map.empty, an_blocks = []\<rparr>"

definition new_optimizer :: IROptimizer where
  "new_optimizer = \<lparr>m_analysis = no_analysis, m_pass_limit = SIZE_MAX, m_enabled_passes = []\<rparr>"

definition set_pass_limit :: "IROptimizer \<Rightarrow> nat \<Rightarrow> IROptimizer" where
  "set_pass_limit opt count = opt\<lparr>m_pass_limit := count\<rparr>"

section \<open>Control flow\<close>

text \<open>\<open>emplace\<close> keeps the first label of a name; names are compared by identifier.\<close>

primrec label_positions :: "nat \<Rightarrow> IRInstruction list \<Rightarrow> (nat \<Rightarrow> nat option) \<Rightarrow> nat \<Rightarrow> nat option" where
  "label_positions i [] m = m"
| "label_positions i (instr # rest) m = label_positions (Suc i) rest
     (if ir_has_effect (opcode instr) IR_LABEL \<and> operands instr \<noteq> [] \<and>
         m (string_id (operand instr 0)) = None
      then m(string_id (operand instr 0) \<mapsto> i) else m)"

definition analysis_successors ::
  "IRInstruction list \<Rightarrow> (nat \<Rightarrow> nat option) \<Rightarrow> nat \<Rightarrow> nat \<times> nat \<Rightarrow> nat list" where
  "analysis_successors is m b bounds =
     (let last = is ! (snd bounds - 1) in
      (if \<not> ir_has_effect (opcode last) IR_LABEL
       then List.map_filter (\<lambda>v. if is_label v
              then map_option (block_of_instruction is) (m (string_id v)) else None) (operands last)
       else []) @
      (if \<not> ir_has_effect (opcode last) IR_TERMINATOR \<and> b + 1 < length (leaders is)
       then [b + 1] else []))"

definition build_analysis :: "IRFunction \<Rightarrow> FunctionAnalysis" where
  "build_analysis func =
     (let is = instructions func; m = label_positions 0 is Map.empty in
      \<lparr>an_valid = True, an_instruction_count = length is, an_label_index = m,
       an_blocks = map (\<lambda>(b, bounds). \<lparr>blk_begin = fst bounds, blk_end = snd bounds,
         blk_successors = analysis_successors is m b bounds\<rparr>) (enumerate 0 (block_bounds is))\<rparr>)"

text \<open>
  The cached analysis is reused while it is valid and the body's length is unchanged. The
  cache is dropped when a function starts being optimised, so it always belongs to the
  function at hand and the comparison of function pointers is not part of the model.
\<close>

definition analysis :: "IROptimizer \<Rightarrow> IRFunction \<Rightarrow> FunctionAnalysis \<times> IROptimizer" where
  "analysis opt func =
     (if an_valid (m_analysis opt) \<and>
         an_instruction_count (m_analysis opt) = length (instructions func)
      then (m_analysis opt, opt)
      else (build_analysis func, opt\<lparr>m_analysis := build_analysis func\<rparr>))"

definition invalidate_analysis :: "IROptimizer \<Rightarrow> IROptimizer" where
  "invalidate_analysis opt = opt\<lparr>m_analysis := (m_analysis opt)\<lparr>an_valid := False\<rparr>\<rparr>"

text \<open>A pass answers the optimiser's new state, the new function and whether it changed.\<close>

type_synonym pass_result = "IROptimizer \<times> IRFunction \<times> bool"

definition replace_instructions ::
  "IROptimizer \<Rightarrow> IRFunction \<Rightarrow> IRInstruction list \<Rightarrow> pass_result" where
  "replace_instructions opt func fresh =
     (let changed = (length fresh \<noteq> length (instructions func) \<or>
            \<not> list_all2 instr_eq fresh (instructions func))
      in (if changed then invalidate_analysis opt else opt,
          func\<lparr>instructions := fresh\<rparr>, changed))"

section \<open>Scans\<close>

definition reads_register :: "IRInstruction \<Rightarrow> int \<Rightarrow> bool" where
  "reads_register instr reg = (reg \<in> set (ir_collect_read_registers instr))"

text \<open>Whether an instruction outside the window from \<open>first_idx\<close> to \<open>last_idx\<close> reads the register.\<close>

definition is_reg_read_outside :: "IRFunction \<Rightarrow> int \<Rightarrow> nat \<Rightarrow> nat \<Rightarrow> bool" where
  "is_reg_read_outside func reg first_idx last_idx =
     list_ex (\<lambda>i. \<not> (first_idx \<le> i \<and> i \<le> last_idx) \<and> reads_register (instructions func ! i) reg)
       [0..<length (instructions func)]"

definition register_unmodified_between :: "IRFunction \<Rightarrow> int \<Rightarrow> nat \<Rightarrow> nat \<Rightarrow> bool" where
  "register_unmodified_between func reg start_idx end_idx =
     list_all (\<lambda>i. ir_destination_register (instructions func ! i) \<noteq> reg \<and>
                    opcode (instructions func ! i) \<noteq> OP_LABEL)
       [start_idx + 1..<min end_idx (length (instructions func))]"

section \<open>Unreachable code\<close>

type_synonym reach_state = "nat list \<times> bool list"

definition reach_visit :: "reach_state \<Rightarrow> nat \<Rightarrow> reach_state" where
  "reach_visit st s = (let (work, seen) = st in
     if \<not> seen ! s then (s # work, seen[s := True]) else (work, seen))"

definition reach_step :: "Block list \<Rightarrow> reach_state \<Rightarrow> reach_state" where
  "reach_step blocks st = (let (work, seen) = st in
     foldl reach_visit (tl work, seen) (blk_successors (blocks ! hd work)))"

definition reachable_blocks :: "Block list \<Rightarrow> bool list res" where
  "reachable_blocks blocks =
     (case while_option (\<lambda>(work, _). work \<noteq> []) (reach_step blocks)
             ([0], (replicate (length blocks) False)[0 := True]) of
        None \<Rightarrow> Inl Diverges
      | Some (_, seen) \<Rightarrow> Inr seen)"

definition opt_block_code :: "IRInstruction list \<Rightarrow> Block \<Rightarrow> IRInstruction list" where
  "opt_block_code is b = take (blk_end b - blk_begin b) (drop (blk_begin b) is)"

definition eliminate_unreachable_code :: "IROptimizer \<Rightarrow> IRFunction \<Rightarrow> pass_result res" where
  "eliminate_unreachable_code opt func =
     (let (an, opt1) = analysis opt func; blocks = an_blocks an in
      if blocks = [] then Inr (opt1, func, False)
      else bind_res (reachable_blocks blocks) (\<lambda>seen.
        Inr (replace_instructions opt1 func
          (concat (map (\<lambda>(b, blk). if seen ! b then opt_block_code (instructions func) blk else [])
            (enumerate 0 blocks))))))"

section \<open>Copies of constants\<close>

text \<open>The constant last loaded into a register: the load's opcode, value and hint.\<close>

type_synonym constant_regs = "(int \<times> IROpcode \<times> IRValue \<times> TypeHint) list"

definition kill_constant :: "constant_regs \<Rightarrow> IRInstruction \<Rightarrow> constant_regs" where
  "kill_constant m instr =
     (let m1 = (if opcode instr = OP_LABEL then [] else m);
          killed = ir_destination_register instr
      in if 0 \<le> killed then AList.delete killed m1 else m1)"

definition record_constant :: "constant_regs \<Rightarrow> IRInstruction \<Rightarrow> constant_regs" where
  "record_constant m instr =
     (if (opcode instr = OP_LOAD_IMM \<or> opcode instr = OP_LOAD_FLOAT_IMM) \<and>
         operands instr \<noteq> [] \<and> is_register (operand instr 0) \<and> 2 \<le> length (operands instr)
      then AList.update (reg_index (operand instr 0)) (opcode instr, operand instr 1, type_hint instr) m
      else m)"

definition copy_constant ::
  "constant_regs \<Rightarrow> IRInstruction \<Rightarrow> IRInstruction \<times> constant_regs" where
  "copy_constant m instr =
     (let m1 = record_constant (kill_constant m instr) instr in
      if opcode instr = OP_MOVE then
        (let dst = reg_index (operand instr 0); src = reg_index (operand instr 1) in
         case map_of m1 src of
           Some (op, v, h) \<Rightarrow>
             ((mk_instr op [Reg dst, v])\<lparr>type_hint := h\<rparr>, AList.update dst (op, v, h) m1)
         | None \<Rightarrow> (instr, m1))
      else (instr, m1))"

primrec copy_constants :: "constant_regs \<Rightarrow> IRInstruction list \<Rightarrow> IRInstruction list" where
  "copy_constants m [] = []"
| "copy_constants m (instr # rest) =
     (let (instr', m') = copy_constant m instr in instr' # copy_constants m' rest)"

definition copy_propagation :: "IROptimizer \<Rightarrow> IRFunction \<Rightarrow> pass_result res" where
  "copy_propagation opt func =
     Inr (replace_instructions opt func (copy_constants [] (instructions func)))"

section \<open>Copies of registers\<close>

text \<open>For a copied register: its source and the index of the copy.\<close>

type_synonym copies = "(int \<times> int \<times> nat) list"

definition propagate_operand ::
  "IRFunction \<Rightarrow> copies \<Rightarrow> nat \<Rightarrow> IRInstruction \<Rightarrow> nat \<Rightarrow> IRValue" where
  "propagate_operand func m i instr j =
     (let v = operands instr ! j in
      if \<not> ir_reads_operand instr j \<or> ir_writes_operand instr j then v
      else case map_of m (reg_index v) of
        None \<Rightarrow> v
      | Some (source_reg, def_idx) \<Rightarrow>
          if register_unmodified_between func source_reg def_idx i then Reg source_reg else v)"

definition propagate_copies :: "IRFunction \<Rightarrow> copies \<Rightarrow> nat \<Rightarrow> IRInstruction \<Rightarrow> IRInstruction" where
  "propagate_copies func m i instr =
     instr\<lparr>operands := map (propagate_operand func m i instr) [0..<length (operands instr)]\<rparr>"

definition kill_copies :: "copies \<Rightarrow> IRInstruction \<Rightarrow> copies" where
  "kill_copies m instr =
     (let m1 = (if opcode instr = OP_CALL \<or> opcode instr = OP_AWAIT \<or> opcode instr = OP_SCOPE_RELEASE
            then [] else m);
          written = ir_destination_register instr
      in if 0 \<le> written
         then filter (\<lambda>(_, source_reg, _). source_reg \<noteq> written) (AList.delete written m1) else m1)"

definition record_copy :: "copies \<Rightarrow> nat \<Rightarrow> IRInstruction \<Rightarrow> copies" where
  "record_copy m i instr =
     (if opcode instr = OP_MOVE \<and> 2 \<le> length (operands instr) \<and>
         is_register (operand instr 0) \<and> is_register (operand instr 1) \<and>
         reg_index (operand instr 0) \<noteq> reg_index (operand instr 1)
      then AList.update (reg_index (operand instr 0)) (reg_index (operand instr 1), i) m else m)"

primrec propagate_from ::
  "IRFunction \<Rightarrow> nat \<Rightarrow> copies \<Rightarrow> IRInstruction list \<Rightarrow> IRInstruction list" where
  "propagate_from func i m [] = []"
| "propagate_from func i m (instr # rest) =
     (let instr' = propagate_copies func m i instr in
      instr' # propagate_from func (Suc i) (record_copy (kill_copies m instr') i instr') rest)"

definition enhanced_copy_propagation :: "IROptimizer \<Rightarrow> IRFunction \<Rightarrow> pass_result res" where
  "enhanced_copy_propagation opt func =
     Inr (replace_instructions opt func (propagate_from func 0 [] (instructions func)))"

section \<open>Register numbers\<close>

type_synonym reg_map = "(int \<times> int) list"

text \<open>The return register and the parameters keep their numbers.\<close>

definition pinned_registers :: "IRFunction \<Rightarrow> reg_map" where
  "pinned_registers func =
     fold (\<lambda>i. AList.update (int i) (int i)) [0..<length (parameters func)]
       [(RETURN_REGISTER, RETURN_REGISTER)]"

definition number_operand :: "reg_map \<times> int \<Rightarrow> IRValue \<Rightarrow> reg_map \<times> int" where
  "number_operand st v = (let (m, next_reg) = st in
     case v of
       Reg old_reg \<Rightarrow> (case map_of m old_reg of
           None \<Rightarrow> (AList.update old_reg next_reg m, next_reg + 1)
         | Some _ \<Rightarrow> (m, next_reg))
     | _ \<Rightarrow> (m, next_reg))"

definition number_registers :: "IRFunction \<Rightarrow> reg_map" where
  "number_registers func = fst (foldl number_operand
     (pinned_registers func, max 1 (int (length (parameters func))))
     (concat (map operands (instructions func))))"

definition rename_operand :: "reg_map \<Rightarrow> IRValue \<Rightarrow> IRValue" where
  "rename_operand m v = (case v of
     Reg old_reg \<Rightarrow> (case map_of m old_reg of Some r \<Rightarrow> Reg r | None \<Rightarrow> Reg 0)
   | _ \<Rightarrow> v)"

definition rename_instruction :: "reg_map \<Rightarrow> IRInstruction \<Rightarrow> IRInstruction" where
  "rename_instruction m instr = instr\<lparr>operands := map (rename_operand m) (operands instr)\<rparr>"

definition rename_local :: "reg_map \<Rightarrow> DebugLocal \<Rightarrow> DebugLocal" where
  "rename_local m local = (case map_of m (dl_register_num local) of
     Some r \<Rightarrow> local\<lparr>dl_register_num := r\<rparr> | None \<Rightarrow> local)"

definition reduce_register_pressure :: "IROptimizer \<Rightarrow> IRFunction \<Rightarrow> pass_result res" where
  "reduce_register_pressure opt func =
     (let m = number_registers func;
          is' = map (rename_instruction m) (instructions func);
          locals' = map (rename_local m) (debug_locals func);
          changed = (is' \<noteq> instructions func \<or> locals' \<noteq> debug_locals func)
      in Inr (if changed then invalidate_analysis opt else opt,
              func\<lparr>instructions := is', debug_locals := locals'\<rparr>, changed))"

section \<open>Scope marks\<close>

definition stops_mark :: "IRInstruction \<Rightarrow> bool" where
  "stops_mark instr = (opcode instr = OP_LABEL \<or> opcode instr = OP_SCOPE_MARK \<or>
     opcode instr = OP_SCOPE_RELEASE \<or> ir_is_control_flow (opcode instr))"

text \<open>One iteration: a mark slides down to the label it would otherwise be cut off from.\<close>

definition tighten_at :: "IRInstruction list \<times> bool \<Rightarrow> nat \<Rightarrow> IRInstruction list \<times> bool" where
  "tighten_at st i =
     (let (is, changed) = st in
      if opcode (is ! i) \<noteq> OP_SCOPE_MARK then (is, changed)
      else let label = i + 1 + length (takeWhile (\<lambda>x. \<not> stops_mark x) (drop (i + 1) is)) in
        if length is \<le> label \<or> opcode (is ! label) \<noteq> OP_LABEL \<or> label = i + 1 then (is, changed)
        else (take i is @ take (label - (i + 1)) (drop (i + 1) is) @ [is ! i] @ drop label is, True))"

definition tighten_scope_marks :: "IROptimizer \<Rightarrow> IRFunction \<Rightarrow> pass_result res" where
  "tighten_scope_marks opt func =
     (let (is', changed) =
        foldl tighten_at (instructions func, False) [0..<length (instructions func) - 1]
      in Inr (if changed then invalidate_analysis opt else opt,
              func\<lparr>instructions := is'\<rparr>, changed))"

end
