(* ===== verification/Copy_Propagation.thy ===== *)
theory Copy_Propagation
  imports In_Place_Passes Optimizer
begin

text \<open>
  The two copy propagations of the optimiser keep the meaning of verified functions: both
  are interpretations of \<open>pointwise_pass\<close>, the facts being the constants that were last
  loaded into registers and the registers that hold copies of others.
\<close>

section \<open>Copies of constants\<close>

definition copy_after :: "constant_regs \<Rightarrow> IRInstruction \<Rightarrow> constant_regs" where
  "copy_after m instr = snd (copy_constant m instr)"

definition copy_facts :: "IRFunction \<Rightarrow> nat \<Rightarrow> constant_regs" where
  "copy_facts f p = (if p < length (instructions f) \<and> opcode (instructions f ! p) = OP_LABEL then []
     else foldl copy_after [] (take p (instructions f)))"

text \<open>What a recorded load puts in its register.\<close>

definition load_constant :: "IROpcode \<Rightarrow> IRValue \<Rightarrow> Value" where
  "load_constant op v = (if op = OP_LOAD_IMM then VInt (immediate v) else VFloat (float_number v))"

definition constant_load :: "IROpcode \<Rightarrow> IRValue \<Rightarrow> bool" where
  "constant_load op v \<longleftrightarrow> (op = OP_LOAD_IMM \<and> is_immediate v) \<or> (op = OP_LOAD_FLOAT_IMM \<and> (\<exists>d. v = FImm d))"

definition copy_holds :: "constant_regs \<Rightarrow> (int \<Rightarrow> Value option) \<Rightarrow> bool" where
  "copy_holds m regs \<longleftrightarrow> (\<forall>r op v h. map_of m r = Some (op, v, h) \<longrightarrow>
     regs r = Some (load_constant op v) \<and> constant_load op v)"

definition copy_pass :: "IRProgram \<Rightarrow> IRFunction \<Rightarrow> IRFunction" where
  "copy_pass P f = f\<lparr>instructions := copy_constants [] (instructions f)\<rparr>"

lemma length_copy_constants [simp]: "length (copy_constants m is) = length is"
  by (induction "is" arbitrary: m) (auto simp: Let_def split: prod.splits)

lemma nth_copy_constants:
  "p < length is \<Longrightarrow> copy_constants m is ! p = fst (copy_constant (foldl copy_after m (take p is)) (is ! p))"
proof (induction "is" arbitrary: m p)
  case (Cons i "is")
  then show ?case by (cases p) (auto simp: Let_def copy_after_def split: prod.splits)
qed simp

lemma copy_constant_other: "opcode i \<noteq> OP_MOVE \<Longrightarrow> fst (copy_constant m i) = i"
  by (simp add: copy_constant_def Let_def)

lemma copy_label:
  "opcode i = OP_LABEL \<Longrightarrow> copy_after m i = []"
  by (simp add: copy_after_def copy_constant_def kill_constant_def record_constant_def Let_def)

lemma copy_pass_nth:
  assumes "p < length (instructions f)"
  shows "instructions (copy_pass P f) ! p = fst (copy_constant (copy_facts f p) (instructions f ! p))"
  using assms by (auto simp: copy_pass_def nth_copy_constants copy_facts_def copy_constant_other)

lemma copy_facts_Suc:
  assumes "Suc p < length (instructions f)" "opcode (instructions f ! Suc p) \<noteq> OP_LABEL"
  shows "copy_facts f (Suc p) = copy_after (copy_facts f p) (instructions f ! p)"
proof -
  have "take (Suc p) (instructions f) = take p (instructions f) @ [instructions f ! p]"
    using assms(1) by (simp add: take_Suc_conv_app_nth)
  then show ?thesis using assms copy_label by (auto simp: copy_facts_def)
qed

lemma move_operands:
  assumes "operands_ok i" "opcode i = OP_MOVE"
  shows "\<exists>d s. operands i = [Reg d, Reg s]"
proof -
  have "operand_matches (operands i ! 0) DST" "operand_matches (operands i ! 1) SRC"
    "0 < length (operands i)" "1 < length (operands i)"
    using fixed_operand[OF assms(1) refl, of 0] fixed_operand[OF assms(1) refl, of 1] assms(2)
    by (auto simp: signature_eval)
  moreover have "length (operands i) \<le> 2"
    using operands_okD(2)[OF assms(1) refl] assms(2) by (simp add: signature_eval)
  ultimately show ?thesis
    by (cases "operands i" rule: list.exhaust; cases "tl (operands i)" rule: list.exhaust)
      (auto simp: operand_matches_def is_register_iff)
qed

lemma constant_operands:
  assumes "operands_ok i" "opcode i = OP_LOAD_IMM \<or> opcode i = OP_LOAD_FLOAT_IMM"
  shows "\<exists>d v. operands i = [Reg d, v] \<and> constant_load (opcode i) v"
proof -
  have "operand_matches (operands i ! 0) DST"
    "operand_matches (operands i ! 1) (if opcode i = OP_LOAD_IMM then IMM else FIMM)"
    "0 < length (operands i)" "1 < length (operands i)"
    using fixed_operand[OF assms(1) refl, of 0] fixed_operand[OF assms(1) refl, of 1] assms(2)
    by (auto simp: signature_eval)
  moreover have "length (operands i) \<le> 2"
    using operands_okD(2)[OF assms(1) refl] assms(2) by (auto simp: signature_eval)
  ultimately show ?thesis using assms(2)
    by (cases "operands i" rule: list.exhaust; cases "tl (operands i)" rule: list.exhaust)
      (auto simp: operand_matches_def is_register_iff constant_load_def split: if_splits IRValue.splits)
qed

lemma move_effect: "opcode i = OP_MOVE \<Longrightarrow>
    instr_effect call lm P i rd gs = Inr (value_effect gs (rd (reg_index (operand i 1))))"
  by (simp add: instr_effect_def op_lists unary_value_def Let_def)

lemma constant_effect: "opcode i = OP_LOAD_IMM \<or> opcode i = OP_LOAD_FLOAT_IMM \<Longrightarrow>
    instr_effect call lm P i rd gs = Inr (value_effect gs (load_constant (opcode i) (operand i 1)))"
  by (auto simp: instr_effect_def op_lists load_value_def Let_def load_constant_def)

lemma check_counts_none: "CNT \<notin> set ks \<Longrightarrow> CNT2 \<notin> set ks \<Longrightarrow> check_counts i n j ks = Inr ()"
  by (induction ks arbitrary: j) auto

lemma operands_okI:
  assumes "signature (ir_opcode_info (opcode i)) = sig" "\<not> is_variadic sig"
    "list_all2 operand_matches (operands i) sig" "CNT \<notin> set sig" "CNT2 \<notin> set sig"
    "\<not> ir_has_effect (opcode i) IR_CALL"
  shows "operands_ok i"
proof -
  have l: "length (operands i) = length sig" using assms(3) by (rule list_all2_lengthD)
  have "check_argument_count i = Inr ()"
    using assms(1,2,4,5) by (simp add: check_argument_count_def fixed_count_def check_counts_none)
  moreover have "check_call_destination i = Inr ()" using assms(6) by (simp add: check_call_destination_def)
  moreover have "\<forall>j < length (operands i). operand_matches (operands i ! j) (kind_at sig j)"
    using assms(2,3) l by (auto simp: kind_at_def fixed_count_def list_all2_conv_all_nth)
  ultimately show ?thesis using assms(1,2) l
    by (simp add: operands_ok_def check_instruction_operands_def Let_def fixed_count_def bind_res_eq_Inr)
qed

lemma constant_load_ok:
  assumes "constant_load op v" "i = (mk_instr op [Reg d, v])\<lparr>type_hint := h\<rparr>"
  shows "operands_ok i" "ir_destination_register i = d" "ir_collect_read_registers i = []"
proof -
  have s: "signature (ir_opcode_info op) = [DST, if op = OP_LOAD_IMM then IMM else FIMM]"
    "\<not> ir_has_effect op IR_CALL" "op \<noteq> OP_RETURN" "op \<in> set DST0_OPS"
    using assms(1) by (auto simp: constant_load_def DST0_OPS_def op_lists)
  show ok: "operands_ok i"
    by (rule operands_okI[of _ "[DST, if op = OP_LOAD_IMM then IMM else FIMM]"])
      (use s assms in \<open>auto simp: is_variadic_def operand_matches_def is_register_def constant_load_def is_immediate_iff\<close>)
  show "ir_destination_register i = d" using destination_0[OF ok] s(4) assms(2) by simp
  have "False" if "r \<in> set (ir_collect_read_registers i)" for r
  proof -
    have "opcode i \<noteq> OP_RETURN" using s(3) assms(2) by simp
    from that[unfolded collect_reads_iff[OF this]] obtain j
      where j: "j < Suc (Suc 0)" "operands i ! j = Reg r" "kind_at (signature (ir_opcode_info op)) j \<noteq> DST"
      using assms(2) by auto
    have "j = 1" using j(1,3) s(1) by (cases j) (auto simp: kind_at_def fixed_count_def is_variadic_def split: if_splits)
    then show False using j(2) assms by (auto simp: constant_load_def is_immediate_iff)
  qed
  then have "set (ir_collect_read_registers i) = {}" by (metis ex_in_conv)
  then show "ir_collect_read_registers i = []" by simp
qed

lemma copy_holds_update:
  "copy_holds m regs \<Longrightarrow> regs d = Some (load_constant op v) \<Longrightarrow> constant_load op v \<Longrightarrow>
     copy_holds (AList.update d (op, v, h) m) regs"
  by (auto simp: copy_holds_def)

lemma copy_holds_next:
  assumes ok: "operands_ok i" and h: "copy_holds m regs"
    and e: "instr_effect call lm P i (\<lambda>r. the (regs r)) gs = Inr (w, None, gs')"
    and nn: "w \<noteq> None \<Longrightarrow> 0 \<le> ir_destination_register i"
    and rd: "\<forall>r \<in> set (ir_collect_read_registers i). regs r \<noteq> None"
  shows "copy_holds (copy_after m i) (write_register (ir_destination_register i) w regs)"
proof -
  let ?d = "ir_destination_register i"
  let ?regs = "write_register ?d w regs"
  have k: "copy_holds (kill_constant m i) ?regs"
  proof (cases w)
    case None
    then show ?thesis using h effect_destination(1)[OF ok e]
      by (auto simp: kill_constant_def copy_holds_def write_register_def Let_def)
  next
    case (Some v)
    then show ?thesis using h nn
      by (auto simp: kill_constant_def copy_holds_def write_register_def Let_def split: if_splits)
  qed
  consider "opcode i = OP_MOVE" | "opcode i = OP_LOAD_IMM \<or> opcode i = OP_LOAD_FLOAT_IMM"
    | "opcode i \<notin> {OP_MOVE, OP_LOAD_IMM, OP_LOAD_FLOAT_IMM}" by blast
  then show ?thesis
  proof cases
    case 1
    obtain d s where o: "operands i = [Reg d, Reg s]" using move_operands[OF ok 1] by blast
    have "?d = d" using destination_0[OF ok] 1 o by (simp add: DST0_OPS_def op_lists)
    moreover have "w = Some (the (regs s))" using e move_effect[OF 1] o by (simp add: value_effect_def)
    ultimately have "regs s = Some (load_constant op v) \<and> constant_load op v"
      if "map_of (kill_constant m i) s = Some (op, v, hint)" for op v hint
      using that h nn by (auto simp: kill_constant_def copy_holds_def Let_def split: if_splits)
    then have "copy_holds (AList.update d (op, v, hint) (kill_constant m i)) ?regs"
      if "map_of (kill_constant m i) s = Some (op, v, hint)" for op v hint
      using that copy_holds_update[OF k] \<open>?d = d\<close> \<open>w = _\<close> by (auto simp: write_register_def)
    then show ?thesis using k 1 o
      by (auto simp: copy_after_def copy_constant_def record_constant_def Let_def split: option.splits)
  next
    case 2
    obtain d v where o: "operands i = [Reg d, v]" "constant_load (opcode i) v"
      using constant_operands[OF ok 2] by blast
    have "?d = d" using destination_0[OF ok] 2 o by (auto simp: DST0_OPS_def op_lists)
    moreover have "w = Some (load_constant (opcode i) v)"
      using e constant_effect[OF 2] o by (simp add: value_effect_def)
    ultimately have "copy_holds (AList.update d (opcode i, v, type_hint i) (kill_constant m i)) ?regs"
      using copy_holds_update[OF k] o(2) by (auto simp: write_register_def)
    then show ?thesis using k 2 o
      by (auto simp: copy_after_def copy_constant_def record_constant_def Let_def is_register_def)
  next
    case 3
    then show ?thesis using k
      by (simp add: copy_after_def copy_constant_def record_constant_def Let_def)
  qed
qed

lemma copy_constant_effect:
  assumes ok: "operands_ok i" and h: "copy_holds m regs" and nr: "opcode i \<noteq> OP_RETURN"
    and rd: "\<forall>r \<in> set (ir_collect_read_registers i). regs r \<noteq> None"
    and i': "i' = fst (copy_constant m i)"
  shows "operands_ok i'" "opcode i' \<noteq> OP_RETURN" "ir_destination_register i' = ir_destination_register i"
    "\<forall>r \<in> set (ir_collect_read_registers i'). regs r \<noteq> None"
    "instr_effect call lm P i' (\<lambda>r. the (regs r)) gs = instr_effect call lm P i (\<lambda>r. the (regs r)) gs"
proof -
  have "operands_ok i' \<and> opcode i' \<noteq> OP_RETURN \<and> ir_destination_register i' = ir_destination_register i \<and>
    (\<forall>r \<in> set (ir_collect_read_registers i'). regs r \<noteq> None) \<and>
    instr_effect call lm P i' (\<lambda>r. the (regs r)) gs = instr_effect call lm P i (\<lambda>r. the (regs r)) gs"
  proof (cases "i' = i")
    case False
    then have mv: "opcode i = OP_MOVE" using copy_constant_other i' by metis
    obtain d s where o: "operands i = [Reg d, Reg s]" using move_operands[OF ok mv] by blast
    have d: "ir_destination_register i = d" using destination_0[OF ok] mv o by (simp add: DST0_OPS_def op_lists)
    obtain op v hint where m: "map_of m s = Some (op, v, hint)"
        and j: "i' = (mk_instr op [Reg d, v])\<lparr>type_hint := hint\<rparr>"
      using False i' mv o d
      by (auto simp: copy_constant_def kill_constant_def record_constant_def Let_def
        split: option.splits if_splits)
    then have c: "constant_load op v" "regs s = Some (load_constant op v)" using h by (auto simp: copy_holds_def)
    then have "opcode i' = OP_LOAD_IMM \<or> opcode i' = OP_LOAD_FLOAT_IMM" using j by (auto simp: constant_load_def)
    from constant_effect[OF this] show ?thesis
      using constant_load_ok[OF c(1) j] c(2) d o j move_effect[OF mv] \<open>opcode i' = OP_LOAD_IMM \<or> _\<close> by auto
  qed (use assms in auto)
  then show "operands_ok i'" "opcode i' \<noteq> OP_RETURN" "ir_destination_register i' = ir_destination_register i"
    "\<forall>r \<in> set (ir_collect_read_registers i'). regs r \<noteq> None"
    "instr_effect call lm P i' (\<lambda>r. the (regs r)) gs = instr_effect call lm P i (\<lambda>r. the (regs r)) gs" by auto
qed


lemma written_nonneg:
  assumes "verified P f" "p < length (instructions f)"
    "instr_effect call lm P (instructions f ! p) rd gs = Inr (w, j, gs')" "w \<noteq> None"
  shows "0 \<le> ir_destination_register (instructions f ! p)"
  using register_range[OF assms(1) nth_mem[OF assms(2)]]
    effect_destination(2)[OF verified_operands[OF assms(1,2)] assms(3,4)] by blast

text \<open>A rewrite that keeps every label instruction, and makes none, keeps the label positions.\<close>

lemma collect_labels_cong:
  assumes "length is' = length is"
    "\<And>p. p < length is \<Longrightarrow> opcode (is ! p) = OP_LABEL \<or> opcode (is' ! p) = OP_LABEL \<Longrightarrow> is' ! p = is ! p"
  shows "collect_labels P is' = collect_labels P is"
proof -
  let ?f = "\<lambda>(i, instr) m.
     if opcode instr = OP_LABEL \<and> operands instr \<noteq> [] \<and> is_label (operands instr ! 0)
     then m(label_text P (operands instr ! 0) \<mapsto> i) else m"
  have gen: "fold ?f (zip ns is') m = fold ?f (zip ns is) m"
    if "length is' = length is" "length ns = length is"
      "\<forall>p < length is. opcode (is ! p) = OP_LABEL \<or> opcode (is' ! p) = OP_LABEL \<longrightarrow> is' ! p = is ! p" for ns m "is" is'
    using that
  proof (induction ns arbitrary: "is" is' m)
    case (Cons n ns)
    obtain x xs y ys where s: "is = x # xs" "is' = y # ys"
      using Cons.prems(1,2) by (cases "is"; cases is') auto
    have "x = y \<or> (opcode x \<noteq> OP_LABEL \<and> opcode y \<noteq> OP_LABEL)"
      using Cons.prems(3)[rule_format, of 0] s by auto
    then have f: "?f (n, y) m = ?f (n, x) m" by auto
    have t: "\<forall>p < length xs. opcode (xs ! p) = OP_LABEL \<or> opcode (ys ! p) = OP_LABEL \<longrightarrow> ys ! p = xs ! p"
    proof (intro allI impI)
      fix p assume "p < length xs" "opcode (xs ! p) = OP_LABEL \<or> opcode (ys ! p) = OP_LABEL"
      then show "ys ! p = xs ! p" using Cons.prems(3)[rule_format, of "Suc p"] s by simp
    qed
    have "length ys = length xs" "length ns = length xs" using Cons.prems(1,2) s by simp_all
    from Cons.IH[OF this t] f show ?case unfolding s zip_Cons_Cons fold_simps by (simp only:)
  qed simp
  have "fold ?f (zip [0..<length is] is') Map.empty = fold ?f (zip [0..<length is] is) Map.empty"
    by (rule gen) (use assms in auto)
  then show ?thesis using assms(1) by (simp add: collect_labels_def enumerate_eq_zip)
qed

text \<open>Only loads of constants are recorded.\<close>

definition recorded_loads :: "constant_regs \<Rightarrow> bool" where
  "recorded_loads m \<longleftrightarrow> (\<forall>r op v h. map_of m r = Some (op, v, h) \<longrightarrow> op \<in> {OP_LOAD_IMM, OP_LOAD_FLOAT_IMM})"

lemma recorded_loads_after: "recorded_loads m \<Longrightarrow> recorded_loads (copy_after m i)"
proof -
  have upd: "recorded_loads m' \<Longrightarrow> op \<in> {OP_LOAD_IMM, OP_LOAD_FLOAT_IMM} \<Longrightarrow>
      recorded_loads (AList.update d (op, v, h) m')" for m' op d v h
    by (auto simp: recorded_loads_def)
  assume "recorded_loads m"
  then have "recorded_loads (kill_constant m i)"
    by (auto simp: recorded_loads_def kill_constant_def Let_def)
  then have 1: "recorded_loads (record_constant (kill_constant m i) i)"
    by (auto simp: record_constant_def intro!: upd)
  then have "recorded_loads (AList.update d (op, v, h) (record_constant (kill_constant m i) i))"
    if "map_of (record_constant (kill_constant m i) i) r = Some (op, v, h)" for d r op v h
    using that by (intro upd) (auto simp: recorded_loads_def)
  with 1 show ?thesis by (auto simp: copy_after_def copy_constant_def Let_def split: option.splits)
qed

lemma recorded_loads_facts: "recorded_loads (copy_facts f p)"
proof -
  have "recorded_loads m \<Longrightarrow> recorded_loads (foldl copy_after m is)" for m "is"
    by (induction "is" arbitrary: m) (auto intro: recorded_loads_after)
  moreover have "recorded_loads []" by (simp add: recorded_loads_def)
  ultimately show ?thesis by (auto simp: copy_facts_def)
qed

lemma copy_constant_label:
  assumes "recorded_loads m" "opcode (fst (copy_constant m i)) = OP_LABEL"
  shows "fst (copy_constant m i) = i"
proof (cases "opcode i = OP_MOVE")
  case True
  have "recorded_loads (record_constant (kill_constant m i) i)"
    using assms(1) True by (auto simp: recorded_loads_def kill_constant_def record_constant_def Let_def)
  moreover have l: "OP_LABEL \<notin> {OP_LOAD_IMM, OP_LOAD_FLOAT_IMM}" by simp
  ultimately have "map_of (record_constant (kill_constant m i) i) r \<noteq> Some (OP_LABEL, v, h)" for r v h
    using l unfolding recorded_loads_def by blast
  then show ?thesis using assms(2) True
    by (auto simp: copy_constant_def Let_def split: option.splits)
qed (simp add: copy_constant_other)

interpretation copy_const: pointwise_pass copy_pass verified copy_facts copy_holds
proof (unfold_locales, goal_cases)
  case (5 P f)
  show ?case
  proof (rule collect_labels_cong)
    fix p assume p: "p < length (instructions f)" and
      l: "opcode (instructions f ! p) = OP_LABEL \<or> opcode (instructions (copy_pass P f) ! p) = OP_LABEL"
    then show "instructions (copy_pass P f) ! p = instructions f ! p"
      using copy_constant_label[OF recorded_loads_facts[of f p]] copy_constant_other[of "instructions f ! p"]
      by (auto simp: copy_pass_nth[OF p])
  qed (simp add: copy_pass_def)
next
  case (6 P f p)
  then show ?case by (simp add: copy_pass_nth copy_constant_other)
next
  case (9 P f p regs call lm gs w gs')
  then show ?case
    using copy_holds_next[OF verified_operands[OF 9(1)] 9(3,5) written_nonneg[OF 9(1) _ 9(5)] 9(4)] copy_facts_Suc[OF 9(2)]
    by (cases "opcode (instructions f ! Suc p) = OP_LABEL") (auto simp: copy_facts_def copy_holds_def)
next
  case (10 P f p regs call lm gs)
  show ?case using copy_constant_effect[OF verified_operands[OF 10(1,2)] 10(4,3,5) copy_pass_nth[OF 10(2)]] by blast
qed (auto simp: copy_pass_def copy_facts_def copy_holds_def)

section \<open>Copies of registers\<close>

primrec copies_at :: "IRFunction \<Rightarrow> nat \<Rightarrow> copies" where
  "copies_at f 0 = []"
| "copies_at f (Suc p) =
     (let instr' = propagate_copies f (copies_at f p) p (instructions f ! p)
      in record_copy (kill_copies (copies_at f p) instr') p instr')"

definition alias_facts :: "IRFunction \<Rightarrow> nat \<Rightarrow> (int \<times> int) set" where
  "alias_facts f p = (if p < length (instructions f) \<and> opcode (instructions f ! p) = OP_LABEL then {}
     else {(d, s). \<exists>k. map_of (copies_at f p) d = Some (s, k) \<and> register_unmodified_between f s k p})"

definition alias_holds :: "(int \<times> int) set \<Rightarrow> (int \<Rightarrow> Value option) \<Rightarrow> bool" where
  "alias_holds F regs \<longleftrightarrow> (\<forall>(d, s) \<in> F. regs d = regs s)"

definition enhanced_pass :: "IRProgram \<Rightarrow> IRFunction \<Rightarrow> IRFunction" where
  "enhanced_pass P f = f\<lparr>instructions := propagate_from f 0 [] (instructions f)\<rparr>"

text \<open>The result still has no call that reads its own destination.\<close>

definition enhanced_pre :: "IRProgram \<Rightarrow> IRFunction \<Rightarrow> bool" where
  "enhanced_pre P f \<longleftrightarrow> verified P f \<and> check_operands (enhanced_pass P f) = Inr ()"

lemma length_propagate_from [simp]: "length (propagate_from f i m is) = length is"
  by (induction "is" arbitrary: i m) (auto simp: Let_def)

lemma nth_propagate_from:
  "p < length (instructions f) \<Longrightarrow> q \<le> p \<Longrightarrow>
     propagate_from f q (copies_at f q) (drop q (instructions f)) ! (p - q) =
       propagate_copies f (copies_at f p) p (instructions f ! p)"
proof (induction "p - q" arbitrary: q)
  case 0
  then have "drop q (instructions f) = instructions f ! p # drop (Suc p) (instructions f)" "q = p"
    by (auto simp: Cons_nth_drop_Suc)
  then show ?case by (simp add: Let_def)
next
  case (Suc n)
  have "propagate_from f (Suc q) (copies_at f (Suc q)) (drop (Suc q) (instructions f)) ! (p - Suc q) =
      propagate_copies f (copies_at f p) p (instructions f ! p)"
    by (rule Suc(1)) (use Suc in auto)
  moreover have "drop q (instructions f) = instructions f ! q # drop (Suc q) (instructions f)" "p - q = Suc (p - Suc q)"
    using Suc by (auto simp: Cons_nth_drop_Suc)
  ultimately show ?case by (simp add: Let_def)
qed

lemma enhanced_pass_nth:
  "p < length (instructions f) \<Longrightarrow>
     instructions (enhanced_pass P f) ! p = propagate_copies f (copies_at f p) p (instructions f ! p)"
  using nth_propagate_from[of p f 0] by (simp add: enhanced_pass_def)

lemma propagate_copies_simps [simp]:
  "opcode (propagate_copies f m p i) = opcode i" "type_hint (propagate_copies f m p i) = type_hint i"
  "length (operands (propagate_copies f m p i)) = length (operands i)"
  by (simp_all add: propagate_copies_def)

lemma propagate_copies_nth:
  "j < length (operands i) \<Longrightarrow> operands (propagate_copies f m p i) ! j = propagate_operand f m p i j"
  by (simp add: propagate_copies_def)

lemma propagate_written: "ir_writes_operand i j \<Longrightarrow> propagate_operand f m p i j = operands i ! j"
  by (simp add: propagate_operand_def Let_def)

lemma propagate_kind: "is_register (propagate_operand f m p i j) = is_register (operands i ! j)"
  by (auto simp: propagate_operand_def Let_def ir_reads_operand_def is_register_def split: option.splits)

lemma propagate_constant: "\<not> is_register (operands i ! j) \<Longrightarrow> propagate_operand f m p i j = operands i ! j"
  by (auto simp: propagate_operand_def Let_def ir_reads_operand_def)

lemma propagate_no_copies: "propagate_copies f [] p i = i"
proof -
  have "map (propagate_operand f [] p i) [0..<length (operands i)] = operands i"
    by (rule nth_equalityI) (auto simp: propagate_operand_def Let_def)
  then show ?thesis by (simp add: propagate_copies_def)
qed

lemma destination_index_kind:
  assumes "0 \<le> ir_destination_operand_index op"
  shows "nat (ir_destination_operand_index op) < fixed_count (signature (ir_opcode_info op))"
    "signature (ir_opcode_info op) ! nat (ir_destination_operand_index op) \<in> {DST, INOUT}"
proof -
  let ?sig = "signature (ir_opcode_info op)"
  obtain i where i: "List.find (\<lambda>i. ?sig ! i = DST \<or> ?sig ! i = INOUT) [0..<fixed_count ?sig] = Some i"
    using assms by (auto simp: ir_destination_operand_index_def Let_def split: option.splits)
  then have "ir_destination_operand_index op = int i" by (simp add: ir_destination_operand_index_def Let_def)
  moreover have "i < fixed_count ?sig" "?sig ! i \<in> {DST, INOUT}" using i by (auto simp: find_Some_iff)
  ultimately show "nat (ir_destination_operand_index op) < fixed_count ?sig"
    "?sig ! nat (ir_destination_operand_index op) \<in> {DST, INOUT}" by auto
qed

lemma propagate_destination:
  "ir_destination_register (propagate_copies f m p i) = ir_destination_register i"
proof -
  let ?k = "ir_destination_operand_index (opcode i)" and ?i = "propagate_copies f m p i"
  show ?thesis
  proof (cases "0 \<le> ?k \<and> nat ?k < length (operands i)")
    case True
    let ?sig = "signature (ir_opcode_info (opcode i))"
    have "nat ?k < fixed_count ?sig" "?sig ! nat ?k \<in> {DST, INOUT}"
      using destination_index_kind True by auto
    then have "operands ?i ! nat ?k = operands i ! nat ?k"
      using True propagate_written[of i "nat ?k" f m p] propagate_constant[of i "nat ?k" f m p]
      by (cases "is_register (operands i ! nat ?k)")
        (auto simp: propagate_copies_nth ir_writes_operand_def kind_at_def)
    then show ?thesis by (simp add: ir_destination_register_def Let_def)
  qed (auto simp: ir_destination_register_def)
qed


lemma map_of_filter_Some:
  "distinct (map fst m) \<Longrightarrow> map_of (filter Q m) d = Some v \<longleftrightarrow> map_of m d = Some v \<and> Q (d, v)"
  by (induction m) (auto simp: map_of_eq_None_iff[symmetric] dest: map_of_SomeD
    split: if_splits intro: image_eqI[of _ fst])

lemma kill_copies_distinct: "distinct (map fst m) \<Longrightarrow> distinct (map fst (kill_copies m i))"
  by (auto simp: kill_copies_def Let_def distinct_map_filter distinct_delete)

lemma kill_copies_Some:
  assumes "distinct (map fst m)" "map_of (kill_copies m i) d = Some (s, k)"
  shows "map_of m d = Some (s, k)"
    "0 \<le> ir_destination_register i \<Longrightarrow> d \<noteq> ir_destination_register i \<and> s \<noteq> ir_destination_register i"
  using assms
  by (auto simp: kill_copies_def Let_def map_of_filter_Some distinct_delete split: if_splits)

lemma copies_distinct: "distinct (map fst (copies_at f p))"
  by (induction p) (auto simp: Let_def record_copy_def distinct_update kill_copies_distinct)

text \<open>Where an entry after an instruction comes from: the instruction itself, or before it.\<close>

lemma copies_at_Suc:
  assumes "map_of (copies_at f (Suc p)) d = Some (s, k)"
    and i': "i' = propagate_copies f (copies_at f p) p (instructions f ! p)"
  obtains (recorded) "k = p" "opcode i' = OP_MOVE" "2 \<le> length (operands i')"
      "operand i' 0 = Reg d" "operand i' 1 = Reg s" "d \<noteq> s"
  | (kept) "map_of (copies_at f p) d = Some (s, k)"
      "0 \<le> ir_destination_register i' \<Longrightarrow> d \<noteq> ir_destination_register i' \<and> s \<noteq> ir_destination_register i'"
proof -
  let ?m = "kill_copies (copies_at f p) i'"
  have "map_of (record_copy ?m p i') d = Some (s, k)" using assms by (simp add: Let_def)
  then have "(k = p \<and> opcode i' = OP_MOVE \<and> 2 \<le> length (operands i') \<and>
      operand i' 0 = Reg d \<and> operand i' 1 = Reg s \<and> d \<noteq> s) \<or> map_of ?m d = Some (s, k)"
    by (auto simp: record_copy_def is_register_iff split: if_splits)
  then show thesis using kill_copies_Some[OF copies_distinct, of f p i' d s k] that by blast
qed

lemma copies_before: "map_of (copies_at f p) d = Some (s, k) \<Longrightarrow> k < p"
proof (induction p arbitrary: d s k)
  case (Suc p)
  from Suc.prems show ?case by (rule copies_at_Suc[OF _ refl]) (auto dest: Suc.IH)
qed simp

lemma unmodified_Suc:
  assumes "register_unmodified_between f s k (Suc p)" "p < length (instructions f)"
  shows "register_unmodified_between f s k p"
    "k < p \<Longrightarrow> opcode (instructions f ! p) \<noteq> OP_LABEL \<and> ir_destination_register (instructions f ! p) \<noteq> s"
  using assms by (auto simp: register_unmodified_between_def list_all_iff)

lemma label_reads_nothing:
  assumes "operands_ok i" "opcode i = OP_LABEL"
  shows "\<not> ir_reads_operand i j"
proof
  assume r: "ir_reads_operand i j"
  then have "j < length (operands i)" "is_register (operands i ! j)" by (auto simp: ir_reads_operand_def)
  moreover have "length (operands i) \<le> 1"
    using operands_okD(2)[OF assms(1) refl] assms(2) by (simp add: signature_eval)
  ultimately have "j = 0" "0 < length (operands i)" "is_register (operands i ! 0)" by (cases j; auto)+
  then show False using operands_okD(3)[OF assms(1) refl, of 0] assms(2)
    by (auto simp: signature_eval operand_matches_def is_register_iff is_label_def)
qed

lemma propagated_read:
  assumes ok: "operands_ok (instructions f ! p)" and h: "alias_holds (alias_facts f p) regs" and p: "p < length (instructions f)"
    and j: "ir_reads_operand (instructions f ! p) j"
  shows "regs (reg_index (propagate_operand f (copies_at f p) p (instructions f ! p) j)) =
    regs (reg_index (operands (instructions f ! p) ! j))"
proof -
  have "opcode (instructions f ! p) \<noteq> OP_LABEL" using label_reads_nothing[OF ok] j by blast
  then show ?thesis using h j p
    by (auto simp: propagate_operand_def Let_def alias_holds_def alias_facts_def split: option.splits)
qed


lemma alias_holds_next:
  assumes v: "verified P f" and p: "Suc p < length (instructions f)"
    and h: "alias_holds (alias_facts f p) regs"
    and rd: "\<forall>r \<in> set (ir_collect_read_registers (instructions f ! p)). regs r \<noteq> None"
    and e: "instr_effect call lm P (instructions f ! p) (\<lambda>r. the (regs r)) gs = Inr (w, None, gs')"
  shows "alias_holds (alias_facts f (Suc p)) (write_register (ir_destination_register (instructions f ! p)) w regs)"
  unfolding alias_holds_def
proof (clarify)
  let ?i = "instructions f ! p" and ?i' = "propagate_copies f (copies_at f p) p (instructions f ! p)"
  let ?d = "ir_destination_register ?i"
  have p': "p < length (instructions f)" using p by simp
  note ok = verified_operands[OF v p']
  fix d s assume "(d, s) \<in> alias_facts f (Suc p)"
  then obtain k where k: "map_of (copies_at f (Suc p)) d = Some (s, k)" "register_unmodified_between f s k (Suc p)"
    by (auto simp: alias_facts_def split: if_splits)
  from k(1) show "write_register ?d w regs d = write_register ?d w regs s"
  proof (rule copies_at_Suc[OF _ refl])
    assume a: "opcode ?i' = OP_MOVE" "operand ?i' 0 = Reg d" "operand ?i' 1 = Reg s" "d \<noteq> s"
    then have mv: "opcode ?i = OP_MOVE" by simp
    obtain d0 s0 where o: "operands ?i = [Reg d0, Reg s0]" using move_operands[OF ok mv] by blast
    have r1: "ir_reads_operand ?i 1" using mv o by (simp add: ir_reads_operand_def signature_eval is_register_def)
    have r0: "\<not> ir_reads_operand ?i 0" using mv o by (simp add: ir_reads_operand_def signature_eval)
    have "operand ?i' 0 = Reg d0" using r0 o by (simp add: propagate_copies_def propagate_operand_def Let_def)
    then have d: "d = d0" "?d = d" using a(2) destination_0[OF ok] mv o by (auto simp: DST0_OPS_def op_lists)
    have "regs s = regs s0"
      using propagated_read[OF ok h p' r1] a(3) o by (simp add: propagate_copies_def)
    moreover have "s0 \<in> set (ir_collect_read_registers ?i)"
      using collect_reads_iff[of ?i s0] mv o by (auto simp: signature_eval intro!: exI[of _ 1])
    moreover have "w = Some (the (regs s0))" using e move_effect[OF mv] o by (simp add: value_effect_def)
    ultimately show ?thesis using d a(4) rd by (auto simp: write_register_def)
  next
    assume m: "map_of (copies_at f p) d = Some (s, k)" and
      n: "0 \<le> ir_destination_register ?i' \<Longrightarrow> d \<noteq> ir_destination_register ?i' \<and> s \<noteq> ir_destination_register ?i'"
    have "k < p" by (rule copies_before[OF m])
    then have "(d, s) \<in> alias_facts f p"
      using m unmodified_Suc[OF k(2) p'] by (auto simp: alias_facts_def)
    then have "regs d = regs s" using h by (auto simp: alias_holds_def)
    then show ?thesis using n written_nonneg[OF v p' e]
      by (cases w) (auto simp: write_register_def propagate_destination)
  qed
qed

lemma propagate_same_view:
  assumes ok: "operands_ok (instructions f ! p)" and p: "p < length (instructions f)"
    and h: "alias_holds (alias_facts f p) regs"
  shows "same_view (instructions f ! p) (\<lambda>r. the (regs r))
    (propagate_copies f (copies_at f p) p (instructions f ! p)) (\<lambda>r. the (regs r))"
  using propagated_read[OF ok h p]
  by (auto simp: same_view_def propagate_copies_nth propagate_constant)

lemma propagate_reads:
  assumes ok: "operands_ok (instructions f ! p)" and p: "p < length (instructions f)"
    and nr: "opcode (instructions f ! p) \<noteq> OP_RETURN" and h: "alias_holds (alias_facts f p) regs"
    and rd: "\<forall>r \<in> set (ir_collect_read_registers (instructions f ! p)). regs r \<noteq> None"
    and r: "r \<in> set (ir_collect_read_registers (propagate_copies f (copies_at f p) p (instructions f ! p)))"
  shows "regs r \<noteq> None"
proof -
  let ?i = "instructions f ! p" and ?i' = "propagate_copies f (copies_at f p) p (instructions f ! p)"
  obtain j where j: "j < length (operands ?i)" "operands ?i' ! j = Reg r"
      "kind_at (signature (ir_opcode_info (opcode ?i))) j \<noteq> DST"
    using r nr collect_reads_iff[of ?i' r] by auto
  have "is_register (operands ?i ! j)"
    using j propagate_kind[of f "copies_at f p" p ?i j] by (simp add: propagate_copies_nth is_register_def)
  then have rj: "ir_reads_operand ?i j" and "reg_index (operands ?i ! j) \<in> set (ir_collect_read_registers ?i)"
    using j nr collect_reads_iff[of ?i] by (auto simp: ir_reads_operand_def is_register_iff)
  then show ?thesis using propagated_read[OF ok h p rj] rd j by (simp add: propagate_copies_nth)
qed

interpretation copy_regs: pointwise_pass enhanced_pass enhanced_pre alias_facts alias_holds
proof (unfold_locales, goal_cases)
  case (5 P f)
  show ?case
  proof (rule collect_labels_cong)
    fix p assume p: "p < length (instructions f)" and
      l: "opcode (instructions f ! p) = OP_LABEL \<or> opcode (instructions (enhanced_pass P f) ! p) = OP_LABEL"
    then have lab: "opcode (instructions f ! p) = OP_LABEL" by (simp add: enhanced_pass_nth)
    have ok: "operands_ok (instructions f ! p)" using 5 verified_operands[OF _ p] by (auto simp: enhanced_pre_def)
    have "propagate_copies f m p (instructions f ! p) = instructions f ! p" for m
    proof -
      have "map (propagate_operand f m p (instructions f ! p)) [0..<length (operands (instructions f ! p))] =
          operands (instructions f ! p)"
        by (rule nth_equalityI) (auto simp: propagate_operand_def Let_def label_reads_nothing[OF ok lab])
      then show ?thesis by (simp add: propagate_copies_def)
    qed
    then show "instructions (enhanced_pass P f) ! p = instructions f ! p" by (simp add: enhanced_pass_nth[OF p])
  qed (simp add: enhanced_pass_def)
next
  case (6 P f p)
  then show ?case by (simp add: enhanced_pass_nth)
next
  case (9 P f p regs call lm gs w gs')
  then show ?case using alias_holds_next[OF _ 9(2-5)] by (simp add: enhanced_pre_def)
next
  case (10 P f p regs call lm gs)
  have v: "verified P f" using 10(1) by (simp add: enhanced_pre_def)
  note ok = verified_operands[OF v 10(2)]
  have "operands_ok (instructions (enhanced_pass P f) ! p)"
    using 10(1,2) by (auto simp: enhanced_pre_def check_operands_def operands_ok_def enhanced_pass_def)
  then show ?case
    using propagate_reads[OF ok 10(2-5)] 10(3) view_effect[OF ok propagate_same_view[OF ok 10(2,4)]]
    by (auto simp: enhanced_pass_nth[OF 10(2)] propagate_destination)
qed (auto simp: enhanced_pass_def enhanced_pre_def alias_facts_def alias_holds_def)

end
