(* ===== verification/Deleting_Passes.thy ===== *)
theory Deleting_Passes
  imports Copy_Propagation
begin

text \<open>
  Passes that only delete instructions. \<open>deleting_pass\<close> is their contract: what is executed and
  deleted writes a register no kept instruction reads. Such a pass is a
  \<open>preserving_pass\<close>; its relation moves the program counter to where the rest of the body
  has slid.
\<close>

section \<open>Keeping part of a body\<close>

definition kept_code :: "(nat \<Rightarrow> bool) \<Rightarrow> 'a list \<Rightarrow> 'a list" where
  "kept_code K xs = map ((!) xs) (filter K [0..<length xs])"

text \<open>Where an index of the old body lands in the new one.\<close>

definition kept_pos :: "(nat \<Rightarrow> bool) \<Rightarrow> nat \<Rightarrow> nat" where
  "kept_pos K p = length (filter K [0..<p])"

lemma kept_pos_0 [simp]: "kept_pos K 0 = 0"
  by (simp add: kept_pos_def)

lemma kept_pos_Suc: "kept_pos K (Suc p) = kept_pos K p + (if K p then 1 else 0)"
  by (simp add: kept_pos_def)

lemma kept_pos_length: "kept_pos K (length xs) = length (kept_code K xs)"
  by (simp add: kept_pos_def kept_code_def)

lemma kept_code_nth:
  assumes "p < length xs" "K p"
  shows "kept_pos K p < length (kept_code K xs)" "kept_code K xs ! kept_pos K p = xs ! p"
proof -
  have "[0..<length xs] = [0..<p] @ p # [Suc p..<length xs]"
    using assms(1) upt_add_eq_append[of 0 p "length xs - p"] by (simp add: upt_conv_Cons)
  then have "filter K [0..<length xs] = filter K [0..<p] @ p # filter K [Suc p..<length xs]"
    using assms(2) by (metis filter.simps(2) filter_append)
  then show "kept_pos K p < length (kept_code K xs)" "kept_code K xs ! kept_pos K p = xs ! p"
    by (simp_all add: kept_pos_def kept_code_def nth_append)
qed

lemma kept_code_index:
  assumes "q < length (kept_code K xs)"
  obtains p where "p < length xs" "K p" "q = kept_pos K p" "kept_code K xs ! q = xs ! p"
proof -
  let ?p = "filter K [0..<length xs] ! q"
  have q: "q < length (filter K [0..<length xs])" using assms by (simp add: kept_code_def)
  then have p: "?p < length xs" "K ?p" using nth_mem[OF q] by auto
  have "kept_pos K ?p = q"
  proof -
    have "[0..<length xs] = [0..<?p] @ ?p # [Suc ?p..<length xs]"
      using p(1) upt_add_eq_append[of 0 ?p "length xs - ?p"] by (simp add: upt_conv_Cons)
    then have s: "filter K [0..<length xs] = filter K [0..<?p] @ ?p # filter K [Suc ?p..<length xs]"
      using p(2) by (metis filter.simps(2) filter_append)
    then have "filter K [0..<length xs] ! kept_pos K ?p = ?p"
      by (metis kept_pos_def nth_append_length)
    moreover have "kept_pos K ?p < length (filter K [0..<length xs])"
      using kept_code_nth(1)[of _ xs K, OF p] by (simp add: kept_code_def)
    moreover have "distinct (filter K [0..<length xs])" by simp
    ultimately show ?thesis using q by (metis nth_eq_iff_index_eq)
  qed
  then show thesis using that[OF p] kept_code_nth(2)[of _ xs K, OF p] by metis
qed

section \<open>Labels of accepted bodies\<close>

definition label_named :: "IRProgram \<Rightarrow> IRInstruction \<Rightarrow> string \<Rightarrow> bool" where
  "label_named P i l \<longleftrightarrow> opcode i = OP_LABEL \<and> operands i \<noteq> [] \<and> is_label (operands i ! 0) \<and>
     label_text P (operands i ! 0) = l"

definition unique_labels :: "IRProgram \<Rightarrow> IRInstruction list \<Rightarrow> bool" where
  "unique_labels P is \<longleftrightarrow> (\<forall>p < length is. \<forall>q < length is. \<forall>l.
     label_named P (is ! p) l \<longrightarrow> label_named P (is ! q) l \<longrightarrow> p = q)"

lemma collect_labels_named:
  "collect_labels P is l = Some p \<Longrightarrow> p < length is \<and> label_named P (is ! p) l"
  using collect_labels_Some[of P "is" l p] by (auto simp: label_named_def)

lemma collect_labels_total:
  assumes "p < length is" "label_named P (is ! p) l"
  shows "collect_labels P is l \<noteq> None"
proof -
  let ?f = "\<lambda>(i, instr) m.
     if opcode instr = OP_LABEL \<and> operands instr \<noteq> [] \<and> is_label (operands instr ! 0)
     then m(label_text P (operands instr ! 0) \<mapsto> i) else m"
  have keep: "m l \<noteq> None \<Longrightarrow> fold ?f xs m l \<noteq> None" for xs m
  proof (induction xs arbitrary: m)
    case (Cons x xs)
    have "?f x m l \<noteq> None" using Cons.prems by (auto split: prod.splits)
    then show ?case using Cons.IH by simp
  qed simp
  have "fold ?f xs m l \<noteq> None" if "(p, i) \<in> set xs" "label_named P i l" for xs m i
    using that(1)
  proof (induction xs arbitrary: m)
    case (Cons x xs)
    show ?case
    proof (cases "x = (p, i)")
      case True
      then have "?f x m l \<noteq> None" using that(2) by (auto simp: label_named_def)
      then show ?thesis using keep by simp
    next
      case False
      then show ?thesis using Cons by simp
    qed
  qed simp
  then show ?thesis using assms by (fastforce simp: collect_labels_def set_enumerate)
qed

lemma collect_labels_iff:
  assumes "unique_labels P is"
  shows "collect_labels P is l = Some p \<longleftrightarrow> p < length is \<and> label_named P (is ! p) l"
proof
  assume r: "p < length is \<and> label_named P (is ! p) l"
  then obtain q where q: "collect_labels P is l = Some q" using collect_labels_total[of p "is" P l] by blast
  then have "q = p" using collect_labels_named[OF q] r assms by (auto simp: unique_labels_def)
  then show "collect_labels P is l = Some p" using q by simp
qed (rule collect_labels_named)

lemma index_labels_keep: "index_labels t i is m = Inr m' \<Longrightarrow> m l = Some p \<Longrightarrow> m' l = Some p"
proof (induction "is" arbitrary: i m)
  case (Cons x xs)
  from Cons.prems show ?case
    by (auto split: if_splits list.splits intro: Cons.IH elim!: Cons.IH simp: fun_upd_def)
qed simp

lemma index_labels_at:
  "index_labels t i is m = Inr m' \<Longrightarrow> p < length is \<Longrightarrow> opcode (is ! p) = OP_LABEL \<Longrightarrow>
     operands (is ! p) \<noteq> [] \<Longrightarrow> m' (name_of t (operands (is ! p) ! 0)) = Some (i + p)"
proof (induction "is" arbitrary: i m p)
  case (Cons x xs)
  show ?case
  proof (cases p)
    case 0
    then have l: "ir_has_effect (opcode x) IR_LABEL" using Cons.prems(3) unfolding label_effect by simp
    obtain v vs where v: "operands x = v # vs" using Cons.prems(4) 0 by (cases "operands x") auto
    then have "index_labels t (Suc i) xs (m(name_of t v \<mapsto> i)) = Inr m'"
      using Cons.prems(1) l by (auto split: if_splits)
    then show ?thesis using index_labels_keep[of t "Suc i" xs _ m' "name_of t v" i] 0 v by simp
  next
    case (Suc q)
    obtain i' m'' where "index_labels t (Suc i) xs m'' = Inr m'"
      using Cons.prems(1) by (auto split: if_splits list.splits)
    from Cons.IH[OF this, of q] Cons.prems Suc show ?thesis by simp
  qed
qed simp

lemma verified_unique_labels:
  assumes "verified P f"
  shows "unique_labels P (instructions f)"
proof -
  have "index_labels (Some (strings P)) 0 (instructions f) Map.empty =
      Inr (verified_labels (Some (strings P)) f)"
    using assms unfolding verified_def by (rule ir_verify_Inr) (auto simp: check_labels_def res_simps)
  note at = index_labels_at[OF this]
  show ?thesis unfolding unique_labels_def
  proof (intro allI impI)
    fix p q l assume a: "p < length (instructions f)" "label_named P (instructions f ! p) l"
      "q < length (instructions f)" "label_named P (instructions f ! q) l"
    then show "p = q" using at[of p] at[of q] by (auto simp: label_named_def name_of_def label_text_def)
  qed
qed

lemma kept_labels:
  assumes "unique_labels P is" "collect_labels P is l = Some p" "K p"
  shows "collect_labels P (kept_code K is) l = Some (kept_pos K p)"
proof -
  have p: "p < length is" "label_named P (is ! p) l" using collect_labels_named[OF assms(2)] by auto
  note k = kept_code_nth[of p "is" K, OF p(1) assms(3)]
  have "unique_labels P (kept_code K is)" unfolding unique_labels_def
  proof (intro allI impI)
    fix x y l assume x: "x < length (kept_code K is)" "label_named P (kept_code K is ! x) l"
      and y: "y < length (kept_code K is)" "label_named P (kept_code K is ! y) l"
    obtain x' where x': "x' < length is" "x = kept_pos K x'" "kept_code K is ! x = is ! x'"
      by (rule kept_code_index[OF x(1)])
    obtain y' where y': "y' < length is" "y = kept_pos K y'" "kept_code K is ! y = is ! y'"
      by (rule kept_code_index[OF y(1)])
    have "x' = y'" using assms(1) x(2) y(2) x' y' by (auto simp: unique_labels_def)
    then show "x = y" using x'(2) y'(2) by simp
  qed
  then show ?thesis using k p(2) by (simp add: collect_labels_iff)
qed

section \<open>Passes that delete\<close>

text \<open>
  A pass that keeps the instructions \<open>K\<close> says. Only indices \<open>may\<close> admits are executed; a
  deleted instruction that is executed writes a register of \<open>dead\<close> and nothing else, and
  no kept instruction reads such a register.
\<close>

lemma same_instruction_view:
  "\<forall>r \<in> set (ir_collect_read_registers i). rd' r = rd r \<Longrightarrow> opcode i \<noteq> OP_RETURN \<Longrightarrow> same_view i rd i rd'"
  by (auto simp: same_view_def collect_reads_iff ir_reads_operand_def is_register_iff)

locale deleting_pass =
  fixes T :: "IRProgram \<Rightarrow> IRFunction \<Rightarrow> IRFunction"
    and pre :: "IRProgram \<Rightarrow> IRFunction \<Rightarrow> bool"
    and K :: "IRProgram \<Rightarrow> IRFunction \<Rightarrow> nat \<Rightarrow> bool"
    and may :: "IRProgram \<Rightarrow> IRFunction \<Rightarrow> nat \<Rightarrow> bool"
    and dead :: "IRProgram \<Rightarrow> IRFunction \<Rightarrow> int set"
  assumes pre_verified: "pre P f \<Longrightarrow> verified P f"
    and same_name: "func_name (T P f) = func_name f"
    and same_parameters: "parameters (T P f) = parameters f"
    and keeps: "pre P f \<Longrightarrow> instructions (T P f) = kept_code (K P f) (instructions f)"
    and may_start: "pre P f \<Longrightarrow> instructions f \<noteq> [] \<Longrightarrow> may P f 0"
    and may_next: "pre P f \<Longrightarrow> p < length (instructions f) \<Longrightarrow> may P f p \<Longrightarrow>
      q \<in> instr_succs (Some (strings P)) (collect_labels P (instructions f)) (instructions f) p \<Longrightarrow>
      q < length (instructions f) \<Longrightarrow> may P f q"
    and keeps_labels: "pre P f \<Longrightarrow> p < length (instructions f) \<Longrightarrow> may P f p \<Longrightarrow>
      opcode (instructions f ! p) \<in> {OP_LABEL, OP_RETURN} \<Longrightarrow> K P f p"
    and deletes: "pre P f \<Longrightarrow> p < length (instructions f) \<Longrightarrow> may P f p \<Longrightarrow> \<not> K P f p \<Longrightarrow>
      instr_effect call lm P (instructions f ! p) rd gs = Inr (w, j, gs') \<Longrightarrow>
      j = None \<and> gs' = gs \<and> ir_destination_register (instructions f ! p) \<in> dead P f"
    and reads_live: "pre P f \<Longrightarrow> p < length (instructions f) \<Longrightarrow> may P f p \<Longrightarrow> K P f p \<Longrightarrow>
      r \<in> set (ir_collect_read_registers (instructions f ! p)) \<Longrightarrow> r \<notin> dead P f"
begin

definition shadows :: "IRProgram \<Rightarrow> IRFunction \<Rightarrow> ExecutionContext \<Rightarrow> ExecutionContext \<Rightarrow> bool" where
  "shadows P f c c' \<longleftrightarrow> run_inv P f c \<and> pc c \<le> length (instructions f) \<and>
     (running (instructions f) c \<longrightarrow> may P f (pc c)) \<and>
     labels c' = collect_labels P (instructions (T P f)) \<and>
     (\<not> returned c \<longrightarrow> pc c' = kept_pos (K P f) (pc c)) \<and>
     (\<forall>r. r \<notin> dead P f \<longrightarrow> registers c' r = registers c r) \<and>
     returned c' = returned c \<and> (returned c \<longrightarrow> return_value c' = return_value c)"

lemma shadows_return:
  assumes pr: "pre P f" and s: "shadows P f c c'" and run: "running (instructions f) c"
    and op: "opcode (instructions f ! pc c) = OP_RETURN"
  shows "running (instructions (T P f)) c'"
    "step call lm P (instructions (T P f)) (c', gs) = Inr (exec_return c', gs)"
    "shadows P f (exec_return c) (exec_return c')"
proof -
  let ?K = "K P f"
  have p: "pc c < length (instructions f)" and m: "may P f (pc c)" and nr: "\<not> returned c"
    using s run by (auto simp: shadows_def running_def)
  have k: "?K (pc c)" using keeps_labels[OF pr p m] op by simp
  note n = kept_code_nth[of "pc c" "instructions f" ?K, OF p k]
  have pc': "pc c' = kept_pos ?K (pc c)" using s nr by (simp add: shadows_def)
  show "running (instructions (T P f)) c'"
    using n(1) s nr pc' by (simp add: running_def keeps[OF pr] shadows_def)
  show "step call lm P (instructions (T P f)) (c', gs) = Inr (exec_return c', gs)"
    by (rule step_return) (use n(2) op pc' in \<open>simp add: keeps[OF pr]\<close>)
  have "operands (instructions f ! pc c) = []"
    using operands_okD(2)[OF verified_operands[OF pre_verified[OF pr] p] refl] op by (simp add: signature_eval)
  then have "RETURN_REGISTER \<in> set (ir_collect_read_registers (instructions f ! pc c))"
    using op by (simp add: ir_collect_read_registers_def)
  from reads_live[OF pr p m k this] have "registers c' RETURN_REGISTER = registers c RETURN_REGISTER"
    using s by (auto simp: shadows_def)
  then show "shadows P f (exec_return c) (exec_return c')"
    using s by (auto simp: shadows_def exec_return_def run_inv_def running_def)
qed

lemma shadows_step:
  assumes pr: "pre P f" and s: "shadows P f c c'" and run: "running (instructions f) c"
    and st: "step call lm P (instructions f) (c, gs) = Inr (c1, gs1)"
    and nr: "opcode (instructions f ! pc c) \<noteq> OP_RETURN"
  shows "(gs1 = gs \<and> shadows P f c1 c') \<or> (running (instructions (T P f)) c' \<and>
    (\<exists>c1'. step call lm P (instructions (T P f)) (c', gs) = Inr (c1', gs1) \<and> shadows P f c1 c1'))"
proof -
  let ?i = "instructions f ! pc c" and ?K = "K P f" and ?is' = "instructions (T P f)"
  let ?d = "ir_destination_register (instructions f ! pc c)"
  note v = pre_verified[OF pr]
  have inv: "run_inv P f c" and m: "may P f (pc c)" and pc': "pc c' = kept_pos ?K (pc c)"
    and l': "labels c' = collect_labels P ?is'" and p: "pc c < length (instructions f)" and nret: "\<not> returned c'"
    and live: "\<And>r. r \<notin> dead P f \<Longrightarrow> registers c' r = registers c r"
    using s run by (auto simp: shadows_def running_def)
  note ok = verified_operands[OF v p]
  obtain w j where e: "instr_effect call lm P ?i (\<lambda>r. the (registers c r)) gs = Inr (w, j, gs1)"
      and n: "next_pc (labels c) (pc c) j = Some (pc c1)"
      and c1: "c1 = c\<lparr>registers := write_register ?d w (registers c), pc := pc c1\<rparr>"
    using st unfolding run_inv_step_effect[OF v inv run nr] by (auto simp: res_simps take_effect_Inr)
  have inv1: "run_inv P f c1" by (rule run_inv_step[OF v inv run st])
  have lab: "labels c = collect_labels P (instructions f)" using inv by (simp add: run_inv_def)
  have m1: "may P f (pc c1)" if "pc c1 < length (instructions f)"
    using may_next[OF pr p m _ that] effect_succ[OF ok e n] lab by simp
  have le: "pc c1 \<le> length (instructions f)"
    using n p lab collect_labels_named[of P "instructions f"] by (cases j) (auto simp: next_pc_def dest: less_imp_le)
  have rc: "returned c1 = False" using c1 run by (metis (mono_tags) running_def ExecutionContext.select_convs(4) ExecutionContext.surjective ExecutionContext.update_convs)
  show ?thesis
  proof (cases "?K (pc c)")
    case False
    then have d: "j = None" "gs1 = gs" "?d \<in> dead P f" using deletes[OF pr p m False e] by auto
    then have "pc c1 = Suc (pc c)" using n by (simp add: next_pc_def)
    then have "pc c' = kept_pos ?K (pc c1)" using pc' False by (simp add: kept_pos_Suc)
    moreover have "registers c' r = registers c1 r" if "r \<notin> dead P f" for r
      using live[OF that] d(3) that by (subst c1) (auto simp: write_register_def split: option.splits)
    ultimately have "shadows P f c1 c'"
      using inv1 le m1 l' nret rc by (auto simp: shadows_def running_def)
    then show ?thesis using d(2) by blast
  next
    case True
    note k = kept_code_nth[of "pc c" "instructions f" ?K, OF p True]
    have i': "?is' ! pc c' = ?i" "pc c' < length ?is'" using k pc' by (auto simp: keeps[OF pr])
    have rd: "\<forall>r \<in> set (ir_collect_read_registers ?i). registers c' r = Some (the (registers c r))"
      using live reads_live[OF pr p m True] run_inv_reads[OF v inv run nr] by force
    have "step call lm P ?is' (c', gs) =
        bind_res (instr_effect call lm P ?i (\<lambda>r. the (registers c r)) gs) (take_effect ?d c')"
      using step_effect[of ?is' c' "\<lambda>r. the (registers c r)" P call lm gs] i' ok nr rd l' nret by simp
    then have s': "step call lm P ?is' (c', gs) = take_effect ?d c' (w, j, gs1)" using e by simp
    have "next_pc (labels c') (pc c') j = Some (kept_pos ?K (pc c1))"
    proof (cases j)
      case None
      then have "pc c1 = Suc (pc c)" using n by (simp add: next_pc_def)
      then show ?thesis using None True pc' by (simp add: next_pc_def kept_pos_Suc)
    next
      case (Some l)
      then have q: "collect_labels P (instructions f) l = Some (pc c1)" using n lab by (simp add: next_pc_def)
      then have "pc c1 < length (instructions f)" "opcode (instructions f ! pc c1) = OP_LABEL"
        using collect_labels_named[OF q] by (auto simp: label_named_def)
      then have "?K (pc c1)" using keeps_labels[OF pr _ m1] by simp
      from kept_labels[of P "instructions f" l "pc c1" ?K, OF verified_unique_labels[OF v] q this] show ?thesis
        using Some l' by (simp add: next_pc_def keeps[OF pr])
    qed
    then have "step call lm P ?is' (c', gs) =
        Inr (c'\<lparr>registers := write_register ?d w (registers c'), pc := kept_pos ?K (pc c1)\<rparr>, gs1)"
      using s' by (simp add: take_effect_def)
    moreover have "shadows P f c1 (c'\<lparr>registers := write_register ?d w (registers c'), pc := kept_pos ?K (pc c1)\<rparr>)"
    proof -
      have "write_register ?d w (registers c') r = registers c1 r" if "r \<notin> dead P f" for r
        using live[OF that] by (subst c1) (auto simp: write_register_def split: option.splits)
      then show ?thesis using inv1 le m1 l' nret rc by (auto simp: shadows_def running_def)
    qed
    ultimately show ?thesis using i'(2) nret by (auto simp: running_def)
  qed
qed

end

sublocale deleting_pass \<subseteq> preserving_pass T pre shadows
proof (unfold_locales, goal_cases)
  case (1 P f)
  show ?case by (rule same_name)
next
  case (2 P f)
  show ?case by (rule same_parameters)
next
  case (3 P f args)
  then show ?case using run_inv_start[OF pre_verified[OF 3(1)] 3(2)] may_start[OF 3(1)]
    by (auto simp: shadows_def running_def start_context_def entry_context_def empty_context_def same_parameters)
next
  case (4 P f c c' call lm gs c1 gs1)
  show ?case
  proof (cases "opcode (instructions f ! pc c) = OP_RETURN")
    case True
    then have "c1 = exec_return c" "gs1 = gs" using 4(4) step_return[OF True] by simp_all
    then show ?thesis using shadows_return[OF 4(1-3) True] by blast
  next
    case False
    then show ?thesis using shadows_step[OF 4] by blast
  qed
next
  case (5 P f c c')
  have "\<not> running (instructions (T P f)) c'"
  proof (cases "returned c")
    case False
    then have "pc c = length (instructions f)" using 5 by (auto simp: shadows_def running_def)
    then show ?thesis using 5 False by (auto simp: shadows_def running_def keeps[OF 5(1)] kept_pos_length)
  qed (use 5 in \<open>auto simp: shadows_def running_def\<close>)
  then show ?case using 5 by (auto simp: shadows_def)
qed

end
