(* ===== verification/Unreachable_Sound.thy ===== *)
theory Unreachable_Sound
  imports Deleting_Passes
begin

text \<open>
  Removal of unreachable code: the worklist terminates and marks exactly the blocks the
  control-flow graph reaches, the graph of the shared analysis covers every transfer of
  control the interpreter makes in a verified function, and the pass, a \<open>deleting_pass\<close>,
  keeps the meaning of such functions.
\<close>

section \<open>The reachable blocks\<close>

abbreviation block_edges :: "Block list \<Rightarrow> (nat \<times> nat) set" where
  "block_edges blocks \<equiv> {(a, b). a < length blocks \<and> b \<in> set (blk_successors (blocks ! a))}"

definition closed_blocks :: "Block list \<Rightarrow> bool" where
  "closed_blocks blocks \<longleftrightarrow> (\<forall>b < length blocks. set (blk_successors (blocks ! b)) \<subseteq> {..<length blocks})"

definition reach_inv :: "Block list \<Rightarrow> reach_state \<Rightarrow> bool" where
  "reach_inv blocks st \<longleftrightarrow> (case st of (work, seen) \<Rightarrow>
     length seen = length blocks \<and> set work \<subseteq> {b. b < length blocks \<and> seen ! b} \<and> seen ! 0 \<and>
     (\<forall>b < length blocks. seen ! b \<longrightarrow> (0, b) \<in> (block_edges blocks)\<^sup>*) \<and>
     (\<forall>b < length blocks. seen ! b \<longrightarrow> b \<in> set work \<or> (\<forall>s \<in> set (blk_successors (blocks ! b)). seen ! s)))"

abbreviation unseen :: "bool list \<Rightarrow> nat" where
  "unseen seen \<equiv> length (filter Not seen)"

lemma unseen_update: "s < length seen \<Longrightarrow> \<not> seen ! s \<Longrightarrow> Suc (unseen (seen[s := True])) = unseen seen"
  by (induction seen arbitrary: s) (auto split: nat.splits)

lemma reach_visits:
  assumes "foldl reach_visit (work, seen) ss = (work', seen')" "set ss \<subseteq> {..<length seen}"
  shows "length seen' = length seen" "\<And>b. b < length seen \<Longrightarrow> seen' ! b \<longleftrightarrow> seen ! b \<or> b \<in> set ss"
    "set work \<subseteq> set work'" "\<And>b. b < length seen \<Longrightarrow> seen' ! b \<Longrightarrow> seen ! b \<or> b \<in> set work'"
    "set work' \<subseteq> set work \<union> set ss" "length work' + unseen seen' = length work + unseen seen"
proof -
  have "length seen' = length seen \<and> (\<forall>b < length seen. seen' ! b \<longleftrightarrow> seen ! b \<or> b \<in> set ss) \<and>
    set work \<subseteq> set work' \<and> (\<forall>b < length seen. seen' ! b \<longrightarrow> seen ! b \<or> b \<in> set work') \<and>
    set work' \<subseteq> set work \<union> set ss \<and> length work' + unseen seen' = length work + unseen seen"
    using assms
  proof (induction ss arbitrary: work seen)
    case (Cons s ss)
    show ?case
    proof (cases "seen ! s")
      case True
      then show ?thesis using Cons by (auto simp: reach_visit_def)
    next
      case False
      then have "reach_visit (work, seen) s = (s # work, seen[s := True])" by (simp add: reach_visit_def)
      with Cons.prems have "foldl reach_visit (s # work, seen[s := True]) ss = (work', seen')" by simp
      from Cons.IH[OF this] Cons.prems(2) unseen_update[of s seen] False show ?thesis
        by (auto simp: nth_list_update)
    qed
  qed auto
  then show "length seen' = length seen" "\<And>b. b < length seen \<Longrightarrow> seen' ! b \<longleftrightarrow> seen ! b \<or> b \<in> set ss"
    "set work \<subseteq> set work'" "\<And>b. b < length seen \<Longrightarrow> seen' ! b \<Longrightarrow> seen ! b \<or> b \<in> set work'"
    "set work' \<subseteq> set work \<union> set ss" "length work' + unseen seen' = length work + unseen seen" by blast+
qed

lemma reach_step_inv:
  assumes inv: "reach_inv blocks (work, seen)" and cl: "closed_blocks blocks" and w: "work \<noteq> []"
    and st: "reach_step blocks (work, seen) = (work', seen')"
  shows "reach_inv blocks (work', seen')" "length work' + unseen seen' < length work + unseen seen"
proof -
  let ?i = "hd work" and ?ss = "blk_successors (blocks ! hd work)"
  have i: "?i < length blocks" "seen ! ?i" and len: "length seen = length blocks"
    using inv hd_in_set[OF w] by (auto simp: reach_inv_def)
  have ss: "set ?ss \<subseteq> {..<length seen}" using cl i len by (simp add: closed_blocks_def)
  have f: "foldl reach_visit (tl work, seen) ?ss = (work', seen')" using st by (simp add: reach_step_def)
  note v = reach_visits[OF f ss]
  show "length work' + unseen seen' < length work + unseen seen" using v(6) w by (cases work) auto
  have "(0, b) \<in> (block_edges blocks)\<^sup>*" if "b < length blocks" "seen' ! b" for b
  proof (cases "seen ! b")
    case True
    then show ?thesis using inv that by (auto simp: reach_inv_def)
  next
    case False
    then have "b \<in> set ?ss" using v(2)[of b] that len by auto
    then have "(?i, b) \<in> block_edges blocks" using i by simp
    moreover have "(0, ?i) \<in> (block_edges blocks)\<^sup>*" using inv i by (auto simp: reach_inv_def)
    ultimately show ?thesis by (rule rtrancl_into_rtrancl[rotated])
  qed
  moreover have "b \<in> set work' \<or> (\<forall>s \<in> set (blk_successors (blocks ! b)). seen' ! s)"
    if "b < length blocks" "seen' ! b" for b
  proof -
    have r: "set (blk_successors (blocks ! b)) \<subseteq> {..<length seen}" using cl that len by (simp add: closed_blocks_def)
    consider "b = ?i" | "\<not> seen ! b" | "seen ! b" "b \<in> set (tl work)" | "seen ! b" "b \<notin> set work"
      using w by (cases work) auto
    then show ?thesis
    proof cases
      case 1
      then show ?thesis using v(2) r by auto
    next
      case 2
      then show ?thesis using v(4)[of b] that len by auto
    next
      case 3
      then show ?thesis using v(3) by auto
    next
      case 4
      then have "\<forall>s \<in> set (blk_successors (blocks ! b)). seen ! s"
        using inv that(1) by (auto simp: reach_inv_def)
      then show ?thesis using v(2) r by blast
    qed
  qed
  moreover have "set work' \<subseteq> {b. b < length blocks \<and> seen' ! b}"
  proof -
    have "set (tl work) \<subseteq> {b. b < length blocks \<and> seen ! b}"
      using inv w by (cases work) (auto simp: reach_inv_def)
    then have t: "\<And>b. b \<in> set (tl work) \<Longrightarrow> b < length seen \<and> seen ! b" using len by auto
    show ?thesis
    proof
      fix b assume "b \<in> set work'"
      then have b: "b \<in> set (tl work) \<or> b \<in> set ?ss" using v(5) by blast
      then have "b < length seen" using t ss by blast
      then show "b \<in> {b. b < length blocks \<and> seen' ! b}" using v(2)[of b] b t len by auto
    qed
  qed
  moreover have "0 < length seen" using i(1) len by (cases blocks) auto
  then have "seen' ! 0" using v(2)[of 0] inv by (simp add: reach_inv_def)
  ultimately show "reach_inv blocks (work', seen')" using v(1) len by (auto simp: reach_inv_def)
qed

lemma reachable_blocks_exact:
  assumes cl: "closed_blocks blocks" and ne: "blocks \<noteq> []"
  obtains seen where "reachable_blocks blocks = Inr seen" "length seen = length blocks"
    "\<And>b. b < length blocks \<Longrightarrow> seen ! b \<longleftrightarrow> (0, b) \<in> (block_edges blocks)\<^sup>*"
proof -
  let ?s0 = "([0], (replicate (length blocks) False)[0 := True]) :: reach_state"
  let ?c = "\<lambda>(work, seen). work \<noteq> []" and ?m = "\<lambda>(work, seen). length work + unseen seen"
  have start: "reach_inv blocks ?s0"
    using ne by (auto simp: reach_inv_def nth_list_update split: if_splits)
  have step: "reach_inv blocks (reach_step blocks st) \<and> ?m (reach_step blocks st) < ?m st"
    if "reach_inv blocks st" "?c st" for st
  proof -
    obtain work seen work' seen' where e: "st = (work, seen)" "reach_step blocks st = (work', seen')"
      by (metis surj_pair)
    then show ?thesis using reach_step_inv[of blocks work seen work' seen'] that cl by simp
  qed
  have "\<exists>t. while_option ?c (reach_step blocks) ?s0 = Some t"
    using step start by (intro measure_while_option_Some[where P = "reach_inv blocks" and f = ?m])
  then obtain work seen where t: "while_option ?c (reach_step blocks) ?s0 = Some (work, seen)" by auto
  have inv: "reach_inv blocks (work, seen)"
    using step start by (intro while_option_rule[OF _ t, where P = "reach_inv blocks"]) blast+
  have "work = []" using while_option_stop[OF t] by simp
  then have cls: "\<And>b s. b < length blocks \<Longrightarrow> seen ! b \<Longrightarrow> s \<in> set (blk_successors (blocks ! b)) \<Longrightarrow> seen ! s"
    using inv by (auto simp: reach_inv_def)
  have c: "seen ! b" if "(0, b) \<in> (block_edges blocks)\<^sup>*" for b
    using that
  proof (induction rule: rtrancl_induct)
    case base
    then show ?case using inv by (simp add: reach_inv_def)
  next
    case (step y z)
    then show ?case using cls by auto
  qed
  have "reachable_blocks blocks = Inr seen" by (simp only: reachable_blocks_def t option.case prod.case)
  moreover have "length seen = length blocks"
    and "b < length blocks \<Longrightarrow> seen ! b \<Longrightarrow> (0, b) \<in> (block_edges blocks)\<^sup>*" for b
    using inv by (simp_all add: reach_inv_def)
  ultimately show thesis using that c by blast
qed

section \<open>Blocks as intervals\<close>

lemma concat_intervals:
  "sorted (x # xs) \<Longrightarrow> \<forall>y \<in> set (x # xs). y \<le> n \<Longrightarrow>
     concat (map (\<lambda>(s, e). [s..<e]) (zip (x # xs) (xs @ [n]))) = [x..<n]"
proof (induction xs arbitrary: x)
  case (Cons y ys)
  then have "concat (map (\<lambda>(s, e). [s..<e]) (zip (y # ys) (ys @ [n]))) = [y..<n]" by simp
  moreover have "[x..<n] = [x..<y] @ [y..<n]" 
    using Cons.prems upt_add_eq_append[of x y "n - y"] by simp
  ultimately show ?case by simp
qed simp

lemma leaders_Cons: "is \<noteq> [] \<Longrightarrow> \<exists>xs. leaders is = 0 # xs"
  by (simp add: leaders_def upt_conv_Cons)

lemma bounds_cover: "concat (map (\<lambda>(s, e). [s..<e]) (block_bounds is)) = [0..<length is]"
proof (cases "is = []")
  case True
  then show ?thesis by (simp add: block_bounds_def leaders_def)
next
  case False
  then obtain xs where xs: "leaders is = 0 # xs" using leaders_Cons by blast
  have "sorted (leaders is)" "\<forall>y \<in> set (leaders is). y \<le> length is"
    by (auto simp: leaders_def sorted_wrt_filter)
  then show ?thesis unfolding block_bounds_def xs using concat_intervals[of 0 xs "length is"] xs by simp
qed

lemma bounds_index:
  assumes "b < length (leaders is)" "i \<in> set [fst (block_bounds is ! b)..<snd (block_bounds is ! b)]"
  shows "i < length is \<and> block_of_instruction is i = b"
proof -
  obtain e where e: "e < length is" "Suc e = length is \<or> is_leader is (Suc e)" "block_of_instruction is e = b"
    using block_index_of[OF assms(1)] by blast
  then have bb: "block_bounds is ! b = (leaders is ! b, Suc e)" using block_bounds_nth by blast
  then have i: "leaders is ! b \<le> i" "i \<le> e" using assms(2) by auto
  have s: "is_leader is (leaders is ! b)" "leaders is ! b < length is"
    using nth_mem[OF assms(1)] by (auto simp: leaders_def)
  have "block_of_instruction is (leaders is ! b) = b"
  proof -
    have "distinct (leaders is)" by (simp add: leaders_def)
    moreover have "leaders is ! block_of_instruction is (leaders is ! b) = leaders is ! b"
      using block_start_leader[OF s] .
    ultimately show ?thesis using assms(1) block_of_less[OF s(2)] nth_eq_iff_index_eq by blast
  qed
  moreover have mono: "block_of_instruction is a \<le> block_of_instruction is c" if "a \<le> c" for a c
    using that by (induction c) (auto simp: block_of_Suc le_Suc_eq)
  ultimately have "b \<le> block_of_instruction is i" "block_of_instruction is i \<le> b"
    using mono[OF i(1)] mono[OF i(2)] e(3) by auto
  then show ?thesis using i e(1) by auto
qed

lemma concat_map_filter: "concat (map (\<lambda>b. map g (filter K (I b))) xs) = map g (filter K (concat (map I xs)))"
  by (induction xs) simp_all

lemma kept_blocks:
  assumes "\<And>b. b < length (leaders is) \<Longrightarrow> G b = (if K b then map ((!) is) [fst (block_bounds is ! b)..<snd (block_bounds is ! b)] else [])"
  shows "concat (map G [0..<length (leaders is)]) = kept_code (\<lambda>p. K (block_of_instruction is p)) is"
proof -
  let ?I = "\<lambda>b. [fst (block_bounds is ! b)..<snd (block_bounds is ! b)]"
  let ?K = "\<lambda>p. K (block_of_instruction is p)"
  have "G b = map ((!) is) (filter ?K (?I b))" if "b < length (leaders is)" for b
  proof -
    have "\<forall>i \<in> set (?I b). block_of_instruction is i = b" using bounds_index[OF that] by blast
    then have "filter ?K (?I b) = (if K b then ?I b else [])"
      by (auto simp: filter_empty_conv filter_id_conv)
    then show ?thesis using assms[OF that] by simp
  qed
  then have "map G [0..<length (leaders is)] = map (\<lambda>b. map ((!) is) (filter ?K (?I b))) [0..<length (leaders is)]"
    by simp
  moreover have "map ?I [0..<length (leaders is)] = map (\<lambda>(s, e). [s..<e]) (block_bounds is)"
    by (rule nth_equalityI) (auto simp: split_def)
  then have "concat (map ?I [0..<length (leaders is)]) = [0..<length is]" using bounds_cover by simp
  then have "concat (map (\<lambda>b. map ((!) is) (filter ?K (?I b))) [0..<length (leaders is)]) =
      map ((!) is) (filter ?K [0..<length is])"
    by (simp only: concat_map_filter)
  ultimately show ?thesis by (simp only: kept_code_def)
qed

section \<open>The shared analysis\<close>

text \<open>Names that read the same are the same entry of the table, as \<open>intern\<close> makes them.\<close>

definition named_once :: "IRProgram \<Rightarrow> IRFunction \<Rightarrow> bool" where
  "named_once P f \<longleftrightarrow> (\<forall>i \<in> set (instructions f). \<forall>j \<in> set (instructions f). \<forall>a b.
     Label a \<in> set (operands i) \<longrightarrow> Label b \<in> set (operands j) \<longrightarrow>
     string_at (strings P) a = string_at (strings P) b \<longrightarrow> a = b)"

lemma label_positions_keep: "m k = Some p \<Longrightarrow> label_positions i is m k = Some p"
proof (induction "is" arbitrary: i m)
  case (Cons x xs)
  let ?m = "if ir_has_effect (opcode x) IR_LABEL \<and> operands x \<noteq> [] \<and> m (string_id (operand x 0)) = None
    then m(string_id (operand x 0) \<mapsto> i) else m"
  have "?m k = Some p" using Cons.prems by auto
  from Cons.IH[of ?m "Suc i", OF this] show ?case by simp
qed simp

lemma label_positions_Some:
  "label_positions i is m k = Some p \<Longrightarrow> m k = Some p \<or>
     (i \<le> p \<and> p < i + length is \<and> opcode (is ! (p - i)) = OP_LABEL \<and> operands (is ! (p - i)) \<noteq> [] \<and>
      string_id (operands (is ! (p - i)) ! 0) = k)"
proof (induction "is" arbitrary: i m)
  case (Cons x xs)
  let ?m = "if ir_has_effect (opcode x) IR_LABEL \<and> operands x \<noteq> [] \<and> m (string_id (operand x 0)) = None
    then m(string_id (operand x 0) \<mapsto> i) else m"
  have "label_positions (Suc i) xs ?m k = Some p" using Cons.prems by simp
  from Cons.IH[OF this] show ?case
  proof
    assume "?m k = Some p"
    then show ?thesis unfolding label_effect by (auto split: if_splits)
  qed (auto simp: Suc_diff_le)
qed simp

lemma label_positions_total:
  "p < length is \<Longrightarrow> opcode (is ! p) = OP_LABEL \<Longrightarrow> operands (is ! p) \<noteq> [] \<Longrightarrow>
     label_positions i is m (string_id (operands (is ! p) ! 0)) \<noteq> None"
proof (induction "is" arbitrary: i m p)
  case (Cons x xs)
  show ?case
  proof (cases p)
    case 0
    let ?k = "string_id (operands x ! 0)"
    let ?m = "if ir_has_effect (opcode x) IR_LABEL \<and> operands x \<noteq> [] \<and> m (string_id (operand x 0)) = None
      then m(string_id (operand x 0) \<mapsto> i) else m"
    have "?m ?k \<noteq> None" using Cons.prems 0 by (auto simp: label_effect)
    then obtain q where "?m ?k = Some q" by blast
    from label_positions_keep[of ?m ?k q "Suc i" xs, OF this] show ?thesis using 0 by simp
  next
    case (Suc q)
    then show ?thesis using Cons.IH[of q "Suc i"] Cons.prems by simp
  qed
qed simp

lemma analysis_target:
  assumes v: "verified P f" and n: "named_once P f" and p: "p < length (instructions f)"
    and op: "Label a \<in> set (operands (instructions f ! p))"
    and l: "collect_labels P (instructions f) (label_text P (Label a)) = Some q"
  shows "label_positions 0 (instructions f) Map.empty a = Some q"
proof -
  have q: "q < length (instructions f)" "label_named P (instructions f ! q) (label_text P (Label a))"
    using collect_labels_named[OF l] by auto
  let ?q = "instructions f ! q"
  obtain b where b: "operands ?q ! 0 = Label b" "operands ?q \<noteq> []" "opcode ?q = OP_LABEL"
    using q(2) by (auto simp: label_named_def is_label_iff)
  have mem: "Label b \<in> set (operands ?q)" using b by (metis length_greater_0_conv nth_mem)
  have "string_at (strings P) b = string_at (strings P) a" using q(2) b by (simp add: label_named_def label_text_def)
  then have "b = a" using n mem op nth_mem[OF p] nth_mem[OF q(1)] unfolding named_once_def by blast
  then obtain r where r: "label_positions 0 (instructions f) Map.empty a = Some r"
    using label_positions_total[OF q(1) b(3,2), of 0 Map.empty] b(1) by auto
  let ?r = "instructions f ! r"
  have rr: "r < length (instructions f)" "opcode ?r = OP_LABEL" "operands ?r \<noteq> []" "string_id (operands ?r ! 0) = a"
    using label_positions_Some[OF r] by auto
  have "is_label (operands ?r ! 0)" using label_operand_0[OF verified_operands[OF v rr(1)] rr(2)] by simp
  then have "label_named P ?r (label_text P (Label a))"
    using rr by (auto simp: label_named_def label_text_def is_label_iff)
  then have "r = q" using verified_unique_labels[OF v] q rr(1) unfolding unique_labels_def by blast
  then show ?thesis using r by simp
qed

lemma length_blocks [simp]: "length (an_blocks (build_analysis f)) = length (leaders (instructions f))"
  by (simp add: build_analysis_def Let_def)

lemma blocks_nth:
  "b < length (leaders (instructions f)) \<Longrightarrow> an_blocks (build_analysis f) ! b =
     \<lparr>blk_begin = fst (block_bounds (instructions f) ! b), blk_end = snd (block_bounds (instructions f) ! b),
      blk_successors = analysis_successors (instructions f) (label_positions 0 (instructions f) Map.empty) b
        (block_bounds (instructions f) ! b)\<rparr>"
  by (simp add: build_analysis_def Let_def nth_enumerate_eq)

lemma blocks_empty: "an_blocks (build_analysis f) = [] \<longleftrightarrow> instructions f = []"
proof -
  have "instructions f = [] \<longleftrightarrow> leaders (instructions f) = []"
    using leaders_Cons[of "instructions f"] by (cases "instructions f = []") (force simp: leaders_def)+
  then show ?thesis using length_blocks[of f] by (metis length_0_conv)
qed

lemma build_analysis_closed: "closed_blocks (an_blocks (build_analysis f))"
proof -
  have "s < length (leaders (instructions f))"
    if "b < length (leaders (instructions f))"
      "s \<in> set (analysis_successors (instructions f) (label_positions 0 (instructions f) Map.empty) b bounds)" for b s bounds
    using that(2) label_positions_Some[of 0 "instructions f" Map.empty] block_of_less
    by (fastforce simp: analysis_successors_def Let_def set_map_filter split: if_splits)
  then show ?thesis unfolding closed_blocks_def by (simp add: blocks_nth subset_iff)
qed

lemma analysis_covers_flow:
  assumes v: "verified P f" and n: "named_once P f" and p: "p < length (instructions f)" "q < length (instructions f)"
    and q: "q \<in> instr_succs (Some (strings P)) (collect_labels P (instructions f)) (instructions f) p"
    and ne: "block_of_instruction (instructions f) q \<noteq> block_of_instruction (instructions f) p"
  shows "block_of_instruction (instructions f) q \<in>
    set (blk_successors (an_blocks (build_analysis f) ! block_of_instruction (instructions f) p))"
proof -
  let ?is = "instructions f" and ?b = "block_of_instruction (instructions f) p"
  let ?m = "label_positions 0 (instructions f) Map.empty"
  have last: "Suc p = length ?is \<or> is_leader ?is (Suc p)"
  proof (rule ccontr)
    assume no: "\<not> ?thesis"
    then have "q \<noteq> Suc p" using ne by (auto simp: block_of_Suc)
    then obtain v where "v \<in> set (operands (?is ! p))" "is_label v" "\<not> ir_has_effect (opcode (?is ! p)) IR_LABEL"
      using q by (auto simp: instr_succs_def split: if_splits)
    then show False
      using branch_effect_of_label[OF verified_operands[OF v p(1)]] leader_after[of ?is p] no by blast
  qed
  have bb: "block_bounds ?is ! ?b = (leaders ?is ! ?b, Suc p)" by (rule block_bounds_nth[OF p(1) last])
  have nxt: "block_of_instruction ?is q = Suc ?b \<and> Suc ?b < length (leaders ?is)" if "q = Suc p"
    using that last p(2) block_of_less[OF p(2)] by (auto simp: block_of_Suc)
  from q consider (jump) a where "\<not> ir_has_effect (opcode (?is ! p)) IR_LABEL" "Label a \<in> set (operands (?is ! p))"
      "collect_labels P ?is (label_text P (Label a)) = Some q"
    | (fall) "q = Suc p" "\<not> ir_has_effect (opcode (?is ! p)) IR_TERMINATOR"
    by (auto simp: instr_succs_def is_label_iff name_of_def label_text_def split: if_splits)
  then have "block_of_instruction ?is q \<in> set (analysis_successors ?is ?m ?b (block_bounds ?is ! ?b))"
  proof cases
    case jump
    then have "?m (string_id (Label a)) = Some q" using analysis_target[OF v n p(1)] by simp
    then show ?thesis using jump(1,2) unfolding bb
      by (auto simp: analysis_successors_def Let_def set_map_filter is_label_iff intro!: bexI[of _ "Label a"])
  next
    case fall
    then show ?thesis using nxt unfolding bb by (simp add: analysis_successors_def Let_def)
  qed
  then show ?thesis by (simp add: blocks_nth block_of_less[OF p(1)])
qed

section \<open>Unreachable code\<close>

text \<open>A pass on one function, its result taken as the function.\<close>

definition pass_function :: "(IROptimizer \<Rightarrow> IRFunction \<Rightarrow> pass_result res) \<Rightarrow> IROptimizer \<Rightarrow> IRFunction \<Rightarrow> IRFunction" where
  "pass_function pass opt f = (case pass opt f of Inr (_, f', _) \<Rightarrow> f' | Inl _ \<Rightarrow> f)"

definition unreachable_pass :: "IRProgram \<Rightarrow> IRFunction \<Rightarrow> IRFunction" where
  "unreachable_pass P = pass_function eliminate_unreachable_code new_optimizer"

definition named_pre :: "IRProgram \<Rightarrow> IRFunction \<Rightarrow> bool" where
  "named_pre P f \<longleftrightarrow> verified P f \<and> named_once P f"

definition live_blocks :: "IRFunction \<Rightarrow> bool list" where
  "live_blocks f = (case reachable_blocks (an_blocks (build_analysis f)) of Inr seen \<Rightarrow> seen | Inl _ \<Rightarrow> [])"

definition live_index :: "IRProgram \<Rightarrow> IRFunction \<Rightarrow> nat \<Rightarrow> bool" where
  "live_index P f p \<longleftrightarrow> live_blocks f ! block_of_instruction (instructions f) p"

lemma live_blocks_facts:
  assumes "instructions f \<noteq> []"
  shows "reachable_blocks (an_blocks (build_analysis f)) = Inr (live_blocks f)"
    "\<And>b. b < length (leaders (instructions f)) \<Longrightarrow> live_blocks f ! b \<longleftrightarrow>
       (0, b) \<in> (block_edges (an_blocks (build_analysis f)))\<^sup>*"
proof -
  have "an_blocks (build_analysis f) \<noteq> []" using assms blocks_empty by blast
  then obtain seen where
    s: "reachable_blocks (an_blocks (build_analysis f)) = Inr seen"
      "\<And>b. b < length (an_blocks (build_analysis f)) \<Longrightarrow> seen ! b \<longleftrightarrow>
        (0, b) \<in> (block_edges (an_blocks (build_analysis f)))\<^sup>*"
    using reachable_blocks_exact[OF build_analysis_closed] by blast
  then show "reachable_blocks (an_blocks (build_analysis f)) = Inr (live_blocks f)"
    "\<And>b. b < length (leaders (instructions f)) \<Longrightarrow> live_blocks f ! b \<longleftrightarrow>
       (0, b) \<in> (block_edges (an_blocks (build_analysis f)))\<^sup>*" by (simp_all add: live_blocks_def)
qed

text \<open>The cache, if it would be used for the function, is the function's analysis.\<close>

definition coherent :: "IROptimizer \<Rightarrow> IRFunction \<Rightarrow> bool" where
  "coherent opt f \<longleftrightarrow> (an_valid (m_analysis opt) \<and> an_instruction_count (m_analysis opt) = length (instructions f) \<longrightarrow>
     m_analysis opt = build_analysis f)"

lemma analysis_coherent: "coherent opt f \<Longrightarrow> fst (analysis opt f) = build_analysis f"
  by (auto simp: analysis_def coherent_def)

lemma coherent_new: "coherent new_optimizer f"
  by (simp add: coherent_def new_optimizer_def no_analysis_def)

lemma unreachable_body:
  "coherent opt f \<Longrightarrow> eliminate_unreachable_code opt f = Inr r \<Longrightarrow>
     fst (snd r) = f\<lparr>instructions := kept_code (live_index P f) (instructions f)\<rparr>"
proof (cases "instructions f = []")
  case True
  assume c: "coherent opt f" and "eliminate_unreachable_code opt f = Inr r"
  then show ?thesis using True blocks_empty[of f] analysis_coherent[OF c]
    by (auto simp: eliminate_unreachable_code_def kept_code_def Let_def split: prod.splits)
next
  case False
  assume c: "coherent opt f" and e: "eliminate_unreachable_code opt f = Inr r"
  let ?blocks = "an_blocks (build_analysis f)" and ?seen = "live_blocks f" and ?is = "instructions f"
  have ne: "?blocks \<noteq> []" using False blocks_empty by blast
  have "fst (snd r) = f\<lparr>instructions := concat (map (\<lambda>(b, blk). if ?seen ! b then opt_block_code ?is blk else [])
      (enumerate 0 ?blocks))\<rparr>"
    using e ne live_blocks_facts(1)[OF False] analysis_coherent[OF c]
    by (auto simp: eliminate_unreachable_code_def replace_instructions_def Let_def split: prod.splits)
  moreover have "map (\<lambda>(b, blk). if ?seen ! b then opt_block_code ?is blk else []) (enumerate 0 ?blocks) =
      map (\<lambda>b. if ?seen ! b then opt_block_code ?is (?blocks ! b) else []) [0..<length (leaders ?is)]"
    by (rule nth_equalityI) (auto simp: nth_enumerate_eq)
  moreover have "opt_block_code ?is (?blocks ! b) = map ((!) ?is) [fst (block_bounds ?is ! b)..<snd (block_bounds ?is ! b)]"
    if "b < length (leaders ?is)" for b
  proof -
    have "snd (block_bounds ?is ! b) \<le> length ?is"
      using bounds_index[OF that, of "snd (block_bounds ?is ! b) - 1"]
        block_index_of[OF that] block_bounds_nth[of _ ?is] by (metis Suc_leI snd_conv)
    then show ?thesis using that
      by (auto simp: blocks_nth opt_block_code_def intro!: nth_equalityI)
  qed
  ultimately show ?thesis
    using kept_blocks[of ?is "\<lambda>b. if ?seen ! b then opt_block_code ?is (?blocks ! b) else []" "\<lambda>b. ?seen ! b"]
    by (simp add: live_index_def[abs_def])
qed

lemma unreachable_returns: "coherent opt f \<Longrightarrow> \<exists>r. eliminate_unreachable_code opt f = Inr r"
  using live_blocks_facts(1)[of f] blocks_empty[of f] analysis_coherent[of opt f]
  by (cases "instructions f = []") (auto simp: eliminate_unreachable_code_def replace_instructions_def Let_def
      split: prod.splits)

lemma unreachable_pass_eq:
  assumes "coherent opt f"
  shows "pass_function eliminate_unreachable_code opt f =
    f\<lparr>instructions := kept_code (live_index P f) (instructions f)\<rparr>"
proof -
  obtain r where "eliminate_unreachable_code opt f = Inr r" using unreachable_returns[OF assms] by blast
  then show ?thesis using unreachable_body[OF assms, of r P] by (cases r) (auto simp: pass_function_def)
qed

lemma unreachable_pass_code:
  "unreachable_pass P f = f\<lparr>instructions := kept_code (live_index P f) (instructions f)\<rparr>"
  unfolding unreachable_pass_def by (rule unreachable_pass_eq) (rule coherent_new)

interpretation unreachable: deleting_pass unreachable_pass named_pre live_index live_index "\<lambda>P f. {}"
proof (unfold_locales, goal_cases)
  case (5 P f)
  then have "live_blocks f ! 0" using live_blocks_facts(2)[of f 0] leaders_Cons[of "instructions f"] by auto
  moreover have "block_of_instruction (instructions f) 0 = 0" by (simp add: block_of_instruction_def)
  ultimately show ?case by (simp add: live_index_def)
next
  case (6 P f p q)
  let ?is = "instructions f"
  let ?p = "block_of_instruction ?is p" and ?q = "block_of_instruction ?is q"
  have ne: "?is \<noteq> []" and l: "?p < length (leaders ?is)" "?q < length (leaders ?is)"
    using 6 block_of_less by auto
  show ?case
  proof (cases "?q = ?p")
    case False
    from 6 have "?q \<in> set (blk_successors (an_blocks (build_analysis f) ! ?p))"
      using analysis_covers_flow[of P f p q] False by (simp add: named_pre_def)
    then have "(?p, ?q) \<in> block_edges (an_blocks (build_analysis f))" using l by simp
    moreover have "(0, ?p) \<in> (block_edges (an_blocks (build_analysis f)))\<^sup>*"
      using 6(3) live_blocks_facts(2)[OF ne l(1)] by (simp add: live_index_def)
    ultimately show ?thesis using live_blocks_facts(2)[OF ne l(2)]
      by (auto simp: live_index_def intro: rtrancl_into_rtrancl)
  qed (use 6 in \<open>simp add: live_index_def\<close>)
qed (auto simp: unreachable_pass_code named_pre_def)

end
