(* ===== verification/Dead_Code.thy ===== *)
theory Dead_Code
  imports Optimizer
begin

text \<open>
  Dead code elimination, with its use counts and worklist, and the removal of redundant
  stores, with the loads it holds back (\<^verbatim>\<open>ir_optimizer.cpp\<close>).
\<close>

section \<open>Dead code\<close>

text \<open>
  The state of the sweep: reads left per register, the deleted flags and the worklist, its
  back first. The definitions of a register are kept newest first, as the chains of
  \<open>def_head\<close> and \<open>def_next\<close> list them.
\<close>

record dce_state =
  dce_use_count :: "nat list"
  dce_deleted :: "bool list"
  dce_work :: "nat list"

definition max_register :: "IRInstruction list \<Rightarrow> int" where
  "max_register is = foldl (\<lambda>m instr.
     foldl max (max m (ir_destination_register instr)) (ir_collect_read_registers instr)) (- 1) is"

definition count_use :: "nat list \<Rightarrow> int \<Rightarrow> nat list" where
  "count_use uses reg = (if 0 \<le> reg then uses[nat reg := Suc (uses ! nat reg)] else uses)"

definition use_counts :: "nat \<Rightarrow> IRInstruction list \<Rightarrow> nat list" where
  "use_counts nregs is = foldl count_use (replicate nregs 0) (concat (map ir_collect_read_registers is))"

definition definitions_of :: "IRInstruction list \<Rightarrow> int \<Rightarrow> nat list" where
  "definitions_of is reg =
     rev (filter (\<lambda>i. ir_destination_register (is ! i) = reg) [0..<length is])"

text \<open>Dropping one read; the last one puts the register's remaining definitions back.\<close>

definition drop_read :: "IRInstruction list \<Rightarrow> dce_state \<Rightarrow> int \<Rightarrow> dce_state" where
  "drop_read is st reg =
     (if reg < 0 then st
      else let uses = (dce_use_count st)[nat reg := dce_use_count st ! nat reg - 1] in
        if uses ! nat reg \<noteq> 0 then st\<lparr>dce_use_count := uses\<rparr>
        else st\<lparr>dce_use_count := uses,
               dce_work := rev (filter (\<lambda>d. \<not> dce_deleted st ! d) (definitions_of is reg)) @ dce_work st\<rparr>)"

definition dce_step :: "IRInstruction list \<Rightarrow> dce_state \<Rightarrow> dce_state res" where
  "dce_step is st =
     (let i = hd (dce_work st); st1 = st\<lparr>dce_work := tl (dce_work st)\<rparr>; instr = is ! i;
          dst = ir_destination_register instr in
      if dce_deleted st ! i then Inr st1
      else if dst < 0 \<or> dce_use_count st ! nat dst \<noteq> 0 then Inr st1
      else bind_res (ir_instruction_is_pure instr) (\<lambda>pure.
        if \<not> pure then Inr st1
        else Inr (foldl (drop_read is) (st1\<lparr>dce_deleted := (dce_deleted st)[i := True]\<rparr>)
               (ir_collect_read_registers instr))))"

definition dce_pending :: "dce_state res \<Rightarrow> bool" where
  "dce_pending r = (case r of Inl _ \<Rightarrow> False | Inr st \<Rightarrow> dce_work st \<noteq> [])"

definition dce_start :: "IRInstruction list \<Rightarrow> dce_state" where
  "dce_start is = \<lparr>dce_use_count = use_counts (nat (max_register is) + 1) is,
     dce_deleted = replicate (length is) False, dce_work = [0..<length is]\<rparr>"

definition dce_solve :: "IRInstruction list \<Rightarrow> bool list res" where
  "dce_solve is =
     (case while_option dce_pending (\<lambda>r. bind_res r (dce_step is)) (Inr (dce_start is)) of
        None \<Rightarrow> Inl Diverges
      | Some r \<Rightarrow> bind_res r (\<lambda>st. Inr (dce_deleted st)))"

definition survivors :: "bool list \<Rightarrow> IRInstruction list \<Rightarrow> IRInstruction list" where
  "survivors deleted is = map snd (filter (\<lambda>(d, _). \<not> d) (zip deleted is))"

definition eliminate_dead_code :: "IROptimizer \<Rightarrow> IRFunction \<Rightarrow> pass_result res" where
  "eliminate_dead_code opt func =
     (let is = instructions func in
      if is = [] \<or> max_register is < 0 then Inr (opt, func, False)
      else bind_res (dce_solve is) (\<lambda>deleted.
        if True \<notin> set deleted then Inr (opt, func, False)
        else Inr (invalidate_analysis opt, func\<lparr>instructions := survivors deleted is\<rparr>, True)))"

section \<open>Redundant stores\<close>

text \<open>The loads that are held back: for a register, the index of its pending load.\<close>

type_synonym pending = "(int \<times> nat) list"

definition flush_pending :: "IRInstruction list \<Rightarrow> pending \<Rightarrow> IRInstruction list" where
  "flush_pending is pending = map (\<lambda>(_, idx). is ! idx) (sort_key snd pending)"

definition reads_pending_store :: "IRInstruction \<Rightarrow> pending \<Rightarrow> bool" where
  "reads_pending_store instr pending =
     list_ex (\<lambda>reg. map_of pending reg \<noteq> None) (ir_collect_read_registers instr)"

definition identical_load :: "IRInstruction \<Rightarrow> IRInstruction \<Rightarrow> bool" where
  "identical_load prev instr =
     (opcode prev = opcode instr \<and> length (operands prev) = length (operands instr) \<and>
      (2 \<le> length (operands instr) \<longrightarrow>
        (case (operand instr 1, operand prev 1) of
           (Imm a, Imm b) \<Rightarrow> a = b
         | (FImm a, FImm b) \<Rightarrow> feq a b
         | (Reg a, Reg b) \<Rightarrow> a = b
         | _ \<Rightarrow> False)))"

definition store_step ::
  "IRInstruction list \<Rightarrow> nat \<Rightarrow> pending \<Rightarrow> (IRInstruction list \<times> pending) res" where
  "store_step is i pending =
     (let instr = is ! i in
      bind_res (ir_instruction_is_pure instr) (\<lambda>pure.
        if \<not> pure then Inr (flush_pending is pending @ [instr], [])
        else
          let (out, pending1) =
                (if reads_pending_store instr pending then (flush_pending is pending, [])
                 else ([], pending)) in
          if ir_has_effect (opcode instr) IR_SIMPLE_LOAD \<and> operands instr \<noteq> [] \<and>
             is_register (operand instr 0) then
            (let dst = reg_index (operand instr 0) in
             case map_of pending1 dst of
               Some prev_idx \<Rightarrow>
                 if identical_load (is ! prev_idx) instr then Inr (out, pending1)
                 else Inr (out, AList.update dst i pending1)
             | None \<Rightarrow> Inr (out, AList.update dst i pending1))
          else
            (let defined = ir_destination_register instr in
             Inr (out @ [instr], if 0 \<le> defined then AList.delete defined pending1 else pending1))))"

primrec store_sweep ::
  "IRInstruction list \<Rightarrow> nat list \<Rightarrow> pending \<Rightarrow> IRInstruction list res" where
  "store_sweep is [] pending = Inr (flush_pending is pending)"
| "store_sweep is (i # rest) pending =
     bind_res (store_step is i pending) (\<lambda>(out, pending1).
     bind_res (store_sweep is rest pending1) (\<lambda>out'. Inr (out @ out')))"

definition eliminate_redundant_stores :: "IROptimizer \<Rightarrow> IRFunction \<Rightarrow> pass_result res" where
  "eliminate_redundant_stores opt func =
     (if instructions func = [] then Inr (opt, func, False)
      else bind_res (store_sweep (instructions func) [0..<length (instructions func)] [])
        (\<lambda>fresh. Inr (replace_instructions opt func fresh)))"

end
