(* ===== verification/Dead_Code_Sound.thy ===== *)
theory Dead_Code_Sound
  imports Unreachable_Sound Dead_Code
begin

text \<open>
  Dead code elimination: the use counts are the reads left in what is not deleted, the
  worklist terminates at the fixed point, and the pass, a \<open>deleting_pass\<close>, keeps the meaning
  of verified functions.
\<close>

section \<open>Use counts\<close>

abbreviation reads_at :: "IRInstruction list \<Rightarrow> nat \<Rightarrow> int list" where
  "reads_at is i \<equiv> ir_collect_read_registers (is ! i)"

abbreviation dst_at :: "IRInstruction list \<Rightarrow> nat \<Rightarrow> int" where
  "dst_at is i \<equiv> ir_destination_register (is ! i)"

text \<open>The reads of a register left in the instructions that are not deleted.\<close>

definition live_reads :: "IRInstruction list \<Rightarrow> bool list \<Rightarrow> int \<Rightarrow> nat" where
  "live_reads is del r = (\<Sum>i<length is. if del ! i then 0 else count_list (reads_at is i) r)"

definition reg_count :: "IRInstruction list \<Rightarrow> nat" where
  "reg_count is = nat (max_register is) + 1"

lemma max_register_ge: "i < length is \<Longrightarrow> dst_at is i \<le> max_register is \<and> (\<forall>r \<in> set (reads_at is i). r \<le> max_register is)"
proof -
  let ?f = "\<lambda>m instr. foldl max (max m (ir_destination_register instr)) (ir_collect_read_registers instr)"
  have fm: "(m::int) \<le> foldl max m xs \<and> (\<forall>x \<in> set xs. x \<le> foldl max m xs)" for m xs
  proof (induction xs arbitrary: m)
    case (Cons x xs)
    from Cons[of "max m x"] show ?case by auto
  qed simp
  have mono: "m \<le> foldl ?f m xs" for m xs
  proof (induction xs arbitrary: m)
    case (Cons x xs)
    have "m \<le> ?f m x" using fm[of "max m (ir_destination_register x)"] by (meson le_max_iff_disj order_trans order_refl)
    then show ?case using Cons[of "?f m x"] by simp
  qed simp
  have "instr \<in> set xs \<Longrightarrow> ir_destination_register instr \<le> foldl ?f m xs \<and>
      (\<forall>r \<in> set (ir_collect_read_registers instr). r \<le> foldl ?f m xs)" for instr m xs
  proof (induction xs arbitrary: m)
    case (Cons x xs)
    show ?case
    proof (cases "instr = x")
      case True
      have "ir_destination_register x \<le> ?f m x" using fm[of "max m (ir_destination_register x)"]
        by (meson le_max_iff_disj order_trans order_refl)
      moreover have "\<forall>r \<in> set (ir_collect_read_registers x). r \<le> ?f m x" using fm by blast
      ultimately show ?thesis using mono[of "?f m x" xs] True by fastforce
    next
      case False
      then show ?thesis using Cons by simp
    qed
  qed simp
  then show "i < length is \<Longrightarrow> ?thesis" unfolding max_register_def by (meson nth_mem)
qed

lemma use_counts_nth:
  assumes "0 \<le> r" "nat r < n"
  shows "use_counts n is ! nat r = live_reads is (replicate (length is) False) r"
proof -
  have f: "foldl count_use u xs ! nat r = u ! nat r + count_list xs r" if "length u = n" for u xs
    using that
  proof (induction xs arbitrary: u)
    case (Cons x xs)
    have "length (count_use u x) = n" using Cons.prems by (simp add: count_use_def)
    moreover have "count_use u x ! nat r = u ! nat r + (if x = r then 1 else 0)"
      using Cons.prems assms by (auto simp: count_use_def nth_list_update eq_nat_nat_iff)
    ultimately show ?case using Cons.IH by simp
  qed simp
  have c: "count_list (concat (map ir_collect_read_registers xs)) r = (\<Sum>i<length xs. count_list (reads_at xs i) r)" for xs
    by (induction xs) (simp_all add: sum.lessThan_Suc_shift del: sum.lessThan_Suc)
  show ?thesis using f[of "replicate n 0"] assms c[of "is"] by (simp add: use_counts_def live_reads_def)
qed

lemma live_reads_delete:
  assumes "i < length is" "\<not> del ! i" "length del = length is"
  shows "live_reads is del r = live_reads is (del[i := True]) r + count_list (reads_at is i) r"
proof -
  have "live_reads is (d) r = (if d ! i then 0 else count_list (reads_at is i) r) +
      (\<Sum>j \<in> {..<length is} - {i}. if d ! j then 0 else count_list (reads_at is j) r)" for d
    unfolding live_reads_def using assms(1) by (intro sum.remove) auto
  moreover have "(\<Sum>j \<in> {..<length is} - {i}. if del[i := True] ! j then 0 else count_list (reads_at is j) r) =
      (\<Sum>j \<in> {..<length is} - {i}. if del ! j then 0 else count_list (reads_at is j) r)"
    by (rule sum.cong) auto
  ultimately show ?thesis using assms by simp
qed

lemma live_reads_0: "live_reads is del r = 0 \<longleftrightarrow> (\<forall>i < length is. \<not> del ! i \<longrightarrow> r \<notin> set (reads_at is i))"
  by (auto simp: live_reads_def count_list_0_iff)

section \<open>The sweep\<close>

definition counts_ok :: "IRInstruction list \<Rightarrow> dce_state \<Rightarrow> int list \<Rightarrow> bool" where
  "counts_ok is st pending \<longleftrightarrow> length (dce_use_count st) = reg_count is \<and>
     length (dce_deleted st) = length is \<and> set (dce_work st) \<subseteq> {..<length is} \<and>
     (\<forall>r. 0 \<le> r \<longrightarrow> nat r < reg_count is \<longrightarrow>
        dce_use_count st ! nat r = live_reads is (dce_deleted st) r + count_list pending r)"

lemma drop_read_ok:
  assumes c: "counts_ok is st (r # pending)" and r: "r \<le> max_register is"
  defines "st' \<equiv> drop_read is st r"
  shows "counts_ok is st' pending" "dce_deleted st' = dce_deleted st" "set (dce_work st) \<subseteq> set (dce_work st')"
    "\<And>q. dce_use_count st ! q = 0 \<Longrightarrow> dce_use_count st' ! q = 0"
    "\<And>i. i < length is \<Longrightarrow> \<not> dce_deleted st ! i \<Longrightarrow> 0 \<le> dst_at is i \<Longrightarrow>
       dce_use_count st' ! nat (dst_at is i) = 0 \<Longrightarrow> dce_use_count st ! nat (dst_at is i) \<noteq> 0 \<Longrightarrow> i \<in> set (dce_work st')"
proof -
  have "counts_ok is st' pending \<and> dce_deleted st' = dce_deleted st \<and> set (dce_work st) \<subseteq> set (dce_work st') \<and>
    (\<forall>q. dce_use_count st ! q = 0 \<longrightarrow> dce_use_count st' ! q = 0) \<and>
    (\<forall>i < length is. \<not> dce_deleted st ! i \<longrightarrow> 0 \<le> dst_at is i \<longrightarrow> dce_use_count st' ! nat (dst_at is i) = 0 \<longrightarrow>
       dce_use_count st ! nat (dst_at is i) \<noteq> 0 \<longrightarrow> i \<in> set (dce_work st'))"
  proof (cases "r < 0")
    case True
    then have "st' = st" by (simp add: st'_def drop_read_def)
    then show ?thesis using c True by (auto simp: counts_ok_def)
  next
    case False
    let ?u = "(dce_use_count st)[nat r := dce_use_count st ! nat r - 1]"
    have n: "nat r < length (dce_use_count st)" using c False r by (auto simp: counts_ok_def reg_count_def)
    have u: "dce_use_count st' = ?u" "dce_deleted st' = dce_deleted st"
      using False by (auto simp: st'_def drop_read_def Let_def)
    have w: "set (dce_work st') = set (dce_work st) \<union> (if ?u ! nat r = 0
        then {i. i < length is \<and> dst_at is i = r \<and> \<not> dce_deleted st ! i} else {})"
      using False by (auto simp: st'_def drop_read_def Let_def definitions_of_def)
    have "counts_ok is st' pending"
      using c u w False n by (auto simp: counts_ok_def nth_list_update eq_nat_nat_iff split: if_splits)
    moreover have "i \<in> set (dce_work st')" if "i < length is" "\<not> dce_deleted st ! i" "0 \<le> dst_at is i"
      "dce_use_count st' ! nat (dst_at is i) = 0" "dce_use_count st ! nat (dst_at is i) \<noteq> 0" for i
    proof -
      have "nat (dst_at is i) = nat r" using that u(1) n by (metis nth_list_update_neq)
      then have "dst_at is i = r" using that False by (simp add: eq_nat_nat_iff)
      then show ?thesis using that w u(1) by auto
    qed
    moreover have "dce_use_count st' ! q = 0" if "dce_use_count st ! q = 0" for q
      using that u(1) n by (cases "q = nat r") auto
    ultimately show ?thesis using u(2) w by blast
  qed
  then show "counts_ok is st' pending" "dce_deleted st' = dce_deleted st" "set (dce_work st) \<subseteq> set (dce_work st')"
    "\<And>q. dce_use_count st ! q = 0 \<Longrightarrow> dce_use_count st' ! q = 0"
    "\<And>i. i < length is \<Longrightarrow> \<not> dce_deleted st ! i \<Longrightarrow> 0 \<le> dst_at is i \<Longrightarrow>
       dce_use_count st' ! nat (dst_at is i) = 0 \<Longrightarrow> dce_use_count st ! nat (dst_at is i) \<noteq> 0 \<Longrightarrow> i \<in> set (dce_work st')"
    by blast+
qed

lemma drop_reads_ok:
  assumes "counts_ok is st pending" "\<forall>r \<in> set pending. r \<le> max_register is"
  defines "st' \<equiv> foldl (drop_read is) st pending"
  shows "counts_ok is st' [] \<and> dce_deleted st' = dce_deleted st \<and> set (dce_work st) \<subseteq> set (dce_work st') \<and>
    (\<forall>q. dce_use_count st ! q = 0 \<longrightarrow> dce_use_count st' ! q = 0) \<and>
    (\<forall>i < length is. \<not> dce_deleted st ! i \<longrightarrow> 0 \<le> dst_at is i \<longrightarrow> dce_use_count st' ! nat (dst_at is i) = 0 \<longrightarrow>
       dce_use_count st ! nat (dst_at is i) \<noteq> 0 \<longrightarrow> i \<in> set (dce_work st'))"
  using assms(1,2) unfolding st'_def
proof (induction pending arbitrary: st)
  case (Cons r pending)
  let ?s = "drop_read is st r"
  note d = drop_read_ok[OF Cons.prems(1)]
  have r: "r \<le> max_register is" using Cons.prems(2) by simp
  have ih: "counts_ok is (foldl (drop_read is) ?s pending) [] \<and>
    dce_deleted (foldl (drop_read is) ?s pending) = dce_deleted ?s \<and>
    set (dce_work ?s) \<subseteq> set (dce_work (foldl (drop_read is) ?s pending)) \<and>
    (\<forall>q. dce_use_count ?s ! q = 0 \<longrightarrow> dce_use_count (foldl (drop_read is) ?s pending) ! q = 0) \<and>
    (\<forall>i < length is. \<not> dce_deleted ?s ! i \<longrightarrow> 0 \<le> dst_at is i \<longrightarrow>
       dce_use_count (foldl (drop_read is) ?s pending) ! nat (dst_at is i) = 0 \<longrightarrow>
       dce_use_count ?s ! nat (dst_at is i) \<noteq> 0 \<longrightarrow> i \<in> set (dce_work (foldl (drop_read is) ?s pending)))"
    by (rule Cons.IH[OF d(1)[OF r]]) (use Cons.prems(2) in simp)
  show ?case unfolding foldl.simps
  proof (intro conjI allI impI)
    fix i assume i: "i < length is" "\<not> dce_deleted st ! i" "0 \<le> dst_at is i"
      "dce_use_count (foldl (drop_read is) ?s pending) ! nat (dst_at is i) = 0"
      "dce_use_count st ! nat (dst_at is i) \<noteq> 0"
    show "i \<in> set (dce_work (foldl (drop_read is) ?s pending))"
    proof (cases "dce_use_count ?s ! nat (dst_at is i) = 0")
      case True
      then show ?thesis using d(5)[OF r i(1-3) True i(5)] ih by blast
    next
      case False
      then show ?thesis using ih i d(2)[OF r] by simp
    qed
  qed (use ih d(2,3,4)[OF r] in auto)
qed (auto simp: counts_ok_def)

definition dce_inv :: "IRInstruction list \<Rightarrow> dce_state \<Rightarrow> bool" where
  "dce_inv is st \<longleftrightarrow> counts_ok is st [] \<and>
     (\<forall>i < length is. dce_deleted st ! i \<longrightarrow> 0 \<le> dst_at is i \<and> dce_use_count st ! nat (dst_at is i) = 0 \<and>
        ir_instruction_is_pure (is ! i) = Inr True) \<and>
     (\<forall>i < length is. \<not> dce_deleted st ! i \<longrightarrow> 0 \<le> dst_at is i \<longrightarrow> dce_use_count st ! nat (dst_at is i) = 0 \<longrightarrow>
        ir_instruction_is_pure (is ! i) = Inr True \<longrightarrow> i \<in> set (dce_work st))"

lemma length_use_counts [simp]: "length (use_counts n is) = n"
proof -
  have "length (foldl count_use u xs) = length u" for u xs
    by (induction xs arbitrary: u) (auto simp: count_use_def)
  then show ?thesis by (simp add: use_counts_def)
qed

lemma dce_start_inv: "dce_inv is (dce_start is)"
  by (auto simp: dce_inv_def counts_ok_def dce_start_def use_counts_nth reg_count_def)

abbreviation undeleted :: "dce_state \<Rightarrow> nat" where
  "undeleted st \<equiv> length (filter Not (dce_deleted st))"

lemma dce_step_inv:
  assumes inv: "dce_inv is st" and w: "dce_work st \<noteq> []" and s: "dce_step is st = Inr st'"
  shows "dce_inv is st'"
    "undeleted st' < undeleted st \<or> undeleted st' = undeleted st \<and> length (dce_work st') < length (dce_work st)"
proof -
  let ?i = "hd (dce_work st)" and ?st1 = "st\<lparr>dce_work := tl (dce_work st)\<rparr>"
  have c: "counts_ok is st []" using inv by (simp add: dce_inv_def)
  have i: "?i < length is" using c hd_in_set[OF w] by (auto simp: counts_ok_def)
  have mem: "x \<in> set (dce_work st) \<longleftrightarrow> x = ?i \<or> x \<in> set (tl (dce_work st))" for x
    using w by (cases "dce_work st") auto
  have both: "dce_inv is st' \<and> (undeleted st' < undeleted st \<or>
      undeleted st' = undeleted st \<and> length (dce_work st') < length (dce_work st))"
  proof (cases "\<not> dce_deleted st ! ?i \<and> 0 \<le> dst_at is ?i \<and> dce_use_count st ! nat (dst_at is ?i) = 0 \<and>
      ir_instruction_is_pure (is ! ?i) = Inr True")
    case False
    then have "st' = ?st1" using s by (auto simp: dce_step_def Let_def res_simps split: if_splits)
    moreover have "dce_inv is ?st1" using inv False mem by (auto simp: dce_inv_def counts_ok_def)
    ultimately show ?thesis using w by simp
  next
    case True
    let ?st2 = "?st1\<lparr>dce_deleted := (dce_deleted st)[?i := True]\<rparr>"
    have e: "st' = foldl (drop_read is) ?st2 (reads_at is ?i)"
      using s True by (auto simp: dce_step_def Let_def res_simps split: if_splits)
    have len: "length (dce_deleted st) = length is" using c by (simp add: counts_ok_def)
    have c2: "counts_ok is ?st2 (reads_at is ?i)"
      using c mem live_reads_delete[OF i _ len] True by (auto simp: counts_ok_def)
    have "\<forall>r \<in> set (reads_at is ?i). r \<le> max_register is" using max_register_ge[OF i] by blast
    note d = drop_reads_ok[OF c2 this, folded e]
    have del: "dce_deleted st' = (dce_deleted st)[?i := True]" using d by simp
    have "dce_inv is st'" unfolding dce_inv_def
    proof (intro conjI allI impI)
      show "counts_ok is st' []" using d by simp
    next
      fix j assume "j < length is" "dce_deleted st' ! j"
      then show "0 \<le> dst_at is j" "dce_use_count st' ! nat (dst_at is j) = 0" "ir_instruction_is_pure (is ! j) = Inr True"
        using inv True d del len i by (auto simp: dce_inv_def nth_list_update split: if_splits)
    next
      fix j assume j: "j < length is" "\<not> dce_deleted st' ! j" "0 \<le> dst_at is j"
        "dce_use_count st' ! nat (dst_at is j) = 0" "ir_instruction_is_pure (is ! j) = Inr True"
      then have nd: "\<not> dce_deleted st ! j" "j \<noteq> ?i" using del len i by (auto simp: nth_list_update split: if_splits)
      show "j \<in> set (dce_work st')"
      proof (cases "dce_use_count st ! nat (dst_at is j) = 0")
        case True
        then have "j \<in> set (dce_work st)" using inv j nd by (simp add: dce_inv_def)
        then have "j \<in> set (dce_work ?st2)" using mem nd by simp
        then show ?thesis using d by blast
      next
        case False
        then show ?thesis using d j nd del by simp
      qed
    qed
    moreover have "undeleted st' < undeleted st"
      using del unseen_update[of ?i "dce_deleted st"] True i len by simp
    ultimately show ?thesis by simp
  qed
  then show "dce_inv is st'" "undeleted st' < undeleted st \<or>
    undeleted st' = undeleted st \<and> length (dce_work st') < length (dce_work st)" by blast+
qed

definition dce_order :: "(dce_state res \<times> dce_state res) set" where
  "dce_order = inv_image (less_than <*lex*> less_than <*lex*> less_than)
     (\<lambda>r. case r of Inl _ \<Rightarrow> (0, 0, 0) | Inr st \<Rightarrow> (1, undeleted st, length (dce_work st)))"

lemma wf_dce_order: "wf dce_order"
  unfolding dce_order_def by (intro wf_inv_image wf_lex_prod wf_less_than)

lemma pure_fault: "ir_instruction_is_pure i \<noteq> Inl Diverges"
  by (auto simp: ir_instruction_is_pure_def global_function_def bind_res_eq_Inl split: option.splits)

definition dce_ok :: "IRInstruction list \<Rightarrow> dce_state res \<Rightarrow> bool" where
  "dce_ok is r \<longleftrightarrow> r \<noteq> Inl Diverges \<and> (\<forall>st. r = Inr st \<longrightarrow> dce_inv is st)"

lemma dce_ok_step:
  assumes "dce_ok is r" "dce_pending r"
  shows "dce_ok is (bind_res r (dce_step is))" "(bind_res r (dce_step is), r) \<in> dce_order"
proof -
  obtain st where r: "r = Inr st" "dce_work st \<noteq> []" "dce_inv is st"
    using assms by (auto simp: dce_pending_def dce_ok_def split: sum.splits)
  have "dce_step is st \<noteq> Inl Diverges"
    using pure_fault by (auto simp: dce_step_def Let_def bind_res_eq_Inl)
  then show "dce_ok is (bind_res r (dce_step is))"
    using dce_step_inv(1)[OF r(3,2)] r(1) by (simp add: dce_ok_def)
  show "(bind_res r (dce_step is), r) \<in> dce_order"
    using dce_step_inv(2)[OF r(3,2)] r(1) by (cases "dce_step is st") (auto simp: dce_order_def)
qed

lemma dce_solve_result:
  shows dce_solve_ends: "dce_solve is \<noteq> Inl Diverges"
    and dce_solve_inv: "dce_solve is = Inr del \<Longrightarrow>
      \<exists>st. dce_inv is st \<and> dce_work st = [] \<and> dce_deleted st = del"
proof -
  let ?c = "\<lambda>r. bind_res r (dce_step is)"
  have wf: "wf {(t, s). (dce_ok is s \<and> dce_pending s) \<and> t = ?c s}"
    by (rule wf_subset[OF wf_dce_order]) (use dce_ok_step(2) in blast)
  have start: "dce_ok is (Inr (dce_start is))" by (simp add: dce_ok_def dce_start_inv)
  have "\<exists>t. while_option dce_pending ?c (Inr (dce_start is)) = Some t"
    using wf start dce_ok_step(1) by (intro wf_while_option_Some[where P = "dce_ok is"]) auto
  then obtain r where t: "while_option dce_pending ?c (Inr (dce_start is)) = Some r" by blast
  have ok: "dce_ok is r"
    using start dce_ok_step(1) by (intro while_option_rule[OF _ t, where P = "dce_ok is"]) auto
  have stop: "\<not> dce_pending r" by (rule while_option_stop[OF t])
  have e: "dce_solve is = bind_res r (\<lambda>st. Inr (dce_deleted st))" by (simp only: dce_solve_def t option.case)
  show "dce_solve is \<noteq> Inl Diverges" using e ok by (auto simp: dce_ok_def bind_res_eq_Inl)
  show "dce_solve is = Inr del \<Longrightarrow> \<exists>st. dce_inv is st \<and> dce_work st = [] \<and> dce_deleted st = del"
    using e ok stop by (auto simp: dce_ok_def dce_pending_def bind_res_eq_Inr)
qed

lemma dce_solution:
  assumes "dce_solve is = Inr del" "i < length is"
  shows "length del = length is"
    "del ! i \<longleftrightarrow> 0 \<le> dst_at is i \<and> ir_instruction_is_pure (is ! i) = Inr True \<and>
       (\<forall>j < length is. \<not> del ! j \<longrightarrow> dst_at is i \<notin> set (reads_at is j))"
proof -
  obtain st where st: "dce_inv is st" "dce_work st = []" "dce_deleted st = del" using dce_solve_inv[OF assms(1)] by blast
  then show "length del = length is" by (auto simp: dce_inv_def counts_ok_def)
  have u: "dce_use_count st ! nat (dst_at is i) = 0 \<longleftrightarrow> (\<forall>j < length is. \<not> del ! j \<longrightarrow> dst_at is i \<notin> set (reads_at is j))"
    if "0 \<le> dst_at is i"
  proof -
    have "nat (dst_at is i) < reg_count is" using max_register_ge[OF assms(2)]
      by (auto simp: reg_count_def less_Suc_eq_le intro: nat_mono)
    then have "dce_use_count st ! nat (dst_at is i) = live_reads is del (dst_at is i)"
      using st that by (simp add: dce_inv_def counts_ok_def)
    then show ?thesis by (simp add: live_reads_0)
  qed
  then show "del ! i \<longleftrightarrow> 0 \<le> dst_at is i \<and> ir_instruction_is_pure (is ! i) = Inr True \<and>
       (\<forall>j < length is. \<not> del ! j \<longrightarrow> dst_at is i \<notin> set (reads_at is j))"
    using st assms(2) unfolding dce_inv_def by (metis empty_iff empty_set)
qed

section \<open>Dead code\<close>

lemma pure_table:
  "\<forall>row \<in> set IR_OPCODE_TABLE. effects row AND IR_SIDE_EFFECTS = 0 \<longrightarrow>
     info_opcode row \<notin> set BRANCH_OPS \<union> {OP_SWITCH, OP_STORE_GLOBAL, OP_CALL}"
  unfolding list_all_iff[symmetric] by code_simp

lemma pure_opcode: "ir_is_pure op \<Longrightarrow> op \<notin> set BRANCH_OPS \<union> {OP_SWITCH, OP_STORE_GLOBAL, OP_CALL}"
proof (cases "opcode_index op < IR_OPCODE_COUNT")
  case True
  assume "ir_is_pure op"
  then show ?thesis using opcode_info_rows[OF _ True, of
    "\<lambda>op row. effects row AND IR_SIDE_EFFECTS = 0 \<longrightarrow> op \<notin> set BRANCH_OPS \<union> {OP_SWITCH, OP_STORE_GLOBAL, OP_CALL}"]
    pure_table by (auto simp: ir_is_pure_def)
next
  case False
  then show ?thesis by (auto simp: op_lists IR_OPCODE_COUNT_def)
qed

lemma pure_effect:
  assumes "ir_instruction_is_pure i = Inr True" "instr_effect call lm P i rd gs = Inr (w, j, gs')"
  shows "j = None \<and> gs' = gs"
proof -
  have "ir_is_pure (opcode i)" using assms(1) by (auto simp: ir_instruction_is_pure_def split: if_splits)
  then show ?thesis using effect_shape(3,4)[OF assms(2)] pure_opcode[of "opcode i"] by blast
qed

definition dead_code_pass :: "IRProgram \<Rightarrow> IRFunction \<Rightarrow> IRFunction" where
  "dead_code_pass P = pass_function eliminate_dead_code new_optimizer"

text \<open>What survives, and the registers nothing that survives reads.\<close>

definition deleted_flags :: "IRFunction \<Rightarrow> bool list" where
  "deleted_flags f = (case dce_solve (instructions f) of
     Inr del \<Rightarrow> (if instructions f = [] \<or> max_register (instructions f) < 0
       then replicate (length (instructions f)) False else del)
   | Inl _ \<Rightarrow> replicate (length (instructions f)) False)"

definition survives :: "IRProgram \<Rightarrow> IRFunction \<Rightarrow> nat \<Rightarrow> bool" where
  "survives P f p \<longleftrightarrow> \<not> deleted_flags f ! p"

definition unread :: "IRProgram \<Rightarrow> IRFunction \<Rightarrow> int set" where
  "unread P f = {r. \<forall>j < length (instructions f). survives P f j \<longrightarrow> r \<notin> set (reads_at (instructions f) j)}"

lemma length_deleted_flags: "length (deleted_flags f) = length (instructions f)"
proof (cases "instructions f = []")
  case False
  then show ?thesis using dce_solution(1)[of "instructions f" _ 0] by (auto simp: deleted_flags_def split: sum.splits)
qed (auto simp: deleted_flags_def split: sum.splits)

lemma deleted_flags_iff:
  assumes "p < length (instructions f)" "\<not> survives P f p"
  shows "0 \<le> dst_at (instructions f) p \<and> ir_instruction_is_pure (instructions f ! p) = Inr True \<and>
    dst_at (instructions f) p \<in> unread P f"
proof -
  obtain del where "dce_solve (instructions f) = Inr del" "deleted_flags f = del"
    using assms by (auto simp: deleted_flags_def survives_def split: sum.splits if_splits)
  then show ?thesis using assms dce_solution(2)[of "instructions f" del p] by (auto simp: survives_def unread_def)
qed

lemma survivors_kept: "length del = length is \<Longrightarrow> survivors del is = kept_code (\<lambda>p. \<not> del ! p) is"
proof (induction del "is" rule: list_induct2)
  case (Cons d del x xs)
  have "[0..<length (x # xs)] = 0 # map Suc [0..<length xs]" by (simp add: map_Suc_upt upt_conv_Cons del: upt_Suc)
  then have "kept_code (\<lambda>p. \<not> (d # del) ! p) (x # xs) =
      (if d then [] else [x]) @ kept_code (\<lambda>p. \<not> del ! p) xs"
    by (simp only: kept_code_def) (simp add: filter_map o_def)
  then show ?case using Cons.IH by (simp add: survivors_def)
qed (simp add: survivors_def kept_code_def)

lemma kept_code_all: "\<forall>p < length is. K p \<Longrightarrow> kept_code K is = is"
proof -
  assume "\<forall>p < length is. K p"
  then have "filter K [0..<length is] = [0..<length is]" by (simp add: filter_id_conv)
  then show ?thesis by (simp add: kept_code_def map_nth)
qed

lemma dead_code_pass_eq:
  "pass_function eliminate_dead_code opt f = f\<lparr>instructions := kept_code (survives P f) (instructions f)\<rparr>"
proof (cases "dce_solve (instructions f)")
  case (Inl e)
  then have "kept_code (survives P f) (instructions f) = instructions f"
    by (intro kept_code_all) (simp add: survives_def deleted_flags_def)
  then show ?thesis using Inl by (simp add: pass_function_def eliminate_dead_code_def Let_def)
next
  case (Inr del)
  have l: "length (deleted_flags f) = length (instructions f)" by (rule length_deleted_flags)
  have k: "survivors (deleted_flags f) (instructions f) = kept_code (survives P f) (instructions f)"
    using survivors_kept[OF l] by (simp add: survives_def[abs_def])
  show ?thesis
  proof (cases "True \<in> set (deleted_flags f)")
    case True
    then have "deleted_flags f = del" "\<not> (instructions f = [] \<or> max_register (instructions f) < 0)"
      using Inr by (auto simp: deleted_flags_def split: if_splits)
    then show ?thesis using True k Inr by (auto simp: pass_function_def eliminate_dead_code_def Let_def)
  next
    case False
    then have "kept_code (survives P f) (instructions f) = instructions f"
      using l by (intro kept_code_all) (metis nth_mem survives_def)
    then show ?thesis using False Inr
      by (auto simp: pass_function_def eliminate_dead_code_def deleted_flags_def Let_def split: if_splits)
  qed
qed

lemma dead_code_pass_code: "dead_code_pass P f = f\<lparr>instructions := kept_code (survives P f) (instructions f)\<rparr>"
  unfolding dead_code_pass_def by (rule dead_code_pass_eq)

interpretation dead_code: deleting_pass dead_code_pass verified survives "\<lambda>P f p. True" unread
proof (unfold_locales, goal_cases)
  case (7 P f p)
  then have "dst_at (instructions f) p = - 1"
    using destination_none[of "instructions f ! p"] by (auto simp: NO_DST_OPS_def SKIP_OPS_def)
  then show ?case using deleted_flags_iff[OF 7(2), of P] by fastforce
next
  case (8 P f p call lm rd gs w j gs')
  then show ?case using deleted_flags_iff[OF 8(2,4)] pure_effect[OF _ 8(5)] by blast
next
  case (9 P f p r)
  then show ?case by (auto simp: unread_def)
qed (auto simp: dead_code_pass_code)

end
