(* ===== verification/Compact_Registers.thy ===== *)
theory Compact_Registers
  imports Dead_Code_Sound
begin

text \<open>
  Renumbering of registers: the new numbers are distinct, the return register and the
  parameters keep theirs, and the pass keeps the meaning of verified functions.
\<close>

section \<open>Numbering registers\<close>

definition new_number :: "reg_map \<Rightarrow> int \<Rightarrow> int" where
  "new_number m r = (case map_of m r of Some r' \<Rightarrow> r' | None \<Rightarrow> 0)"

definition numbering :: "nat \<Rightarrow> reg_map \<times> int \<Rightarrow> bool" where
  "numbering n st \<longleftrightarrow> (case st of (m, next_reg) \<Rightarrow>
     (\<forall>r. r = 0 \<or> 0 \<le> r \<and> r < int n \<longrightarrow> map_of m r = Some r) \<and>
     (\<forall>r s x. map_of m r = Some x \<longrightarrow> map_of m s = Some x \<longrightarrow> r = s) \<and>
     (\<forall>r x. map_of m r = Some x \<longrightarrow> 0 \<le> x \<and> x < next_reg \<and> (x = r \<or> max 1 (int n) \<le> x)) \<and>
     max 1 (int n) \<le> next_reg)"

lemma pinned_numbering: "numbering (length (parameters f)) (pinned_registers f, max 1 (int (length (parameters f))))"
proof -
  have "map_of (fold (\<lambda>i. AList.update (int i) (int i)) [0..<n] [(0, 0)]) r =
      (if r = 0 \<or> 0 \<le> r \<and> r < int n then Some r else None)" for n r
    by (induction n) auto
  then have "map_of (pinned_registers f) r =
      (if r = 0 \<or> 0 \<le> r \<and> r < int (length (parameters f)) then Some r else None)" for r
    by (simp add: pinned_registers_def RETURN_REGISTER_def)
  then show ?thesis by (auto simp: numbering_def split: if_splits)
qed

lemma number_operand_keeps:
  assumes "numbering n st"
  shows "numbering n (number_operand st v)"
proof -
  obtain m k where st: "st = (m, k)" by (cases st)
  have num: "\<forall>r. r = 0 \<or> 0 \<le> r \<and> r < int n \<longrightarrow> map_of m r = Some r"
    "\<forall>r s x. map_of m r = Some x \<longrightarrow> map_of m s = Some x \<longrightarrow> r = s"
    "\<forall>r x. map_of m r = Some x \<longrightarrow> 0 \<le> x \<and> x < k \<and> (x = r \<or> max 1 (int n) \<le> x)" "max 1 (int n) \<le> k"
    using assms by (simp_all add: st numbering_def)
  show ?thesis
  proof (cases "\<exists>old. v = Reg old \<and> map_of m old = None")
    case True
    then obtain old where old: "v = Reg old" "map_of m old = None" by blast
    then have e: "number_operand st v = (AList.update old k m, k + 1)" by (simp add: st number_operand_def)
    have p: "((map_of m)(old \<mapsto> k)) r = Some r" if "r = 0 \<or> 0 \<le> r \<and> r < int n" for r
      using num(1) that old(2) by (metis fun_upd_other option.discI)
    have q: "r = s" if "((map_of m)(old \<mapsto> k)) r = Some x" "((map_of m)(old \<mapsto> k)) s = Some x" for r s x
    proof (cases "x = k")
      case True
      then show ?thesis using that num(3) by (metis fun_upd_apply less_irrefl)
    next
      case False
      then show ?thesis using that num(2) by (metis fun_upd_apply option.inject)
    qed
    have t: "0 \<le> x \<and> x < k + 1 \<and> (x = r \<or> max 1 (int n) \<le> x)" if "((map_of m)(old \<mapsto> k)) r = Some x" for r x
    proof (cases "r = old")
      case True
      then show ?thesis using that num(4) by auto
    next
      case False
      then have "0 \<le> x \<and> x < k \<and> (x = r \<or> max 1 (int n) \<le> x)" using that num(3) by simp
      then show ?thesis by linarith
    qed
    show ?thesis unfolding e numbering_def prod.case map_of_update
    proof (intro conjI allI impI)
      show "max 1 (int n) \<le> k + 1" using num(4) by linarith
    qed (use p q t in blast)+
  next
    case False
    then have "number_operand st v = st" by (auto simp: st number_operand_def split: IRValue.splits option.splits)
    then show ?thesis using assms by simp
  qed
qed

lemma number_operands:
  "numbering n st \<Longrightarrow> numbering n (foldl number_operand st vs) \<and>
     (\<forall>r x. map_of (fst st) r = Some x \<longrightarrow> map_of (fst (foldl number_operand st vs)) r = Some x) \<and>
     (\<forall>r. Reg r \<in> set vs \<longrightarrow> map_of (fst (foldl number_operand st vs)) r \<noteq> None)"
proof (induction vs arbitrary: st)
  case (Cons v vs)
  have n: "numbering n (number_operand st v)" by (rule number_operand_keeps[OF Cons.prems])
  have k: "map_of (fst st) r = Some x \<Longrightarrow> map_of (fst (number_operand st v)) r = Some x" for r x
    by (cases st) (auto simp: number_operand_def split: IRValue.splits option.splits)
  have "v = Reg r \<Longrightarrow> map_of (fst (number_operand st v)) r \<noteq> None" for r
    by (cases st) (auto simp: number_operand_def split: option.splits)
  then show ?case using Cons.IH[OF n] k by fastforce
qed simp

definition used_registers :: "IRFunction \<Rightarrow> int set" where
  "used_registers f = insert 0 ({r. \<exists>i \<in> set (instructions f). Reg r \<in> set (operands i)} \<union>
     int ` {..<length (parameters f)})"

lemma number_registers_facts:
  defines "g \<equiv> \<lambda>f. new_number (number_registers f)"
  shows "inj_on (g f) (used_registers f)"
    "r = 0 \<or> 0 \<le> r \<and> r < int (length (parameters f)) \<Longrightarrow> g f r = r"
    "r \<in> used_registers f \<Longrightarrow> 0 \<le> g f r"
    "r \<in> used_registers f \<Longrightarrow> g f r = r \<or> max 1 (int (length (parameters f))) \<le> g f r"
    "r \<in> used_registers f \<Longrightarrow> map_of (number_registers f) r = Some (g f r)"
proof -
  let ?n = "length (parameters f)" and ?vs = "concat (map operands (instructions f))"
  let ?st = "foldl number_operand (pinned_registers f, max 1 (int ?n)) ?vs" and ?m = "number_registers f"
  have k: "numbering ?n ?st" "\<And>r. Reg r \<in> set ?vs \<Longrightarrow> map_of ?m r \<noteq> None"
    using number_operands[OF pinned_numbering, of f ?vs] by (simp_all add: number_registers_def)
  obtain bound where st: "?st = (?m, bound)" by (metis number_registers_def prod.collapse)
  have pin: "\<And>r. r = 0 \<or> 0 \<le> r \<and> r < int ?n \<Longrightarrow> map_of ?m r = Some r"
    and inj: "\<And>r s x. map_of ?m r = Some x \<Longrightarrow> map_of ?m s = Some x \<Longrightarrow> r = s"
    and rng: "\<And>r x. map_of ?m r = Some x \<Longrightarrow> 0 \<le> x \<and> x < bound \<and> (x = r \<or> max 1 (int ?n) \<le> x)"
    using k(1)[unfolded st numbering_def prod.case] by blast+
  have used: "map_of ?m r \<noteq> None" if "r \<in> used_registers f" for r
  proof -
    from that consider "r = 0 \<or> 0 \<le> r \<and> r < int ?n" | "Reg r \<in> set ?vs" by (auto simp: used_registers_def)
    then show ?thesis using pin[of r] k(2)[of r] by cases auto
  qed
  show v: "r \<in> used_registers f \<Longrightarrow> map_of ?m r = Some (g f r)" for r
    using used[of r] by (auto simp: g_def new_number_def)
  show "r = 0 \<or> 0 \<le> r \<and> r < int ?n \<Longrightarrow> g f r = r" using pin[of r] by (simp add: g_def new_number_def)
  show "r \<in> used_registers f \<Longrightarrow> 0 \<le> g f r" "r \<in> used_registers f \<Longrightarrow> g f r = r \<or> max 1 (int ?n) \<le> g f r"
    using rng[OF v, of r] by blast+
  show "inj_on (g f) (used_registers f)"
  proof (rule inj_onI)
    fix r s assume "r \<in> used_registers f" "s \<in> used_registers f" "g f r = g f s"
    then show "r = s" using inj[OF v, of r s] v[of s] by simp
  qed
qed

section \<open>Renamed instructions\<close>


lemma rename_nth:
  assumes "\<forall>r. Reg r \<in> set (operands i) \<longrightarrow> map_of m r \<noteq> None" "j < length (operands i)"
  shows "operands (rename_instruction m i) ! j =
    (case operands i ! j of Reg r \<Rightarrow> Reg (new_number m r) | v \<Rightarrow> v)"
  using assms nth_mem[OF assms(2)]
  by (auto simp: rename_instruction_def rename_operand_def new_number_def split: IRValue.splits option.splits)

lemma rename_simps [simp]:
  "opcode (rename_instruction m i) = opcode i" "type_hint (rename_instruction m i) = type_hint i"
  "length (operands (rename_instruction m i)) = length (operands i)"
  by (simp_all add: rename_instruction_def)

lemma rename_kinds:
  assumes "j < length (operands i)"
  shows "is_register (operands (rename_instruction m i) ! j) = is_register (operands i ! j)"
    "operand_matches (operands (rename_instruction m i) ! j) k = operand_matches (operands i ! j) k"
    "immediate (operands (rename_instruction m i) ! j) = immediate (operands i ! j) \<or> is_register (operands i ! j)"
  using assms by (auto simp: rename_instruction_def rename_operand_def is_register_def operand_matches_def
    is_immediate_def is_label_def split: IRValue.splits option.splits IROperandKind.splits)

lemma rename_reads:
  assumes k: "\<forall>r. Reg r \<in> set (operands i) \<longrightarrow> map_of m r \<noteq> None" and z: "new_number m 0 = 0"
  shows "ir_collect_read_registers (rename_instruction m i) = map (new_number m) (ir_collect_read_registers i)"
proof -
  have r: "ir_reads_operand (rename_instruction m i) j = ir_reads_operand i j" if "j < length (operands i)" for j
    using rename_kinds(1)[OF that] by (simp add: ir_reads_operand_def)
  have "reg_index (operands (rename_instruction m i) ! j) = new_number m (reg_index (operands i ! j))"
    if "j < length (operands i)" "ir_reads_operand i j" for j
    using that rename_nth[OF k that(1)] by (auto simp: ir_reads_operand_def is_register_iff)
  then have "map (\<lambda>j. reg_index (operands (rename_instruction m i) ! j)) (filter (ir_reads_operand i) [0..<length (operands i)]) =
      map (\<lambda>j. new_number m (reg_index (operands i ! j))) (filter (ir_reads_operand i) [0..<length (operands i)])"
    by (intro map_cong) auto
  moreover have "filter (ir_reads_operand (rename_instruction m i)) [0..<length (operands i)] =
      filter (ir_reads_operand i) [0..<length (operands i)]"
    using r by (intro filter_cong) auto
  moreover have "operands (rename_instruction m i) = [] \<longleftrightarrow> operands i = []" by (simp add: rename_instruction_def)
  ultimately show ?thesis using z by (simp add: ir_collect_read_registers_def RETURN_REGISTER_def)
qed

lemma rename_destination:
  assumes k: "\<forall>r. Reg r \<in> set (operands i) \<longrightarrow> map_of m r \<noteq> None"
  obtains "ir_destination_register i = - 1" "ir_destination_register (rename_instruction m i) = - 1"
  | "Reg (ir_destination_register i) \<in> set (operands i)"
    "ir_destination_register (rename_instruction m i) = new_number m (ir_destination_register i)"
proof -
  let ?j = "ir_destination_operand_index (opcode i)"
  show thesis
  proof (cases "?j < 0 \<or> length (operands i) \<le> nat ?j")
    case True
    then show thesis using that(1) by (simp add: ir_destination_register_def Let_def)
  next
    case False
    then have j: "nat ?j < length (operands i)" by simp
    show thesis using that False rename_nth[OF k j] nth_mem[OF j]
      by (cases "operands i ! nat ?j") (auto simp: ir_destination_register_def Let_def)
  qed
qed

lemma rename_ok:
  assumes ok: "operands_ok i" and k: "\<forall>r. Reg r \<in> set (operands i) \<longrightarrow> map_of m r \<noteq> None"
    and z: "new_number m 0 = 0" and nr: "opcode i \<noteq> OP_RETURN"
    and inj: "inj_on (new_number m) {r. Reg r \<in> set (operands i)}"
    and nn: "\<forall>r. Reg r \<in> set (operands i) \<longrightarrow> 0 \<le> r"
  shows "operands_ok (rename_instruction m i)"
proof -
  let ?i = "rename_instruction m i" and ?sig = "signature (ir_opcode_info (opcode i))"
  have shape: "fixed_count ?sig \<le> length (operands i)" "is_variadic ?sig \<or> length (operands i) \<le> length ?sig"
    "\<forall>j < length (operands i). operand_matches (operands i ! j) (kind_at ?sig j)"
    "check_argument_count i = Inr ()" "check_call_destination i = Inr ()"
    using ok by (auto simp: operands_ok_def check_instruction_operands_def Let_def res_simps)
  have "check_counts ?i n j ks = check_counts i n j ks"
    if "\<forall>l < length ks. j + l < length (operands i) \<longrightarrow> ks ! l \<in> {CNT, CNT2} \<longrightarrow> \<not> is_register (operands i ! (j + l))" for n j ks
    using that
  proof (induction ks arbitrary: j)
    case (Cons x ks)
    have ih: "check_counts ?i n (Suc j) ks = check_counts i n (Suc j) ks"
      by (rule Cons.IH) (use Cons.prems in force)
    show ?case
    proof (cases "x \<in> {CNT, CNT2} \<and> j < length (operands i)")
      case True
      then have "\<not> is_register (operands i ! j)" using Cons.prems by force
      then have "immediate (operands ?i ! j) = immediate (operands i ! j)" using rename_kinds(3)[of j i m] True by blast
      then show ?thesis using ih by simp
    next
      case False
      then show ?thesis using ih by auto
    qed
  qed simp
  moreover have "\<not> is_register (operands i ! l)" if "l < fixed_count ?sig" "?sig ! l \<in> {CNT, CNT2}" for l
    using fixed_operand(2)[OF ok refl that(1)] that(2) by (auto simp: operand_matches_def is_immediate_iff is_register_iff)
  ultimately have "check_argument_count ?i = Inr ()" using shape(4)
    by (simp add: check_argument_count_def Let_def)
  moreover have "check_call_destination ?i = Inr ()"
  proof (rule rename_destination[OF k])
    assume "ir_destination_register ?i = - 1"
    then show ?thesis by (simp add: check_call_destination_def Let_def)
  next
    let ?d = "ir_destination_register i"
    assume d: "Reg ?d \<in> set (operands i)" "ir_destination_register ?i = new_number m ?d"
    show ?thesis
    proof (cases "ir_has_effect (opcode i) IR_CALL")
      case True
      then have "?d \<notin> set (ir_collect_read_registers i)"
        using shape(5) nn d(1) by (auto simp: check_call_destination_def Let_def split: if_splits)
      moreover have "\<forall>r \<in> set (ir_collect_read_registers i). Reg r \<in> set (operands i)"
        using reads_are_operands[OF nr] by blast
      ultimately have "new_number m ?d \<notin> set (ir_collect_read_registers ?i)"
        using d(1) inj by (auto simp: rename_reads[OF k z] inj_on_def)
      then show ?thesis using d(2) by (simp add: check_call_destination_def Let_def)
    qed (simp add: check_call_destination_def)
  qed
  ultimately show ?thesis using shape rename_kinds(2)[of _ i m]
    by (simp add: operands_ok_def check_instruction_operands_def Let_def bind_res_eq_Inr)
qed

section \<open>Renumbered functions\<close>

definition compact_pass :: "IRProgram \<Rightarrow> IRFunction \<Rightarrow> IRFunction" where
  "compact_pass P = pass_function reduce_register_pressure new_optimizer"

definition number_of :: "IRFunction \<Rightarrow> int \<Rightarrow> int" where
  "number_of f = new_number (number_registers f)"

lemma compact_pass_eq:
  "pass_function reduce_register_pressure opt f =
     f\<lparr>instructions := map (rename_instruction (number_registers f)) (instructions f),
       debug_locals := map (rename_local (number_registers f)) (debug_locals f)\<rparr>"
  by (simp add: pass_function_def reduce_register_pressure_def Let_def)

lemma compact_pass_simps [simp]:
  "func_name (compact_pass P f) = func_name f" "parameters (compact_pass P f) = parameters f"
  "instructions (compact_pass P f) = map (rename_instruction (number_registers f)) (instructions f)"
  by (simp_all add: compact_pass_def compact_pass_eq)

lemmas number_facts = number_registers_facts[folded number_of_def]

lemma used_operand: "p < length (instructions f) \<Longrightarrow> Reg r \<in> set (operands (instructions f ! p)) \<Longrightarrow> r \<in> used_registers f"
  by (auto simp: used_registers_def)

lemma operand_known:
  "p < length (instructions f) \<Longrightarrow>
     \<forall>r. Reg r \<in> set (operands (instructions f ! p)) \<longrightarrow> map_of (number_registers f) r \<noteq> None"
  using used_operand number_facts(5) by blast

lemma compact_labels:
  assumes "verified P f"
  shows "collect_labels P (instructions (compact_pass P f)) = collect_labels P (instructions f)"
proof (rule collect_labels_cong)
  fix p assume p: "p < length (instructions f)" and
    "opcode (instructions f ! p) = OP_LABEL \<or> opcode (instructions (compact_pass P f) ! p) = OP_LABEL"
  then have l: "opcode (instructions f ! p) = OP_LABEL" by simp
  note ok = verified_operands[OF assms p]
  have "length (operands (instructions f ! p)) \<le> 1"
    using operands_okD(2)[OF ok refl] l by (simp add: signature_eval)
  then obtain a where "operands (instructions f ! p) = [Label a]"
    using label_operand_0[OF ok l] by (cases "operands (instructions f ! p)") (auto simp: is_label_iff)
  then show "instructions (compact_pass P f) ! p = instructions f ! p"
    using p by (simp add: rename_instruction_def rename_operand_def)
qed simp

definition renamed :: "IRProgram \<Rightarrow> IRFunction \<Rightarrow> ExecutionContext \<Rightarrow> ExecutionContext \<Rightarrow> bool" where
  "renamed P f c c' \<longleftrightarrow> run_inv P f c \<and> pc c' = pc c \<and> labels c' = labels c \<and>
     (\<forall>r \<in> used_registers f. registers c' (number_of f r) = registers c r) \<and>
     returned c' = returned c \<and> (returned c \<longrightarrow> return_value c' = return_value c)"

lemma bind_args_outside: "r < int i \<or> int i + int (length ps) \<le> r \<Longrightarrow> bind_args i args ps regs r = regs r"
  by (induction i args ps regs rule: bind_args.induct) auto

lemma renamed_start:
  assumes "verified P f" "length (parameters f) \<le> length args"
  shows "renamed P f (start_context P f args) (start_context P (compact_pass P f) args)"
proof -
  let ?b = "bind_args 0 args (parameters f) Map.empty" and ?n = "length (parameters f)"
  have "?b (number_of f r) = ?b r" if u: "r \<in> used_registers f" for r
  proof (cases "number_of f r = r")
    case False
    then have "max 1 (int ?n) \<le> number_of f r" using number_facts(4)[OF u] by blast
    moreover have "r < 0 \<or> int ?n \<le> r" using False number_facts(2)[of r f] by linarith
    ultimately show ?thesis by (simp add: bind_args_outside)
  qed simp
  then show ?thesis using run_inv_start[OF assms] compact_labels[OF assms(1)]
    by (simp add: renamed_def start_context_def entry_context_def empty_context_def)
qed

lemma renamed_step:
  assumes v: "verified P f" and rel: "renamed P f c c'" and run: "running (instructions f) c"
    and st: "step call lm P (instructions f) (c, gs) = Inr (c1, gs1)"
    and nr: "opcode (instructions f ! pc c) \<noteq> OP_RETURN"
  shows "\<exists>c1'. step call lm P (instructions (compact_pass P f)) (c', gs) = Inr (c1', gs1) \<and> renamed P f c1 c1'"
proof -
  let ?i = "instructions f ! pc c" and ?is' = "instructions (compact_pass P f)" and ?g = "number_of f"
  let ?i' = "rename_instruction (number_registers f) ?i" and ?rd = "\<lambda>r. the (registers c r)"
  let ?rd' = "\<lambda>r. the (registers c' r)" and ?d = "ir_destination_register ?i"
  have inv: "run_inv P f c" and pc': "pc c' = pc c" and l': "labels c' = labels c" and nret: "\<not> returned c'"
    and regs: "\<And>r. r \<in> used_registers f \<Longrightarrow> registers c' (?g r) = registers c r"
    using rel run by (auto simp: renamed_def running_def)
  have p: "pc c < length (instructions f)" using run by (simp add: running_def)
  note ok = verified_operands[OF v p] and k = operand_known[OF p]
  have z: "new_number (number_registers f) 0 = 0" using number_facts(2)[of 0 f] by (simp add: number_of_def)
  have used: "\<And>r. Reg r \<in> set (operands ?i) \<Longrightarrow> r \<in> used_registers f" using used_operand[OF p] .
  have ok': "operands_ok ?i'"
  proof (rule rename_ok[OF ok k z nr])
    show "inj_on (new_number (number_registers f)) {r. Reg r \<in> set (operands ?i)}"
      by (rule inj_on_subset[OF number_facts(1)[of f, unfolded number_of_def]]) (use used in blast)
    show "\<forall>r. Reg r \<in> set (operands ?i) \<longrightarrow> 0 \<le> r" using register_range[OF v nth_mem[OF p]] by blast
  qed
  have i': "?is' ! pc c' = ?i'" using p pc' by simp
  have rd: "\<forall>r \<in> set (ir_collect_read_registers ?i). registers c r \<noteq> None \<and> r \<in> used_registers f"
    using run_inv_reads[OF v inv run nr] reads_are_operands[OF nr] used by blast
  have reads': "\<forall>r \<in> set (ir_collect_read_registers ?i'). registers c' r = Some (?rd' r)"
    using rd regs unfolding rename_reads[OF k z] by (auto simp: number_of_def)
  have view: "same_view ?i ?rd ?i' ?rd'"
  proof -
    have "?rd' (reg_index (operands ?i' ! j)) = ?rd (reg_index (operands ?i ! j))"
      if j: "j < length (operands ?i)" "is_register (operands ?i ! j)" for j
    proof -
      obtain r where r: "operands ?i ! j = Reg r" using j(2) by (auto simp: is_register_iff)
      then have "Reg r \<in> set (operands ?i)" using j(1) by (metis nth_mem)
      then show ?thesis using rename_nth[OF k j(1)] r regs[OF used] by (simp add: number_of_def)
    qed
    moreover have "operands ?i' ! j = operands ?i ! j" if "j < length (operands ?i)" "\<not> is_register (operands ?i ! j)" for j
      using rename_nth[OF k that(1)] that(2) by (cases "operands ?i ! j") (auto simp: is_register_def)
    ultimately show ?thesis by (auto simp: same_view_def)
  qed
  obtain w j where e: "instr_effect call lm P ?i ?rd gs = Inr (w, j, gs1)"
      and n: "next_pc (labels c) (pc c) j = Some (pc c1)"
      and c1: "c1 = c\<lparr>registers := write_register ?d w (registers c), pc := pc c1\<rparr>"
    using st unfolding run_inv_step_effect[OF v inv run nr] by (auto simp: res_simps take_effect_Inr)
  have e': "instr_effect call lm P ?i' ?rd' gs = Inr (w, j, gs1)" using view_effect[OF ok view] e by simp
  have lab: "labels c' = collect_labels P ?is'"
    using inv l' compact_labels[OF v] by (simp add: run_inv_def)
  let ?c1' = "c'\<lparr>registers := write_register (ir_destination_register ?i') w (registers c'), pc := pc c1\<rparr>"
  have "step call lm P ?is' (c', gs) = Inr (?c1', gs1)"
    using step_effect[of ?is' c' ?rd' P call lm gs] i' ok' nr reads' lab nret e' n pc' l'
    by (simp add: take_effect_def)
  moreover have "renamed P f c1 ?c1'"
  proof -
    have "write_register (ir_destination_register ?i') w (registers c') (?g r) = registers c1 r"
      if u: "r \<in> used_registers f" for r
    proof (cases w)
      case None
      then show ?thesis using regs[OF u] by (subst c1) (simp add: write_register_def)
    next
      case (Some x)
      then have d: "Reg ?d \<in> set (operands ?i)" using effect_destination(2)[OF ok e] by simp
      then have "ir_destination_register ?i' = ?g ?d"
        using register_range[OF v nth_mem[OF p], of ?d] rename_destination[OF k] by (auto simp: number_of_def)
      moreover have "?g r = ?g ?d \<longleftrightarrow> r = ?d" using number_facts(1) u used[OF d] by (auto dest: inj_onD)
      ultimately show ?thesis using regs[OF u] Some by (subst c1) (auto simp: write_register_def)
    qed
    moreover have "labels c1 = labels c" "returned c1 = returned c" by (subst c1, simp)+
    ultimately show ?thesis using run_inv_step[OF v inv run st] l' rel run
      by (auto simp: renamed_def running_def)
  qed
  ultimately show ?thesis by blast
qed

interpretation compact: preserving_pass compact_pass verified renamed
proof (unfold_locales, goal_cases)
  case (3 P f args)
  then show ?case by (rule renamed_start)
next
  case (4 P f c c' call lm gs c1 gs1)
  have r: "running (instructions (compact_pass P f)) c'" using 4(2,3) by (simp add: renamed_def running_def)
  show ?case
  proof (cases "opcode (instructions f ! pc c) = OP_RETURN")
    case True
    then have c1: "c1 = exec_return c" "gs1 = gs" using 4(4) step_return[OF True] by simp_all
    have pc': "pc c' = pc c" "pc c < length (instructions f)" using 4(2,3) by (simp_all add: renamed_def running_def)
    then have "step call lm P (instructions (compact_pass P f)) (c', gs) = Inr (exec_return c', gs)"
      using True by (intro step_return) simp
    moreover have "renamed P f (exec_return c) (exec_return c')"
    proof -
      have "0 \<in> used_registers f" by (simp add: used_registers_def)
      then have "registers c' 0 = registers c 0" using 4(2) number_facts(2)[of 0 f] by (auto simp: renamed_def)
      then show ?thesis using 4(2) by (auto simp: renamed_def exec_return_def run_inv_def running_def RETURN_REGISTER_def)
    qed
    ultimately show ?thesis using c1 r by blast
  next
    case False
    then show ?thesis using renamed_step[OF 4] r by blast
  qed
next
  case (5 P f c c')
  then show ?case by (auto simp: renamed_def running_def)
qed simp_all

end
