(* ===== verification/Licm.thy ===== *)
theory Licm
  imports Optimizer
begin

text \<open>
  Loop-invariant code motion (\<^verbatim>\<open>ir_optimizer.cpp\<close>): the loops it identifies, the tests an
  instruction passes to be hoisted and the rewrite. The analysis is looked up once per loop,
  where the code looks it up at each test of one; with a coherent cache the answers agree.
\<close>

section \<open>Loops\<close>

record LoopInfo =
  lp_header_idx :: nat
  lp_end_idx :: nat
  lp_header_label :: nat
  lp_end_label :: nat
  lp_back_edges :: "nat list"

text \<open>The label of the first branch between the header and the back edge.\<close>

definition exit_label :: "IRInstruction list \<Rightarrow> nat \<Rightarrow> nat \<Rightarrow> nat" where
  "exit_label is header i =
     (case List.find (\<lambda>j. ir_has_effect (opcode (is ! j)) IR_BRANCH \<and> operands (is ! j) \<noteq> [] \<and>
             is_label (last (operands (is ! j)))) [header..<i] of
        Some j \<Rightarrow> string_id (last (operands (is ! j)))
      | None \<Rightarrow> INVALID_ID)"

fun add_back_edge :: "LoopInfo list \<Rightarrow> LoopInfo \<Rightarrow> nat \<Rightarrow> LoopInfo list" where
  "add_back_edge [] fresh i = [fresh]"
| "add_back_edge (loop # loops) fresh i =
     (if lp_header_idx loop = lp_header_idx fresh
      then loop\<lparr>lp_back_edges := lp_back_edges loop @ [i]\<rparr> # loops
      else loop # add_back_edge loops fresh i)"

definition loop_at :: "IRInstruction list \<Rightarrow> (nat \<Rightarrow> nat option) \<Rightarrow> nat \<Rightarrow> nat \<Rightarrow> nat \<Rightarrow> LoopInfo" where
  "loop_at is positions header target_label i =
     (let exit = exit_label is header i in
      \<lparr>lp_header_idx = header,
       lp_end_idx = (if exit \<noteq> INVALID_ID then (case positions exit of Some e \<Rightarrow> e | None \<Rightarrow> i + 1)
                     else i + 1),
       lp_header_label = target_label, lp_end_label = exit, lp_back_edges = [i]\<rparr>)"

definition scan_operand ::
  "IRInstruction list \<Rightarrow> (nat \<Rightarrow> nat option) \<Rightarrow> nat \<Rightarrow> LoopInfo list \<Rightarrow> IRValue \<Rightarrow> LoopInfo list" where
  "scan_operand is positions i loops v =
     (if \<not> is_label v then loops
      else case positions (string_id v) of
        None \<Rightarrow> loops
      | Some header \<Rightarrow>
          if header \<le> i then add_back_edge loops (loop_at is positions header (string_id v) i) i
          else loops)"

definition scan_instruction ::
  "IRInstruction list \<Rightarrow> (nat \<Rightarrow> nat option) \<Rightarrow> LoopInfo list \<Rightarrow> nat \<Rightarrow> LoopInfo list" where
  "scan_instruction is positions loops i =
     (if \<not> ir_is_control_flow (opcode (is ! i)) then loops
      else foldl (scan_operand is positions i) loops (operands (is ! i)))"

definition identify_loops :: "IROptimizer \<Rightarrow> IRFunction \<Rightarrow> LoopInfo list \<times> IROptimizer" where
  "identify_loops opt func =
     (let (an, opt1) = analysis opt func in
      (foldl (scan_instruction (instructions func) (an_label_index an)) []
         [0..<length (instructions func)], opt1))"

section \<open>Invariant instructions\<close>

abbreviation (input) ECALL_ARRAY_SIZE :: int where "ECALL_ARRAY_SIZE \<equiv> 523"
abbreviation (input) ECALL_DICTIONARY_OPS :: int where "ECALL_DICTIONARY_OPS \<equiv> 524"
abbreviation (input) ECALL_STRING_SIZE :: int where "ECALL_STRING_SIZE \<equiv> 528"

text \<open>\<open>Dictionary_Op\<close>: the queries.\<close>

abbreviation (input) DICT_GET :: int where "DICT_GET \<equiv> 0"
abbreviation (input) DICT_HAS :: int where "DICT_HAS \<equiv> 3"
abbreviation (input) DICT_GET_KEYS :: int where "DICT_GET_KEYS \<equiv> 4"
abbreviation (input) DICT_GET_VALUES :: int where "DICT_GET_VALUES \<equiv> 5"
abbreviation (input) DICT_GET_SIZE :: int where "DICT_GET_SIZE \<equiv> 6"

definition syscall_query :: "int list \<Rightarrow> IRInstruction \<Rightarrow> bool" where
  "syscall_query dict_ops instr =
     (opcode instr = OP_CALL_SYSCALL \<and> 2 \<le> length (operands instr) \<and> is_immediate (operand instr 1) \<and>
      (let number = sint (immediate (operand instr 1)) in
       number = ECALL_ARRAY_SIZE \<or> number = ECALL_STRING_SIZE \<or>
       (number = ECALL_DICTIONARY_OPS \<and> 3 \<le> length (operands instr) \<and>
        is_immediate (operand instr 2) \<and> sint (immediate (operand instr 2)) \<in> set dict_ops)))"

definition syscall_only_reads :: "IRInstruction \<Rightarrow> bool" where
  "syscall_only_reads instr =
     syscall_query [DICT_GET_SIZE, DICT_HAS, DICT_GET, DICT_GET_KEYS, DICT_GET_VALUES] instr"

definition syscall_is_hoistable_query :: "IRInstruction \<Rightarrow> bool" where
  "syscall_is_hoistable_query instr =
     (syscall_only_reads instr \<and> syscall_query [DICT_GET_SIZE, DICT_HAS] instr)"

definition loop_body :: "LoopInfo \<Rightarrow> IRFunction \<Rightarrow> nat list" where
  "loop_body loop func = [lp_header_idx loop..<min (lp_end_idx loop) (length (instructions func))]"

primrec all_res :: "('a \<Rightarrow> bool res) \<Rightarrow> 'a list \<Rightarrow> bool res" where
  "all_res f [] = Inr True"
| "all_res f (x # xs) = bind_res (f x) (\<lambda>b. if b then all_res f xs else Inr False)"

definition loop_only_reads_host :: "LoopInfo \<Rightarrow> IRFunction \<Rightarrow> bool res" where
  "loop_only_reads_host loop func = all_res (\<lambda>i.
     let instr = instructions func ! i in
     if ir_is_control_flow (opcode instr) \<or> opcode instr = OP_SCOPE_MARK \<or>
        opcode instr = OP_SCOPE_RELEASE \<or> syscall_only_reads instr
     then Inr True else ir_instruction_is_pure instr) (loop_body loop func)"

definition stores_global :: "int64 \<Rightarrow> IRInstruction \<Rightarrow> bool" where
  "stores_global global body =
     (ir_has_effect (opcode body) IR_CALL \<or>
      (opcode body = OP_STORE_GLOBAL \<and> 1 \<le> length (operands body) \<and>
       is_immediate (operand body 0) \<and> immediate (operand body 0) = global))"

definition is_loop_invariant ::
  "IRInstruction \<Rightarrow> LoopInfo \<Rightarrow> IRFunction \<Rightarrow> int list \<Rightarrow> bool \<Rightarrow> bool" where
  "is_loop_invariant instr loop func invariant_regs loop_reads_only =
     (let op = opcode instr in
      if loop_reads_only \<and> syscall_is_hoistable_query instr then
        list_all (\<lambda>v. is_register v \<longrightarrow> reg_index v \<in> set invariant_regs) (drop 2 (operands instr))
      else if op \<in> {OP_LOAD_IMM, OP_LOAD_FLOAT_IMM, OP_LOAD_BOOL, OP_LOAD_STRING} then True
      else if op = OP_LOAD_GLOBAL \<and> 2 \<le> length (operands instr) \<and> is_immediate (operand instr 1) then
        list_all (\<lambda>i. \<not> stores_global (immediate (operand instr 1)) (instructions func ! i))
          (loop_body loop func)
      else if op = OP_MOVE \<and> 2 \<le> length (operands instr) \<and> is_register (operand instr 1) then
        reg_index (operand instr 1) \<in> set invariant_regs
      else if op \<in> {OP_VGET_INLINE, OP_MAKE_VECTOR2, OP_MAKE_VECTOR3, OP_MAKE_VECTOR4,
          OP_MAKE_VECTOR2I, OP_MAKE_VECTOR3I, OP_MAKE_VECTOR4I} then
        list_all (\<lambda>j. ir_reads_operand instr j \<longrightarrow>
            reg_index (operands instr ! j) \<in> set invariant_regs) [0..<length (operands instr)]
      else False)"

definition is_unconditional_in_loop :: "(nat \<Rightarrow> nat option) \<Rightarrow> nat \<Rightarrow> LoopInfo \<Rightarrow> IRFunction \<Rightarrow> bool" where
  "is_unconditional_in_loop positions instr_idx loop func =
     list_all (\<lambda>i.
       let between = instructions func ! i in
       if ir_has_effect (opcode between) IR_LABEL \<or> ir_has_effect (opcode between) IR_TERMINATOR then False
       else if \<not> ir_has_effect (opcode between) IR_BRANCH then True
       else if operands between = [] \<or> \<not> is_label (last (operands between)) then False
       else case positions (string_id (last (operands between))) of
           None \<Rightarrow> False
         | Some target \<Rightarrow> target < lp_header_idx loop \<or> lp_end_idx loop \<le> target)
     [lp_header_idx loop + 1..<min instr_idx (length (instructions func))]"

definition can_safely_hoist ::
  "(nat \<Rightarrow> nat option) \<Rightarrow> IRInstruction \<Rightarrow> nat \<Rightarrow> LoopInfo \<Rightarrow> IRFunction \<Rightarrow> bool" where
  "can_safely_hoist positions instr instr_idx loop func =
     (let dst_reg = ir_destination_register instr; src_regs = set (ir_collect_read_registers instr) in
      0 \<le> dst_reg \<and>
      list_all (\<lambda>i.
        let loop_instr = instructions func ! i; modified_reg = ir_destination_register loop_instr in
        i = instr_idx \<or>
        \<not> (0 \<le> modified_reg \<and> modified_reg \<in> src_regs) \<and> modified_reg \<noteq> dst_reg \<and>
        \<not> (i < instr_idx \<and> reads_register loop_instr dst_reg)) (loop_body loop func) \<and>
      is_unconditional_in_loop positions instr_idx loop func)"

section \<open>Hoisting\<close>

record hoist_state =
  hs_instrs :: "nat list"
  hs_regs :: "int list"
  hs_changed :: bool

definition hoist_visit ::
  "(nat \<Rightarrow> nat option) \<Rightarrow> LoopInfo \<Rightarrow> IRFunction \<Rightarrow> bool \<Rightarrow> hoist_state \<Rightarrow> nat \<Rightarrow> hoist_state" where
  "hoist_visit positions loop func reads_only st i =
     (let instr = instructions func ! i in
      if i \<in> set (hs_instrs st) \<or> ir_is_control_flow (opcode instr) then st
      else if is_loop_invariant instr loop func (hs_regs st) reads_only \<and>
              can_safely_hoist positions instr i loop func then
        \<lparr>hs_instrs = i # hs_instrs st,
         hs_regs = (if 0 \<le> ir_destination_register instr
                    then List.insert (ir_destination_register instr) (hs_regs st) else hs_regs st),
         hs_changed = True\<rparr>
      else st)"

definition hoist_round ::
  "(nat \<Rightarrow> nat option) \<Rightarrow> LoopInfo \<Rightarrow> IRFunction \<Rightarrow> bool \<Rightarrow> hoist_state \<Rightarrow> hoist_state" where
  "hoist_round positions loop func reads_only st =
     foldl (hoist_visit positions loop func reads_only) (st\<lparr>hs_changed := False\<rparr>)
       [lp_header_idx loop + 1..<min (lp_end_idx loop) (length (instructions func))]"

definition seed_registers :: "LoopInfo \<Rightarrow> IRFunction \<Rightarrow> int list" where
  "seed_registers loop func =
     remdups (map int [0..<length (parameters func)] @
       filter (\<lambda>r. 0 \<le> r) (map (\<lambda>i. ir_destination_register (instructions func ! i))
         [0..<lp_header_idx loop]))"

definition invariant_instructions ::
  "(nat \<Rightarrow> nat option) \<Rightarrow> LoopInfo \<Rightarrow> IRFunction \<Rightarrow> bool \<Rightarrow> nat list res" where
  "invariant_instructions positions loop func reads_only =
     (case while_option hs_changed (hoist_round positions loop func reads_only)
             \<lparr>hs_instrs = [], hs_regs = seed_registers loop func, hs_changed = True\<rparr> of
        None \<Rightarrow> Inl Diverges
      | Some st \<Rightarrow> Inr (hs_instrs st))"

definition hoisted_code :: "LoopInfo \<Rightarrow> IRInstruction list \<Rightarrow> nat list \<Rightarrow> IRInstruction list" where
  "hoisted_code loop is invariant =
     (let moved = (\<lambda>i. lp_header_idx loop \<le> i \<and> i < lp_end_idx loop \<and> i \<in> set invariant);
          hoisted = map ((!) is) (filter moved [0..<length is]);
          remaining = map ((!) is) (filter (\<lambda>i. \<not> moved i) [0..<length is])
      in concat (map (\<lambda>x. if opcode x = OP_LABEL \<and> string_id (operand x 0) = lp_header_label loop
                          then hoisted @ [x] else [x]) remaining))"

definition nested_in :: "LoopInfo list \<Rightarrow> nat \<Rightarrow> bool" where
  "nested_in loops k =
     list_ex (\<lambda>j. j \<noteq> k \<and> lp_header_idx (loops ! j) < lp_header_idx (loops ! k) \<and>
       lp_header_idx (loops ! k) < lp_end_idx (loops ! j)) [0..<length loops]"

definition hoist_loop :: "LoopInfo list \<Rightarrow> nat \<Rightarrow> pass_result \<Rightarrow> pass_result res" where
  "hoist_loop loops k r =
     (let (opt, func, changed) = r; loop = loops ! k in
      if nested_in loops k then Inr r
      else bind_res (loop_only_reads_host loop func) (\<lambda>reads_only.
        let (an, opt1) = analysis opt func in
        bind_res (invariant_instructions (an_label_index an) loop func reads_only) (\<lambda>invariant.
          if invariant = [] then Inr (opt1, func, changed)
          else
            let (opt2, func', c) =
              replace_instructions opt1 func (hoisted_code loop (instructions func) invariant)
            in Inr (opt2, func', c \<or> changed))))"

primrec hoist_loops :: "LoopInfo list \<Rightarrow> nat list \<Rightarrow> pass_result \<Rightarrow> pass_result res" where
  "hoist_loops loops [] r = Inr r"
| "hoist_loops loops (k # ks) r = bind_res (hoist_loop loops k r) (hoist_loops loops ks)"

definition loop_invariant_code_motion :: "IROptimizer \<Rightarrow> IRFunction \<Rightarrow> pass_result res" where
  "loop_invariant_code_motion opt func =
     (let (loops, opt1) = identify_loops opt func in
      if loops = [] then Inr (opt1, func, False)
      else hoist_loops loops [0..<length loops] (opt1, func, False))"

end
