(* ===== verification/Licm_Sound.thy ===== *)
theory Licm_Sound
  imports Compact_Registers Licm
begin

text \<open>
  What loop-invariant code motion does to verified functions. A \<open>LABEL\<close> is control flow and
  names itself, so the scan for back edges registers every label first, as a loop of one
  instruction; nothing is ever inside such a loop, and the pass never moves anything.
\<close>

section \<open>The loops that are found\<close>

definition self_loop :: "IRInstruction list \<Rightarrow> LoopInfo \<Rightarrow> bool" where
  "self_loop is L \<longleftrightarrow> lp_end_idx L = Suc (lp_header_idx L) \<and> lp_header_idx L < length is \<and>
     opcode (is ! lp_header_idx L) = OP_LABEL"

lemma add_back_edge_headers:
  "lp_header_idx ` set (add_back_edge loops fresh i) = insert (lp_header_idx fresh) (lp_header_idx ` set loops)"
  by (induction loops fresh i rule: add_back_edge.induct) auto

lemma self_loop_back_edges [simp]: "self_loop is (L\<lparr>lp_back_edges := e\<rparr>) = self_loop is L"
  by (simp add: self_loop_def)

lemma add_back_edge_self:
  assumes "\<forall>L \<in> set loops. self_loop is L" "self_loop is fresh \<or> lp_header_idx fresh \<in> lp_header_idx ` set loops"
  shows "\<forall>L \<in> set (add_back_edge loops fresh i). self_loop is L"
  using assms
proof (induction loops)
  case (Cons L loops)
  show ?case
  proof (cases "lp_header_idx L = lp_header_idx fresh")
    case False
    then have "self_loop is fresh \<or> lp_header_idx fresh \<in> lp_header_idx ` set loops" using Cons.prems(2) by auto
    moreover have "\<forall>L \<in> set loops. self_loop is L" using Cons.prems(1) by (meson list.set_intros(2))
    ultimately have "\<forall>L \<in> set (add_back_edge loops fresh i). self_loop is L" by (intro Cons.IH)
    moreover have "self_loop is L" using Cons.prems(1) by (meson list.set_intros(1))
    ultimately show ?thesis using False by (simp only: add_back_edge.simps if_False list.set ball_simps)
  next
    case True
    then show ?thesis using Cons.prems(1) by (simp only: add_back_edge.simps simp_thms if_True list.set ball_simps self_loop_back_edges) blast
  qed
qed simp

definition loops_to :: "IRInstruction list \<Rightarrow> (nat \<Rightarrow> nat option) \<Rightarrow> nat \<Rightarrow> LoopInfo list \<Rightarrow> bool" where
  "loops_to is pos i loops \<longleftrightarrow> (\<forall>L \<in> set loops. self_loop is L) \<and>
     (\<forall>name h. pos name = Some h \<longrightarrow> h < i \<longrightarrow> h \<in> lp_header_idx ` set loops)"

definition points_at_labels :: "IRInstruction list \<Rightarrow> (nat \<Rightarrow> nat option) \<Rightarrow> bool" where
  "points_at_labels is pos \<longleftrightarrow> (\<forall>name h. pos name = Some h \<longrightarrow> h < length is \<and> opcode (is ! h) = OP_LABEL)"

lemma scan_operand_self:
  assumes "loops_to is pos i loops" and pos: "points_at_labels is pos"
  shows "loops_to is pos i (scan_operand is pos i loops v)"
    "lp_header_idx ` set loops \<subseteq> lp_header_idx ` set (scan_operand is pos i loops v)"
    "is_label v \<Longrightarrow> pos (string_id v) = Some i \<Longrightarrow> i \<in> lp_header_idx ` set (scan_operand is pos i loops v)"
proof -
  have l: "self_loop is (loop_at is pos h n i) \<or> lp_header_idx (loop_at is pos h n i) \<in> lp_header_idx ` set loops"
    if h: "pos (string_id v) = Some h" "h \<le> i" for h n
  proof (cases "h = i")
    case True
    then have "self_loop is (loop_at is pos h n i)"
      using pos h(1) by (simp add: points_at_labels_def self_loop_def loop_at_def exit_label_def Let_def)
    then show ?thesis ..
  next
    case False
    then have "h \<in> lp_header_idx ` set loops" using assms(1) h by (auto simp: loops_to_def)
    then show ?thesis by (simp add: loop_at_def Let_def)
  qed
  have s: "\<forall>L \<in> set loops. self_loop is L" using assms(1) by (simp add: loops_to_def)
  have e: "scan_operand is pos i loops v = loops \<or> (\<exists>h n. pos (string_id v) = Some h \<and> h \<le> i \<and>
      scan_operand is pos i loops v = add_back_edge loops (loop_at is pos h n i) i)"
    by (auto simp: scan_operand_def split: option.splits)
  show sub: "lp_header_idx ` set loops \<subseteq> lp_header_idx ` set (scan_operand is pos i loops v)"
    using e by (elim disjE exE conjE) (auto simp: add_back_edge_headers)
  have "\<forall>L \<in> set (scan_operand is pos i loops v). self_loop is L"
    using e
  proof (elim disjE exE conjE)
    fix h n assume "pos (string_id v) = Some h" "h \<le> i"
      "scan_operand is pos i loops v = add_back_edge loops (loop_at is pos h n i) i"
    then show ?thesis using add_back_edge_self[OF s l] by simp
  qed (use s in simp)
  then show "loops_to is pos i (scan_operand is pos i loops v)"
    using assms(1) sub unfolding loops_to_def by blast
  show "i \<in> lp_header_idx ` set (scan_operand is pos i loops v)" if "is_label v" "pos (string_id v) = Some i"
    using that by (auto simp: scan_operand_def add_back_edge_headers loop_at_def Let_def)
qed

lemma scan_operands_self:
  assumes "loops_to is pos i loops" and pos: "points_at_labels is pos"
  shows "loops_to is pos i (foldl (scan_operand is pos i) loops vs) \<and>
    lp_header_idx ` set loops \<subseteq> lp_header_idx ` set (foldl (scan_operand is pos i) loops vs)"
  using assms(1)
proof (induction vs arbitrary: loops)
  case (Cons v vs)
  note s = scan_operand_self(1,2)[OF Cons.prems pos, of v]
  have "loops_to is pos i (foldl (scan_operand is pos i) (scan_operand is pos i loops v) vs) \<and>
      lp_header_idx ` set (scan_operand is pos i loops v) \<subseteq>
      lp_header_idx ` set (foldl (scan_operand is pos i) (scan_operand is pos i loops v) vs)"
    by (rule Cons.IH[OF s(1)])
  then show ?case using s(2) unfolding foldl.simps by blast
qed simp

lemma label_control_flow: "ir_is_control_flow OP_LABEL"
  by (simp add: ir_is_control_flow_def)

lemma scan_instruction_self:
  assumes "loops_to is pos i loops" and pos: "points_at_labels is pos"
    and own: "\<And>name. pos name = Some i \<Longrightarrow> operands (is ! i) \<noteq> [] \<and> is_label (operands (is ! i) ! 0) \<and>
      string_id (operands (is ! i) ! 0) = name"
  shows "loops_to is pos (Suc i) (scan_instruction is pos loops i)"
proof -
  let ?r = "scan_instruction is pos loops i"
  have k: "loops_to is pos i ?r"
    using assms(1) scan_operands_self[OF assms(1) pos] by (simp add: scan_instruction_def)
  have "i \<in> lp_header_idx ` set ?r" if n: "pos name = Some i" for name
  proof -
    obtain v vs where v: "operands (is ! i) = v # vs" "is_label v" "string_id v = name"
      using own[OF n] by (cases "operands (is ! i)") auto
    have s: "i \<in> lp_header_idx ` set (scan_operand is pos i loops v)"
      using scan_operand_self(3)[OF assms(1) pos v(2)] n v(3) by simp
    have "?r = foldl (scan_operand is pos i) (scan_operand is pos i loops v) vs"
      using pos n v(1) label_control_flow by (simp add: points_at_labels_def scan_instruction_def)
    then show ?thesis using scan_operands_self[OF scan_operand_self(1)[OF assms(1) pos, of v] pos, of vs] s by auto
  qed
  then show ?thesis using k by (auto simp: loops_to_def less_Suc_eq)
qed

lemma identify_loops_self:
  assumes v: "verified P f" and c: "coherent opt f"
  shows "\<forall>L \<in> set (fst (identify_loops opt f)). self_loop (instructions f) L"
proof -
  let ?is = "instructions f" and ?pos = "label_positions 0 (instructions f) Map.empty"
  have at: "h < length ?is \<and> opcode (?is ! h) = OP_LABEL \<and> operands (?is ! h) \<noteq> [] \<and>
      is_label (operands (?is ! h) ! 0) \<and> string_id (operands (?is ! h) ! 0) = name"
    if "?pos name = Some h" for name h
    using label_positions_Some[OF that] label_operand_0[OF verified_operands[OF v, of h]] by auto
  then have pos: "points_at_labels ?is ?pos" by (simp add: points_at_labels_def)
  have "loops_to ?is ?pos n (foldl (scan_instruction ?is ?pos) [] [0..<n])" for n
  proof (induction n)
    case 0
    then show ?case by (simp add: loops_to_def)
  next
    case (Suc n)
    show ?case using scan_instruction_self[OF Suc pos] at by simp
  qed
  then have "\<forall>L \<in> set (foldl (scan_instruction ?is ?pos) [] [0..<length ?is]). self_loop ?is L"
    by (simp add: loops_to_def)
  moreover have "an_label_index (fst (analysis opt f)) = ?pos"
    using analysis_coherent[OF c] by (simp add: build_analysis_def Let_def)
  ultimately show ?thesis by (simp add: identify_loops_def split_def)
qed

lemma coherent_analysis: "coherent opt f \<Longrightarrow> coherent (snd (analysis opt f)) f"
  by (auto simp: analysis_def coherent_def)

lemma enabled_analysis: "m_enabled_passes (snd (analysis opt f)) = m_enabled_passes opt"
  by (simp add: analysis_def)

lemma hoist_self_loop:
  assumes "self_loop (instructions f) (loops ! k)" "coherent opt f"
  shows "\<exists>opt'. hoist_loop loops k (opt, f, b) = Inr (opt', f, b) \<and> coherent opt' f \<and> m_enabled_passes opt' = m_enabled_passes opt"
proof -
  let ?L = "loops ! k"
  have body: "loop_body ?L f = [lp_header_idx ?L]" and op: "opcode (instructions f ! lp_header_idx ?L) = OP_LABEL"
    using assms by (auto simp: self_loop_def loop_body_def)
  have "loop_only_reads_host ?L f = Inr True"
    using op label_control_flow by (simp add: loop_only_reads_host_def body Let_def)
  moreover have "invariant_instructions pos ?L f True = Inr []" for pos
  proof -
    have "hoist_round pos ?L f True st = st\<lparr>hs_changed := False\<rparr>" for st
      using assms by (simp add: hoist_round_def self_loop_def)
    then show ?thesis by (simp add: invariant_instructions_def while_option_unfold)
  qed
  ultimately show ?thesis using assms(2) coherent_analysis[OF assms(2)] enabled_analysis[of opt f]
    by (cases "analysis opt f") (simp add: hoist_loop_def Let_def)
qed

lemma hoist_self_loops:
  "\<forall>k \<in> set ks. self_loop (instructions f) (loops ! k) \<Longrightarrow> coherent opt f \<Longrightarrow>
     \<exists>opt'. hoist_loops loops ks (opt, f, b) = Inr (opt', f, b) \<and> coherent opt' f \<and> m_enabled_passes opt' = m_enabled_passes opt"
proof (induction ks arbitrary: opt)
  case (Cons k ks)
  obtain opt1 where "hoist_loop loops k (opt, f, b) = Inr (opt1, f, b)" "coherent opt1 f"
      "m_enabled_passes opt1 = m_enabled_passes opt"
    using hoist_self_loop[of f loops k opt b] Cons.prems by auto
  then show ?case using Cons.IH[of opt1] Cons.prems by simp
qed simp

lemma licm_result:
  assumes "verified P f" "coherent opt f"
  shows "\<exists>opt'. loop_invariant_code_motion opt f = Inr (opt', f, False) \<and> coherent opt' f \<and>
    m_enabled_passes opt' = m_enabled_passes opt"
proof -
  obtain loops opt1 where l: "identify_loops opt f = (loops, opt1)" by fastforce
  have "\<forall>k \<in> set [0..<length loops]. self_loop (instructions f) (loops ! k)"
    using identify_loops_self[OF assms] l by simp
  moreover have "coherent opt1 f" "m_enabled_passes opt1 = m_enabled_passes opt"
    using coherent_analysis[OF assms(2)] enabled_analysis[of opt f] l by (auto simp: identify_loops_def Let_def split: prod.splits)
  ultimately show ?thesis using hoist_self_loops[of _ f loops opt1 False] l
    by (auto simp: loop_invariant_code_motion_def)
qed

end
