(* ===== verification/Constant_Folding.thy ===== *)
theory Constant_Folding
  imports Optimizer
begin

text \<open>
  Constant folding (\<^verbatim>\<open>ir_optimizer.cpp\<close>, \<open>constant_folding\<close> and what it calls): a forward
  analysis of the constants registers hold, over the shared blocks, and a rewrite with the
  same transfer function. The number of block visits is capped, as in the code, so the
  analysis is total; the cap's size is the code's.
\<close>

section \<open>Constants\<close>

datatype ConstantType = CV_NONE | CV_INT | CV_FLOAT | CV_BOOL | CV_STRING

text \<open>A field that the type does not select keeps its initial value.\<close>

record ConstantValue =
  cv_type :: ConstantType
  cv_int_value :: int64
  cv_float_value :: double
  cv_bool_value :: bool
  cv_string_value :: string

definition no_constant :: ConstantValue where
  "no_constant = \<lparr>cv_type = CV_NONE, cv_int_value = 0, cv_float_value = D_0, cv_bool_value = False,
     cv_string_value = []\<rparr>"

definition int_constant :: "int64 \<Rightarrow> ConstantValue" where
  "int_constant i = no_constant\<lparr>cv_type := CV_INT, cv_int_value := i\<rparr>"

definition float_constant :: "double \<Rightarrow> ConstantValue" where
  "float_constant d = no_constant\<lparr>cv_type := CV_FLOAT, cv_float_value := d\<rparr>"

definition bool_constant :: "bool \<Rightarrow> ConstantValue" where
  "bool_constant b = no_constant\<lparr>cv_type := CV_BOOL, cv_bool_value := b\<rparr>"

definition same_as :: "ConstantValue \<Rightarrow> ConstantValue \<Rightarrow> bool" where
  "same_as a b = (cv_type a = cv_type b \<and> (case cv_type a of
     CV_NONE \<Rightarrow> True
   | CV_INT \<Rightarrow> cv_int_value a = cv_int_value b
   | CV_BOOL \<Rightarrow> cv_bool_value a = cv_bool_value b
   | CV_STRING \<Rightarrow> cv_string_value a = cv_string_value b
   | CV_FLOAT \<Rightarrow> dbl_bits (cv_float_value a) = dbl_bits (cv_float_value b)))"

definition truthiness :: "ConstantValue \<Rightarrow> bool option" where
  "truthiness c = (case cv_type c of
     CV_INT \<Rightarrow> Some (cv_int_value c \<noteq> 0)
   | CV_BOOL \<Rightarrow> Some (cv_bool_value c)
   | CV_FLOAT \<Rightarrow> Some (\<not> feq (cv_float_value c) D_0)
   | _ \<Rightarrow> None)"

type_synonym ConstantMap = "(int \<times> ConstantValue) list"

definition meet_constants :: "ConstantMap \<Rightarrow> ConstantMap \<Rightarrow> ConstantMap \<times> bool" where
  "meet_constants into from =
     (let kept = filter (\<lambda>(r, c). case map_of from r of None \<Rightarrow> False | Some c' \<Rightarrow> same_as c c') into
      in (kept, length kept \<noteq> length into))"

section \<open>Folding an operator\<close>

definition fold_float_op :: "IROpcode \<Rightarrow> double \<Rightarrow> double \<Rightarrow> ConstantValue option" where
  "fold_float_op op l r =
     (if op = OP_ADD then Some (float_constant (fadd l r))
      else if op = OP_SUB then Some (float_constant (fsub l r))
      else if op = OP_MUL then Some (float_constant (fmul l r))
      else if op = OP_DIV then (if feq r D_0 then None else Some (float_constant (fdiv l r)))
      else (if feq r D_0 then None else Some (float_constant (fmod l r))))"

definition fold_int_op :: "IROpcode \<Rightarrow> int64 \<Rightarrow> int64 \<Rightarrow> ConstantValue option" where
  "fold_int_op op l r =
     (if op = OP_ADD then Some (int_constant (l + r))
      else if op = OP_SUB then Some (int_constant (l - r))
      else if op = OP_MUL then Some (int_constant (l * r))
      else if op = OP_DIV then
        (if r = 0 \<or> r = - 1 \<and> l = INT64_MIN then None else Some (int_constant (sdiv64 l r)))
      else if op = OP_MOD then
        (if r = 0 \<or> r = - 1 \<and> l = INT64_MIN then None else Some (int_constant (srem64 l r)))
      else if op = OP_BIT_AND then Some (int_constant (l AND r))
      else if op = OP_BIT_OR then Some (int_constant (l OR r))
      else if op = OP_BIT_XOR then Some (int_constant (l XOR r))
      else if op = OP_SHL then Some (int_constant (push_bit (unat (r AND 63)) l))
      else Some (int_constant (signed_drop_bit (unat (r AND 63)) l)))"

definition as_double :: "ConstantValue \<Rightarrow> double" where
  "as_double c = (if cv_type c = CV_FLOAT then cv_float_value c else of_int64 (cv_int_value c))"

definition fold_compare_op ::
  "IROpcode \<Rightarrow> ConstantValue \<Rightarrow> ConstantValue \<Rightarrow> ConstantValue option" where
  "fold_compare_op op lhs rhs =
     (if op \<notin> set COMPARE_OPS then None
      else if cv_type lhs = CV_FLOAT \<or> cv_type rhs = CV_FLOAT then
        Some (bool_constant (select_compare op feq flt fle (as_double lhs) (as_double rhs)))
      else
        Some (bool_constant (select_compare op (=) (<) (\<le>)
          (sint (cv_int_value lhs)) (sint (cv_int_value rhs)))))"

definition FLOAT_FOLDS :: "IROpcode list" where
  "FLOAT_FOLDS = [OP_ADD, OP_SUB, OP_MUL, OP_DIV, OP_MOD]"

definition INT_FOLDS :: "IROpcode list" where
  "INT_FOLDS = FLOAT_FOLDS @ [OP_BIT_AND, OP_BIT_OR, OP_BIT_XOR, OP_SHL, OP_SHR]"

definition try_fold_binary_op ::
  "IROpcode \<Rightarrow> TypeHint \<Rightarrow> ConstantValue \<Rightarrow> ConstantValue \<Rightarrow> ConstantValue option" where
  "try_fold_binary_op op hint lhs rhs =
     (let is_float_op = (hint = Variant_FLOAT \<or> cv_type lhs = CV_FLOAT \<or> cv_type rhs = CV_FLOAT) in
      if is_float_op \<and> op \<in> set FLOAT_FOLDS then fold_float_op op (as_double lhs) (as_double rhs)
      else if \<not> is_float_op \<and> cv_type lhs = CV_INT \<and> cv_type rhs = CV_INT \<and> op \<in> set INT_FOLDS
        then fold_int_op op (cv_int_value lhs) (cv_int_value rhs)
      else if cv_type lhs \<in> {CV_INT, CV_FLOAT} \<and> cv_type rhs \<in> {CV_INT, CV_FLOAT}
        then fold_compare_op op lhs rhs
      else None)"

section \<open>Folding an instruction\<close>

text \<open>
  The map after the instruction and what is emitted for it. The code runs the same
  function for the analysis, with the output dropped, and for the rewrite.
\<close>

type_synonym folded = "ConstantMap \<times> IRInstruction list"

definition load_int :: "int \<Rightarrow> int64 \<Rightarrow> IRInstruction" where
  "load_int dst i = (mk_instr OP_LOAD_IMM [Reg dst, Imm i])\<lparr>type_hint := Variant_INT\<rparr>"

definition load_float :: "int \<Rightarrow> double \<Rightarrow> IRInstruction" where
  "load_float dst d = (mk_instr OP_LOAD_FLOAT_IMM [Reg dst, FImm d])\<lparr>type_hint := Variant_FLOAT\<rparr>"

definition load_bool :: "int \<Rightarrow> bool \<Rightarrow> IRInstruction" where
  "load_bool dst b = mk_instr OP_LOAD_BOOL [Reg dst, Imm (if b then 1 else 0)]"

definition not_folded :: "ConstantMap \<Rightarrow> int \<Rightarrow> IRInstruction \<Rightarrow> folded" where
  "not_folded m dst instr = (AList.delete dst m, [instr])"

definition fold_load :: "ConstantMap \<Rightarrow> IRInstruction \<Rightarrow> folded" where
  "fold_load m instr =
     (let reg = reg_index (operand instr 0); v = operand instr 1 in
      (AList.update reg
         (if opcode instr = OP_LOAD_IMM then int_constant (immediate v)
          else if opcode instr = OP_LOAD_FLOAT_IMM then float_constant (float_number v)
          else bool_constant (immediate v \<noteq> 0)) m, [instr]))"

definition fold_move :: "ConstantMap \<Rightarrow> IRInstruction \<Rightarrow> folded" where
  "fold_move m instr =
     (let dst = reg_index (operand instr 0); src = reg_index (operand instr 1) in
      case map_of m src of
        Some c \<Rightarrow> (AList.update dst c m, [instr])
      | None \<Rightarrow> (AList.delete dst m, [instr]))"

text \<open>The conversions of a constant; the range test keeps the cast to an integer defined.\<close>

definition convert_constant :: "TypeHint \<Rightarrow> ConstantValue \<Rightarrow> ConstantValue res" where
  "convert_constant hint c =
     (if hint = Variant_FLOAT then
        (if cv_type c = CV_INT then Inr (float_constant (of_int64 (cv_int_value c)))
         else if cv_type c = CV_BOOL then Inr (float_constant (if cv_bool_value c then D_1 else D_0))
         else Inr no_constant)
      else if hint = Variant_INT then
        (if cv_type c = CV_BOOL then Inr (int_constant (if cv_bool_value c then 1 else 0))
         else if cv_type c = CV_FLOAT \<and> is_finite (cv_float_value c) \<and>
                 fle (of_int64 INT64_MIN) (cv_float_value c) \<and>
                 flt (cv_float_value c) (fneg (of_int64 INT64_MIN))
           then (case to_int64 (cv_float_value c) of
                   Some i \<Rightarrow> Inr (int_constant i) | None \<Rightarrow> undefined_behaviour)
         else Inr no_constant)
      else Inr no_constant)"

definition emit_constant :: "ConstantMap \<Rightarrow> int \<Rightarrow> IRInstruction \<Rightarrow> ConstantValue \<Rightarrow> folded" where
  "emit_constant m dst instr c =
     (if cv_type c = CV_FLOAT then (AList.update dst c m, [load_float dst (cv_float_value c)])
      else if cv_type c = CV_INT then (AList.update dst c m, [load_int dst (cv_int_value c)])
      else not_folded m dst instr)"

definition fold_convert :: "ConstantMap \<Rightarrow> IRInstruction \<Rightarrow> folded res" where
  "fold_convert m instr =
     (let dst = reg_index (operand instr 0); src = reg_index (operand instr 1) in
      case map_of m src of
        None \<Rightarrow> Inr (not_folded m dst instr)
      | Some c \<Rightarrow> bind_res (convert_constant (type_hint instr) c) (\<lambda>result.
          Inr (emit_constant m dst instr result)))"

text \<open>The shape test shared by the binary operators.\<close>

definition three_registers :: "IRInstruction \<Rightarrow> bool" where
  "three_registers instr =
     (3 \<le> length (operands instr) \<and> is_register (operand instr 0) \<and>
      is_register (operand instr 1) \<and> is_register (operand instr 2))"

definition keep_malformed :: "ConstantMap \<Rightarrow> IRInstruction \<Rightarrow> folded" where
  "keep_malformed m instr =
     (if operands instr \<noteq> [] \<and> is_register (operand instr 0)
      then (AList.delete (reg_index (operand instr 0)) m, [instr]) else (m, [instr]))"

definition fold_binary ::
  "ConstantMap \<Rightarrow> IRInstruction \<Rightarrow>
   (ConstantValue \<Rightarrow> ConstantValue \<Rightarrow> (ConstantValue \<times> IRInstruction) option) \<Rightarrow> folded" where
  "fold_binary m instr f =
     (if \<not> three_registers instr then keep_malformed m instr
      else
        (let dst = reg_index (operand instr 0) in
         case (map_of m (reg_index (operand instr 1)), map_of m (reg_index (operand instr 2))) of
           (Some lhs, Some rhs) \<Rightarrow>
             (case f lhs rhs of
                Some (c, load) \<Rightarrow> (AList.update dst c m, [load])
              | None \<Rightarrow> not_folded m dst instr)
         | _ \<Rightarrow> not_folded m dst instr))"

definition fold_arithmetic :: "ConstantMap \<Rightarrow> IRInstruction \<Rightarrow> folded" where
  "fold_arithmetic m instr = fold_binary m instr (\<lambda>lhs rhs.
     map_option (\<lambda>c. (c, if cv_type c = CV_FLOAT
         then load_float (reg_index (operand instr 0)) (cv_float_value c)
         else load_int (reg_index (operand instr 0)) (cv_int_value c)))
       (try_fold_binary_op (opcode instr) (type_hint instr) lhs rhs))"

definition fold_comparison :: "ConstantMap \<Rightarrow> IRInstruction \<Rightarrow> folded" where
  "fold_comparison m instr = fold_binary m instr (\<lambda>lhs rhs.
     map_option (\<lambda>c. (c, load_bool (reg_index (operand instr 0)) (cv_bool_value c)))
       (try_fold_binary_op (opcode instr) (type_hint instr) lhs rhs))"

definition fold_logic :: "ConstantMap \<Rightarrow> IRInstruction \<Rightarrow> folded" where
  "fold_logic m instr = fold_binary m instr (\<lambda>lhs rhs.
     if cv_type lhs = CV_BOOL \<and> cv_type rhs = CV_BOOL then
       (let b = (if opcode instr = OP_AND then cv_bool_value lhs \<and> cv_bool_value rhs
                 else cv_bool_value lhs \<or> cv_bool_value rhs)
        in Some (bool_constant b, load_bool (reg_index (operand instr 0)) b))
     else None)"

definition fold_neg :: "ConstantMap \<Rightarrow> IRInstruction \<Rightarrow> folded" where
  "fold_neg m instr =
     (let dst = reg_index (operand instr 0); src = reg_index (operand instr 1) in
      case map_of m src of
        None \<Rightarrow> not_folded m dst instr
      | Some c \<Rightarrow> emit_constant m dst instr
          (if cv_type c = CV_INT then int_constant (0 - cv_int_value c)
           else if cv_type c = CV_FLOAT then float_constant (fneg (cv_float_value c))
           else no_constant))"

definition fold_not :: "ConstantMap \<Rightarrow> IRInstruction \<Rightarrow> folded" where
  "fold_not m instr =
     (let dst = reg_index (operand instr 0); src = reg_index (operand instr 1) in
      case map_of m src of
        None \<Rightarrow> not_folded m dst instr
      | Some c \<Rightarrow> if cv_type c = CV_BOOL
          then (AList.update dst (bool_constant (\<not> cv_bool_value c)) m,
                [load_bool dst (\<not> cv_bool_value c)])
          else not_folded m dst instr)"

definition fold_branch :: "ConstantMap \<Rightarrow> IRInstruction \<Rightarrow> folded" where
  "fold_branch m instr =
     (if 2 \<le> length (operands instr) \<and> is_register (operand instr 0) then
        (case Option.bind (map_of m (reg_index (operand instr 0))) truthiness of
           Some truth \<Rightarrow>
             (let taken = (if opcode instr = OP_BRANCH_ZERO then \<not> truth else truth)
              in (m, if taken then [mk_instr OP_JUMP [operand instr 1]] else []))
         | None \<Rightarrow> (m, [instr]))
      else (m, [instr]))"

text \<open>The arguments of a call that folds, when every one of them is a known number.\<close>

definition int_argument :: "ConstantMap \<Rightarrow> int \<Rightarrow> int64 option" where
  "int_argument m reg = (case map_of m reg of
     None \<Rightarrow> None
   | Some c \<Rightarrow> (case cv_type c of CV_INT \<Rightarrow> Some (cv_int_value c)
        | CV_BOOL \<Rightarrow> Some (if cv_bool_value c then 1 else 0) | _ \<Rightarrow> None))"

definition float_argument :: "ConstantMap \<Rightarrow> int \<Rightarrow> double option" where
  "float_argument m reg = (case map_of m reg of
     None \<Rightarrow> None
   | Some c \<Rightarrow> (case cv_type c of CV_FLOAT \<Rightarrow> Some (cv_float_value c)
        | CV_INT \<Rightarrow> Some (of_int64 (cv_int_value c))
        | CV_BOOL \<Rightarrow> Some (if cv_bool_value c then D_1 else D_0) | _ \<Rightarrow> None))"

primrec all_known :: "('a \<Rightarrow> 'b option) \<Rightarrow> 'a list \<Rightarrow> 'b list option" where
  "all_known f [] = Some []"
| "all_known f (x # xs) = (case f x of None \<Rightarrow> None | Some y \<Rightarrow> map_option ((#) y) (all_known f xs))"

definition foldable_call :: "GlobalFunction \<Rightarrow> IRInstruction \<Rightarrow> bool" where
  "foldable_call info instr =
     (let count = unat (immediate (operand instr 3)) in
      \<not> gf_impure info \<and> count \<le> 3 \<and> length (operands instr) = 4 + count \<and>
      (gf_kind info = KIND_INT_OP \<or> gf_kind info = KIND_FLOAT_OP))"

definition fold_int_call ::
  "ConstantMap \<Rightarrow> IRInstruction \<Rightarrow> int \<Rightarrow> GlobalFunction \<Rightarrow> int64 list \<Rightarrow> folded res" where
  "fold_int_call m instr dst info args =
     bind_res (eval_global_int (gf_fn info) args) (\<lambda>i.
       Inr (if gf_result info = RESULT_BOOL
              then (AList.update dst (bool_constant (i \<noteq> 0)) m, [load_bool dst (i \<noteq> 0)])
            else if gf_result info = RESULT_INT
              then (AList.update dst (int_constant i) m, [load_int dst i])
            else not_folded m dst instr))"

definition fold_float_call ::
  "libm \<Rightarrow> ConstantMap \<Rightarrow> IRInstruction \<Rightarrow> int \<Rightarrow> GlobalFunction \<Rightarrow> double list \<Rightarrow> folded res" where
  "fold_float_call lm m instr dst info args =
     bind_res (eval_global_float lm (gf_fn info) args) (\<lambda>d.
       Inr (if gf_result info = RESULT_BOOL
              then (AList.update dst (bool_constant (\<not> feq d D_0)) m, [load_bool dst (\<not> feq d D_0)])
            else if gf_result info = RESULT_FLOAT
              then (AList.update dst (float_constant d) m, [load_float dst d])
            else not_folded m dst instr))"

definition fold_global_call :: "libm \<Rightarrow> ConstantMap \<Rightarrow> IRInstruction \<Rightarrow> folded res" where
  "fold_global_call lm m instr =
     (let dst = ir_destination_register instr in
      if 0 \<le> dst \<and> 4 \<le> length (operands instr) \<and> is_immediate (operand instr 1) then
        bind_res (global_function (global_fn_of (immediate (operand instr 1)))) (\<lambda>info.
          if \<not> foldable_call info instr then Inr (not_folded m dst instr)
          else
            let regs = map (\<lambda>i. reg_index (operand instr (4 + i)))
                         [0..<unat (immediate (operand instr 3))] in
            if gf_kind info = KIND_INT_OP then
              (case all_known (int_argument m) regs of
                 Some args \<Rightarrow> fold_int_call m instr dst info args
               | None \<Rightarrow> Inr (not_folded m dst instr))
            else
              (case all_known (float_argument m) regs of
                 Some args \<Rightarrow> fold_float_call lm m instr dst info args
               | None \<Rightarrow> Inr (not_folded m dst instr)))
      else Inr (not_folded m dst instr))"

definition KEPT_OPS :: "IROpcode list" where
  "KEPT_OPS = [OP_LABEL, OP_BREAKPOINT, OP_SCOPE_MARK, OP_SCOPE_RELEASE, OP_BRANCH_EQ, OP_BRANCH_GT,
     OP_BRANCH_GTE, OP_BRANCH_LT, OP_BRANCH_LTE, OP_BRANCH_NEQ, OP_ARRAY_SET, OP_DICT_SET,
     OP_DICT_SET_CONST, OP_DICT_SET_CONST_STR]"

text \<open>The opcodes whose operand 0 is invalidated, whether or not it is their destination.\<close>

definition OPERAND_0_OPS :: "IROpcode list" where
  "OPERAND_0_OPS = [OP_ARRAY_APPEND, OP_ARRAY_GET, OP_DICT_GET_CONST, OP_DICT_HAS_CONST,
     OP_STRUCT_CHECK, OP_PRINT, OP_VCALL, OP_VGET, OP_VSET, OP_VARIANT_SET, OP_CALL_SYSCALL,
     OP_GET_NODE, OP_LOAD_RESOURCE, OP_LOAD_RESOURCE_VAR, OP_MAKE_CALLABLE, OP_CONSTRUCT, OP_AWAIT,
     OP_CALL, OP_CALL_HOSTED]"

definition fold_instruction :: "libm \<Rightarrow> ConstantMap \<Rightarrow> IRInstruction \<Rightarrow> folded res" where
  "fold_instruction lm m instr =
     (let op = opcode instr in
      if op \<in> set KEPT_OPS then Inr (m, [instr])
      else if op \<in> {OP_LOAD_IMM, OP_LOAD_FLOAT_IMM, OP_LOAD_BOOL} then Inr (fold_load m instr)
      else if op \<in> {OP_LOAD_STRING, OP_LOAD_STRING_AS}
        then Inr (AList.delete (reg_index (operand instr 0)) m, [instr])
      else if op = OP_MOVE then Inr (fold_move m instr)
      else if op = OP_CONVERT then fold_convert m instr
      else if op \<in> set INT_FOLDS then Inr (fold_arithmetic m instr)
      else if op \<in> set COMPARE_OPS then Inr (fold_comparison m instr)
      else if op = OP_NEG then Inr (fold_neg m instr)
      else if op = OP_NOT then Inr (fold_not m instr)
      else if op = OP_AND \<or> op = OP_OR then Inr (fold_logic m instr)
      else if op = OP_BRANCH_ZERO \<or> op = OP_BRANCH_NOT_ZERO then Inr (fold_branch m instr)
      else if op = OP_GLOBAL_CALL then fold_global_call lm m instr
      else if op \<in> set OPERAND_0_OPS then
        Inr (if operands instr \<noteq> [] \<and> is_register (operand instr 0)
             then (AList.delete (reg_index (operand instr 0)) m, [instr]) else (m, [instr]))
      else
        Inr (if 0 \<le> ir_destination_register instr
             then (AList.delete (ir_destination_register instr) m, [instr]) else (m, [instr])))"

primrec fold_block :: "libm \<Rightarrow> ConstantMap \<Rightarrow> IRInstruction list \<Rightarrow> folded res" where
  "fold_block lm m [] = Inr (m, [])"
| "fold_block lm m (instr # rest) =
     bind_res (fold_instruction lm m instr) (\<lambda>(m1, out).
     bind_res (fold_block lm m1 rest) (\<lambda>(m2, out'). Inr (m2, out @ out')))"

section \<open>The pass\<close>

record const_flow =
  cf_entry :: "ConstantMap list"
  cf_initialized :: "bool list"
  cf_work :: "nat list"

definition const_visit :: "ConstantMap \<Rightarrow> const_flow \<Rightarrow> nat \<Rightarrow> const_flow" where
  "const_visit out fl s =
     (if \<not> cf_initialized fl ! s then
        \<lparr>cf_entry = (cf_entry fl)[s := out], cf_initialized = (cf_initialized fl)[s := True],
         cf_work = s # cf_work fl\<rparr>
      else
        let (kept, changed) = meet_constants (cf_entry fl ! s) out
        in fl\<lparr>cf_entry := (cf_entry fl)[s := kept],
              cf_work := (if changed then s # cf_work fl else cf_work fl)\<rparr>)"

definition const_step :: "libm \<Rightarrow> IRFunction \<Rightarrow> Block list \<Rightarrow> const_flow \<Rightarrow> const_flow res" where
  "const_step lm func blocks fl =
     (let index = hd (cf_work fl) in
      bind_res (fold_block lm (cf_entry fl ! index) (opt_block_code (instructions func) (blocks ! index)))
        (\<lambda>(out, _). Inr (foldl (const_visit out) (fl\<lparr>cf_work := tl (cf_work fl)\<rparr>)
           (blk_successors (blocks ! index)))))"

text \<open>The visits left; running out of them is the code's \<open>converged = false\<close>.\<close>

primrec const_solve ::
  "libm \<Rightarrow> IRFunction \<Rightarrow> Block list \<Rightarrow> nat \<Rightarrow> const_flow \<Rightarrow> (const_flow \<times> bool) res" where
  "const_solve lm func blocks 0 fl = Inr (fl, cf_work fl = [])"
| "const_solve lm func blocks (Suc n) fl =
     (if cf_work fl = [] then Inr (fl, True)
      else bind_res (const_step lm func blocks fl) (const_solve lm func blocks n))"

definition const_start :: "nat \<Rightarrow> const_flow" where
  "const_start count = \<lparr>cf_entry = replicate count [],
     cf_initialized = (replicate count False)[0 := True], cf_work = [0]\<rparr>"

definition const_entries :: "const_flow \<times> bool \<Rightarrow> nat \<Rightarrow> ConstantMap" where
  "const_entries r b =
     (let (fl, converged) = r in
      if \<not> cf_initialized fl ! b \<or> \<not> converged \<and> 1 \<le> b then [] else cf_entry fl ! b)"

primrec fold_blocks ::
  "libm \<Rightarrow> IRInstruction list \<Rightarrow> (nat \<Rightarrow> ConstantMap) \<Rightarrow> nat \<Rightarrow> Block list \<Rightarrow> IRInstruction list res"
where
  "fold_blocks lm is entry b [] = Inr []"
| "fold_blocks lm is entry b (blk # rest) =
     bind_res (fold_block lm (entry b) (opt_block_code is blk)) (\<lambda>(_, out).
     bind_res (fold_blocks lm is entry (Suc b) rest) (\<lambda>out'. Inr (out @ out')))"

definition constant_folding :: "libm \<Rightarrow> IROptimizer \<Rightarrow> IRFunction \<Rightarrow> pass_result res" where
  "constant_folding lm opt func =
     (let (an, opt1) = analysis opt func; blocks = an_blocks an in
      if blocks = [] then Inr (opt1, func, False)
      else
        bind_res (const_solve lm func blocks (length blocks * 16 + 1024) (const_start (length blocks)))
          (\<lambda>r. bind_res (fold_blocks lm (instructions func) (const_entries r) 0 blocks)
            (\<lambda>fresh. Inr (replace_instructions opt1 func fresh))))"

end
