(* ===== verification/Peephole.thy ===== *)
theory Peephole
  imports Optimizer
begin

text \<open>
  The peephole patterns (\<^verbatim>\<open>ir_optimizer.cpp\<close>, \<open>peephole_optimization\<close> and its patterns), each
  as a function of the body and an index, and the sweep that tries them in the code's order.
\<close>

text \<open>
  A pattern answers how many instructions beyond the first it consumed and what it
  appends, or nothing when it does not match.
\<close>

type_synonym peephole_match = "(nat \<times> IRInstruction list) option"

abbreviation (input) ins :: "IRFunction \<Rightarrow> nat \<Rightarrow> IRInstruction" where
  "ins func i \<equiv> instructions func ! i"

abbreviation (input) rg :: "IRInstruction \<Rightarrow> nat \<Rightarrow> int" where
  "rg instr j \<equiv> reg_index (operand instr j)"

definition set_operand :: "IRInstruction \<Rightarrow> nat \<Rightarrow> IRValue \<Rightarrow> IRInstruction" where
  "set_operand instr j v = instr\<lparr>operands := (operands instr)[j := v]\<rparr>"

section \<open>Compare and branch\<close>

definition fused_opcode :: "IROpcode \<Rightarrow> bool \<Rightarrow> IROpcode option" where
  "fused_opcode cmp invert =
     (if cmp = OP_CMP_EQ then Some (if invert then OP_BRANCH_NEQ else OP_BRANCH_EQ)
      else if cmp = OP_CMP_NEQ then Some (if invert then OP_BRANCH_EQ else OP_BRANCH_NEQ)
      else if cmp = OP_CMP_LT then Some (if invert then OP_BRANCH_GTE else OP_BRANCH_LT)
      else if cmp = OP_CMP_LTE then Some (if invert then OP_BRANCH_GT else OP_BRANCH_LTE)
      else if cmp = OP_CMP_GT then Some (if invert then OP_BRANCH_LTE else OP_BRANCH_GT)
      else if cmp = OP_CMP_GTE then Some (if invert then OP_BRANCH_LT else OP_BRANCH_GTE)
      else None)"

definition try_fuse_compare_and_branch :: "IRFunction \<Rightarrow> nat \<Rightarrow> peephole_match res" where
  "try_fuse_compare_and_branch func i =
     (if \<not> i + 1 < length (instructions func) then Inr None
      else
        let cmp = ins func i; br = ins func (i + 1) in
        if opcode cmp \<in> set COMPARE_OPS \<and> opcode br \<in> {OP_BRANCH_ZERO, OP_BRANCH_NOT_ZERO} \<and>
           3 \<le> length (operands cmp) \<and> 2 \<le> length (operands br) \<and>
           rg cmp 0 = rg br 0 \<and> \<not> is_reg_read_outside func (rg cmp 0) i (i + 1)
        then case fused_opcode (opcode cmp) (opcode br = OP_BRANCH_ZERO) of
            None \<Rightarrow> opt_error UnexpectedCompare
          | Some op \<Rightarrow> Inr (Some (1,
              [(mk_instr op [operand cmp 1, operand cmp 2, operand br 1])\<lparr>type_hint := type_hint cmp\<rparr>]))
        else Inr None)"

section \<open>Moves around an operation\<close>

text \<open>\<open>MOVE; MOVE; OP; MOVE\<close> as one operation on the sources.\<close>

definition try_move_move_op_move :: "IRFunction \<Rightarrow> nat \<Rightarrow> peephole_match" where
  "try_move_move_op_move func i =
     (if \<not> i + 3 < length (instructions func) then None
      else
        let move1 = ins func i; move2 = ins func (i + 1); op = ins func (i + 2);
            move3 = ins func (i + 3) in
        if opcode move2 = OP_MOVE \<and> ir_has_effect (opcode op) IR_ARITHMETIC \<and>
           opcode move3 = OP_MOVE \<and> 3 \<le> length (operands op) \<and>
           is_register (operand op 1) \<and> is_register (operand op 2) \<and>
           rg move1 0 = rg op 1 \<and> rg move2 0 = rg op 2 \<and> rg move3 1 = rg op 0 \<and>
           \<not> is_reg_read_outside func (rg move1 0) i (i + 3) \<and>
           \<not> is_reg_read_outside func (rg move2 0) i (i + 3) \<and>
           \<not> is_reg_read_outside func (rg op 0) i (i + 3) \<and>
           rg move2 0 \<noteq> rg move1 1 \<and> rg op 0 \<noteq> rg move1 1 \<and> rg op 0 \<noteq> rg move2 1
        then Some (3, [set_operand (set_operand (set_operand op 0 (Reg (rg move3 0)))
               1 (Reg (rg move1 1))) 2 (Reg (rg move2 1))])
        else None)"

text \<open>\<open>MOVE; OP; MOVE\<close>, the first move feeding operand \<open>k\<close> of the operation.\<close>

definition try_move_op_move :: "IRFunction \<Rightarrow> nat \<Rightarrow> nat \<Rightarrow> peephole_match" where
  "try_move_op_move func i k =
     (if \<not> i + 2 < length (instructions func) then None
      else
        let move1 = ins func i; op = ins func (i + 1); move2 = ins func (i + 2) in
        if ir_has_effect (opcode op) IR_ARITHMETIC \<and> opcode move2 = OP_MOVE \<and>
           3 \<le> length (operands op) \<and> is_register (operand op k) \<and>
           rg move1 0 = rg op k \<and> rg move2 1 = rg op 0 \<and>
           \<not> is_reg_read_outside func (rg move1 0) i (i + 2) \<and>
           \<not> is_reg_read_outside func (rg op 0) i (i + 2) \<and>
           rg op 0 \<noteq> rg move1 1
        then Some (2, [set_operand (set_operand op 0 (Reg (rg move2 0))) k (Reg (rg move1 1))])
        else None)"

text \<open>\<open>MOVE tmp, var; LOAD const; OP dst, tmp, const; MOVE var, dst\<close>.\<close>

definition try_move_load_op_move :: "IRFunction \<Rightarrow> nat \<Rightarrow> peephole_match" where
  "try_move_load_op_move func i =
     (if \<not> i + 3 < length (instructions func) then None
      else
        let move1 = ins func i; load = ins func (i + 1); op = ins func (i + 2);
            move2 = ins func (i + 3) in
        if opcode move1 = OP_MOVE \<and>
           (opcode load = OP_LOAD_IMM \<or> opcode load = OP_LOAD_FLOAT_IMM) \<and>
           ir_has_effect (opcode op) IR_ARITHMETIC \<and> opcode move2 = OP_MOVE \<and>
           3 \<le> length (operands op) \<and> is_register (operand op 1) \<and> is_register (operand op 2) \<and>
           rg move1 0 = rg op 1 \<and> rg load 0 = rg op 2 \<and>
           rg move1 1 = rg move2 0 \<and> rg move2 1 = rg op 0 \<and>
           \<not> is_reg_read_outside func (rg move1 0) i (i + 3) \<and>
           \<not> is_reg_read_outside func (rg op 0) i (i + 3)
        then Some (3, [load, set_operand (set_operand op 0 (Reg (rg move2 0))) 1 (Reg (rg move1 1))])
        else None)"

primrec first_match :: "peephole_match list \<Rightarrow> peephole_match" where
  "first_match [] = None"
| "first_match (x # xs) = (case x of Some y \<Rightarrow> Some y | None \<Rightarrow> first_match xs)"

definition try_eliminate_moves_around_op :: "IRFunction \<Rightarrow> nat \<Rightarrow> peephole_match" where
  "try_eliminate_moves_around_op func i =
     (if opcode (ins func i) \<noteq> OP_MOVE then None
      else if rg (ins func i) 0 = rg (ins func i) 1 then Some (0, [])
      else first_match [try_move_move_op_move func i, try_move_op_move func i 1,
        try_move_op_move func i 2, try_move_load_op_move func i])"

section \<open>The other patterns\<close>

definition try_eliminate_move_pair :: "IRFunction \<Rightarrow> nat \<Rightarrow> peephole_match" where
  "try_eliminate_move_pair func i =
     (if i + 1 < length (instructions func) then
        let move1 = ins func i; move2 = ins func (i + 1) in
        if opcode move1 = OP_MOVE \<and> opcode move2 = OP_MOVE \<and>
           rg move1 0 = rg move2 1 \<and> rg move1 1 = rg move2 0 \<and> rg move1 0 \<noteq> rg move1 1 \<and>
           \<not> is_reg_read_outside func (rg move1 0) i (i + 1)
        then Some (1, []) else None
      else None)"

definition try_fold_move_after_op :: "IRFunction \<Rightarrow> nat \<Rightarrow> peephole_match" where
  "try_fold_move_after_op func i =
     (if i + 1 < length (instructions func) then
        let op = ins func i; move = ins func (i + 1);
            dst_index = ir_destination_operand_index (opcode op); d = nat dst_index in
        if 0 \<le> dst_index \<and> \<not> ir_reads_operand op d \<and> opcode move = OP_MOVE \<and>
           d < length (operands op) \<and> is_register (operand op d) \<and> 2 \<le> length (operands move) \<and>
           rg move 0 \<notin> set (ir_collect_read_registers op) \<and> rg move 1 = rg op d \<and>
           \<not> is_reg_read_outside func (rg op d) i (i + 1)
        then Some (1, [set_operand op d (Reg (rg move 0))]) else None
      else None)"

text \<open>The last label operand names the target; the scan runs over labels only.\<close>

definition branch_target :: "IRInstruction \<Rightarrow> nat option" where
  "branch_target instr =
     (case filter is_label (operands instr) of [] \<Rightarrow> None | vs \<Rightarrow> Some (string_id (last vs)))"

fun target_follows :: "nat \<Rightarrow> IRInstruction list \<Rightarrow> bool" where
  "target_follows name [] = False"
| "target_follows name (next # rest) =
     (if \<not> ir_has_effect (opcode next) IR_LABEL then False
      else if operands next \<noteq> [] \<and> string_id (operand next 0) = name then True
      else target_follows name rest)"

definition try_remove_branch_to_next :: "IRFunction \<Rightarrow> nat \<Rightarrow> peephole_match" where
  "try_remove_branch_to_next func i =
     (let instr = ins func i in
      if opcode instr \<noteq> OP_JUMP \<and> \<not> ir_has_effect (opcode instr) IR_BRANCH then None
      else if opcode instr = OP_SWITCH then None
      else case branch_target instr of
        None \<Rightarrow> None
      | Some name \<Rightarrow>
          if target_follows name (drop (i + 1) (instructions func)) then Some (0, []) else None)"

section \<open>The pass\<close>

definition peephole_match_at :: "IRFunction \<Rightarrow> nat \<Rightarrow> peephole_match res" where
  "peephole_match_at func i =
     bind_res (try_fuse_compare_and_branch func i) (\<lambda>r. Inr (first_match
       [r, try_eliminate_moves_around_op func i, try_eliminate_move_pair func i,
        try_fold_move_after_op func i, try_remove_branch_to_next func i]))"

function peephole_from :: "IRFunction \<Rightarrow> nat \<Rightarrow> IRInstruction list res" where
  "peephole_from func i =
     (if i < length (instructions func) then
        bind_res (peephole_match_at func i) (\<lambda>r. case r of
            Some (extra, out) \<Rightarrow>
              bind_res (peephole_from func (i + Suc extra)) (\<lambda>rest. Inr (out @ rest))
          | None \<Rightarrow> bind_res (peephole_from func (i + 1)) (\<lambda>rest. Inr (ins func i # rest)))
      else Inr [])"
  by pat_completeness auto
termination by (relation "measure (\<lambda>(func, i). length (instructions func) - i)") auto

definition peephole_optimization :: "IROptimizer \<Rightarrow> IRFunction \<Rightarrow> pass_result res" where
  "peephole_optimization opt func =
     bind_res (peephole_from func 0) (\<lambda>fresh. Inr (replace_instructions opt func fresh))"

end
