(* ===== verification/Scalar_Replacement.thy ===== *)
theory Scalar_Replacement
  imports Optimizer
begin

text \<open>
  Replacement of struct dictionaries by one register per field (\<^verbatim>\<open>ir_optimizer.cpp\<close>,
  \<open>scalar_replace_structs\<close>): the two safety rules and the rewrite.
\<close>

section \<open>Candidates\<close>

text \<open>A keyed construction and its fields: the key's index and the register of its value.\<close>

definition struct_fields :: "IRInstruction \<Rightarrow> (int64 \<times> int) list" where
  "struct_fields mk =
     map (\<lambda>i. (immediate (operand mk (2 + i * 2)), reg_index (operand mk (3 + i * 2))))
       [0..<nat (sint (immediate (operand mk 1)))]"

definition is_struct_make :: "IRInstruction \<Rightarrow> bool" where
  "is_struct_make mk =
     (opcode mk = OP_MAKE_DICTIONARY_KEYED \<and> 2 \<le> length (operands mk) \<and>
      0 \<le> sint (immediate (operand mk 1)) \<and>
      int (length (operands mk)) = 2 + sint (immediate (operand mk 1)) * 2 \<and>
      reg_index (operand mk 0) \<noteq> 0)"

section \<open>Aliases across the whole function\<close>

definition alias_visit :: "int list \<times> bool \<Rightarrow> IRInstruction \<Rightarrow> int list \<times> bool" where
  "alias_visit st instr =
     (let (aliases, grew) = st in
      if opcode instr = OP_MOVE \<and> length (operands instr) = 2 \<and>
         reg_index (operand instr 1) \<in> set aliases \<and> reg_index (operand instr 0) \<notin> set aliases
      then (reg_index (operand instr 0) # aliases, True) else st)"

definition struct_aliases :: "IRInstruction list \<Rightarrow> int \<Rightarrow> int list res" where
  "struct_aliases is root =
     (case while_option snd (\<lambda>(aliases, _). foldl alias_visit (aliases, False) is) ([root], True) of
        None \<Rightarrow> Inl Diverges
      | Some (aliases, _) \<Rightarrow> Inr aliases)"

definition definition_count :: "IRFunction \<Rightarrow> int \<Rightarrow> nat" where
  "definition_count func alias =
     (if alias < int (length (parameters func)) then 1 else 0) +
     sum_list (map (\<lambda>instr. length (filter (\<lambda>j. ir_writes_operand instr j \<and>
         reg_index (operands instr ! j) = alias) [0..<length (operands instr)])) (instructions func))"

text \<open>A read of an alias that only copies it to another alias or takes a declared field.\<close>

definition harmless_read :: "int list \<Rightarrow> int64 list \<Rightarrow> IRInstruction \<Rightarrow> int \<Rightarrow> bool" where
  "harmless_read aliases keys instr reg =
     ((opcode instr = OP_MOVE \<and> length (operands instr) = 2 \<and> reg_index (operand instr 1) = reg \<and>
       reg_index (operand instr 0) \<in> set aliases) \<or>
      (opcode instr = OP_DICT_GET_CONST \<and> length (operands instr) = 3 \<and>
       reg_index (operand instr 1) = reg \<and> immediate (operand instr 2) \<in> set keys))"

definition immutable_safe :: "IRFunction \<Rightarrow> int list \<Rightarrow> int64 list \<Rightarrow> bool" where
  "immutable_safe func aliases keys =
     (RETURN_REGISTER \<notin> set aliases \<and>
      list_all (\<lambda>a. definition_count func a = 1) aliases \<and>
      list_all (\<lambda>instr. list_all (\<lambda>reg. reg \<in> set aliases \<longrightarrow> harmless_read aliases keys instr reg)
        (ir_collect_read_registers instr)) (instructions func))"

section \<open>Aliases in straight-line code\<close>

fun straight_line_safe :: "int64 list \<Rightarrow> int list \<Rightarrow> IRInstruction list \<Rightarrow> bool" where
  "straight_line_safe keys aliases [] = True"
| "straight_line_safe keys aliases (instr # rest) =
     (let op = opcode instr; reads = ir_collect_read_registers instr;
          reads_alias = list_ex (\<lambda>reg. reg \<in> set aliases) reads in
      if ir_is_control_flow op then
        (if op = OP_RETURN \<and> \<not> reads_alias then straight_line_safe keys aliases rest else False)
      else if op = OP_MOVE \<and> reg_index (operand instr 1) \<in> set aliases then
        (if reg_index (operand instr 0) = RETURN_REGISTER then False
         else straight_line_safe keys (List.insert (reg_index (operand instr 0)) aliases) rest)
      else if op = OP_DICT_GET_CONST \<and> reg_index (operand instr 1) \<in> set aliases \<and>
              immediate (operand instr 2) \<in> set keys then straight_line_safe keys aliases rest
      else if op = OP_DICT_SET_CONST \<and> reg_index (operand instr 0) \<in> set aliases \<and>
              immediate (operand instr 1) \<in> set keys then straight_line_safe keys aliases rest
      else if reads_alias then False
      else if list_ex (\<lambda>j. ir_writes_operand instr j \<and> reg_index (operands instr ! j) \<in> set aliases)
                [0..<length (operands instr)] then False
      else straight_line_safe keys aliases rest)"

section \<open>The rewrite\<close>

definition first_free_register :: "IRFunction \<Rightarrow> int" where
  "first_free_register func =
     foldl (\<lambda>m v. case v of Reg r \<Rightarrow> max m (r + 1) | _ \<Rightarrow> m) (max_registers func)
       (concat (map operands (instructions func)))"

text \<open>One snapshot register per field; a repeated key is read from its last snapshot.\<close>

definition snapshot_fields :: "int \<Rightarrow> (int64 \<times> int) list \<Rightarrow> (int64 \<times> int) list" where
  "snapshot_fields next_register flds =
     fold (\<lambda>(k, (key, _)). AList.update key (next_register + int k)) (enumerate 0 flds) []"

definition snapshot_moves :: "IRInstruction \<Rightarrow> int \<Rightarrow> (int64 \<times> int) list \<Rightarrow> IRInstruction list" where
  "snapshot_moves mk next_register flds =
     map (\<lambda>(k, (_, source)). (mk_instr OP_MOVE [Reg (next_register + int k), Reg source])\<lparr>line := line mk\<rparr>)
       (enumerate 0 flds)"

text \<open>\<open>fields.at\<close> throws for a key that is not declared.\<close>

definition field_register :: "(int64 \<times> int) list \<Rightarrow> int64 \<Rightarrow> int res" where
  "field_register flds key =
     (case map_of flds key of Some r \<Rightarrow> Inr r | None \<Rightarrow> Inl (StdException OutOfRange))"

fun replace_uses ::
  "bool \<Rightarrow> (int64 \<times> int) list \<Rightarrow> int list \<Rightarrow> IRInstruction list \<Rightarrow> IRInstruction list res" where
  "replace_uses immutable flds aliases [] = Inr []"
| "replace_uses immutable flds aliases (instr # rest) =
     (if opcode instr = OP_MOVE \<and> reg_index (operand instr 1) \<in> set aliases then
        replace_uses immutable flds
          (if immutable then aliases else List.insert (reg_index (operand instr 0)) aliases) rest
      else if opcode instr = OP_DICT_GET_CONST \<and> reg_index (operand instr 1) \<in> set aliases then
        bind_res (field_register flds (immediate (operand instr 2))) (\<lambda>r.
        bind_res (replace_uses immutable flds aliases rest) (\<lambda>out.
          Inr ((mk_instr OP_MOVE [operand instr 0, Reg r])\<lparr>type_hint := type_hint instr,
            line := line instr\<rparr> # out)))
      else if opcode instr = OP_DICT_SET_CONST \<and> reg_index (operand instr 0) \<in> set aliases then
        bind_res (field_register flds (immediate (operand instr 1))) (\<lambda>r.
        bind_res (replace_uses immutable flds aliases rest) (\<lambda>out.
          Inr ((mk_instr OP_MOVE [Reg r, operand instr 2])\<lparr>line := line instr\<rparr> # out)))
      else bind_res (replace_uses immutable flds aliases rest) (\<lambda>out. Inr (instr # out)))"

definition replace_struct ::
  "IROptimizer \<Rightarrow> IRFunction \<Rightarrow> nat \<Rightarrow> bool \<Rightarrow> int list \<Rightarrow> (IROptimizer \<times> IRFunction) res" where
  "replace_struct opt func make_at immutable aliases =
     (let is = instructions func; mk = is ! make_at; flds = struct_fields mk;
          next_register = first_free_register func in
      bind_res (replace_uses immutable (snapshot_fields next_register flds)
          (if immutable then aliases else [reg_index (operand mk 0)]) (drop (make_at + 1) is))
        (\<lambda>uses.
          let (opt1, func1, _) =
            replace_instructions opt
              (func\<lparr>max_registers := max (max_registers func) (next_register + int (length flds))\<rparr>)
              (take make_at is @ snapshot_moves mk next_register flds @ uses)
          in Inr (opt1, func1)))"

text \<open>The first construction that may be replaced, with the rule that allows it.\<close>

definition replaceable :: "IRFunction \<Rightarrow> nat \<Rightarrow> (bool \<times> int list) option res" where
  "replaceable func make_at =
     (let is = instructions func; mk = is ! make_at; root = reg_index (operand mk 0);
          keys = map fst (struct_fields mk) in
      if \<not> is_struct_make mk then Inr None
      else bind_res (struct_aliases is root) (\<lambda>aliases.
        if immutable_safe func aliases keys then Inr (Some (True, aliases))
        else if straight_line_safe keys [root] (drop (make_at + 1) is) then Inr (Some (False, aliases))
        else Inr None))"

primrec find_replaceable :: "IRFunction \<Rightarrow> nat list \<Rightarrow> (nat \<times> bool \<times> int list) option res" where
  "find_replaceable func [] = Inr None"
| "find_replaceable func (i # rest) = bind_res (replaceable func i) (\<lambda>r. case r of
      Some (immutable, aliases) \<Rightarrow> Inr (Some (i, immutable, aliases))
    | None \<Rightarrow> find_replaceable func rest)"

text \<open>
  The outer loop. Each round removes one keyed construction, so as many rounds as there are
  constructions, and one that finds nothing, are enough.
\<close>

primrec replace_structs ::
  "nat \<Rightarrow> IROptimizer \<Rightarrow> IRFunction \<Rightarrow> bool \<Rightarrow> pass_result res" where
  "replace_structs 0 opt func changed = Inl Diverges"
| "replace_structs (Suc n) opt func changed =
     bind_res (find_replaceable func [0..<length (instructions func)]) (\<lambda>r. case r of
        None \<Rightarrow> Inr (opt, func, changed)
      | Some (make_at, immutable, aliases) \<Rightarrow>
          bind_res (replace_struct opt func make_at immutable aliases) (\<lambda>(opt1, func1).
            replace_structs n opt1 func1 True))"

definition make_count :: "IRInstruction list \<Rightarrow> nat" where
  "make_count is = length (filter (\<lambda>x. opcode x = OP_MAKE_DICTIONARY_KEYED) is)"

definition scalar_replace_structs :: "IROptimizer \<Rightarrow> IRFunction \<Rightarrow> pass_result res" where
  "scalar_replace_structs opt func =
     replace_structs (Suc (make_count (instructions func))) opt func False"

end
