(* ===== verification/Pipeline.thy ===== *)
theory Pipeline
  imports Constant_Folding Peephole Dead_Code Licm Scalar_Replacement
begin

text \<open>
  The pass pipeline (\<^verbatim>\<open>ir_optimizer.cpp\<close>): which passes run, in which order, what is
  skipped because it is settled, and the verification between passes.
\<close>

section \<open>Choosing passes\<close>

type_synonym ir_pass = "string \<times> (IROptimizer \<Rightarrow> IRFunction \<Rightarrow> pass_result res)"

definition pipeline :: "libm \<Rightarrow> ir_pass list" where
  "pipeline lm =
     [(''constant-folding'', constant_folding lm),
      (''unreachable-code'', eliminate_unreachable_code),
      (''copy-propagation'', copy_propagation),
      (''enhanced-copy-propagation'', enhanced_copy_propagation),
      (''scalar-replacement'', scalar_replace_structs),
      (''licm'', loop_invariant_code_motion),
      (''peephole'', peephole_optimization),
      (''peephole'', peephole_optimization),
      (''redundant-stores'', eliminate_redundant_stores),
      (''peephole'', peephole_optimization),
      (''dead-code'', eliminate_dead_code),
      (''compact-registers'', reduce_register_pressure),
      (''scope-marks'', tighten_scope_marks)]"

definition PASS_NAMES :: "string list" where
  "PASS_NAMES = [''constant-folding'', ''unreachable-code'', ''copy-propagation'',
     ''enhanced-copy-propagation'', ''scalar-replacement'', ''licm'', ''peephole'', ''peephole'',
     ''redundant-stores'', ''peephole'', ''dead-code'', ''compact-registers'', ''scope-marks'']"

text \<open>The set of enabled passes; the empty name in it makes it mean no pass, not every pass.\<close>

primrec collect_passes :: "string list \<Rightarrow> string list \<Rightarrow> string list res" where
  "collect_passes [] chosen = Inr (List.insert '''' chosen)"
| "collect_passes (name # names) chosen =
     (if name = ''all'' then Inr []
      else if name = ''none'' then collect_passes names chosen
      else if name \<notin> set PASS_NAMES then opt_error UnknownPass
      else collect_passes names (List.insert name chosen))"

definition set_enabled_passes :: "IROptimizer \<Rightarrow> string list \<Rightarrow> IROptimizer res" where
  "set_enabled_passes opt names =
     bind_res (collect_passes names []) (\<lambda>chosen. Inr (opt\<lparr>m_enabled_passes := chosen\<rparr>))"

definition disable_all_passes :: "IROptimizer \<Rightarrow> IROptimizer res" where
  "disable_all_passes opt = set_enabled_passes opt [''none'']"

definition is_pass_enabled :: "IROptimizer \<Rightarrow> string \<Rightarrow> bool" where
  "is_pass_enabled opt name =
     (m_enabled_passes opt = [] \<or> name \<in> set (m_enabled_passes opt))"

text \<open>The comma-separated list of the environment; blanks are dropped.\<close>

fun split_passes :: "string \<Rightarrow> string \<Rightarrow> string list" where
  "split_passes [] current = (if current = [] then [] else [current])"
| "split_passes (c # cs) current =
     (if c = CHR '','' then (if current = [] then [] else [current]) @ split_passes cs []
      else if c = CHR '' '' \<or> c = CHR 0x09 then split_passes cs current
      else split_passes cs (current @ [c]))"

definition construct_optimizer :: "string option \<Rightarrow> IROptimizer res" where
  "construct_optimizer env = (case env of
     None \<Rightarrow> Inr new_optimizer
   | Some text \<Rightarrow>
       let names = split_passes text [] in
       set_enabled_passes new_optimizer (if names = [] then [''none''] else names))"

section \<open>Running them\<close>

definition verify_if :: "bool \<Rightarrow> IRStringTable option \<Rightarrow> IRFunction \<Rightarrow> unit res" where
  "verify_if verify t func = (if verify then ir_verify t func else Inr ())"

primrec run_passes ::
  "bool \<Rightarrow> IRStringTable option \<Rightarrow> ir_pass list \<Rightarrow> IROptimizer \<Rightarrow> IRFunction \<Rightarrow> string list \<Rightarrow>
   (IROptimizer \<times> IRFunction) res" where
  "run_passes verify t [] opt func settled = Inr (opt, func)"
| "run_passes verify t (p # ps) opt func settled =
     (if \<not> is_pass_enabled opt (fst p) \<or> fst p \<in> set settled
      then run_passes verify t ps opt func settled
      else bind_res (snd p opt func) (\<lambda>(opt1, func1, changed).
        bind_res (verify_if verify t func1) (\<lambda>_.
          run_passes verify t ps opt1 func1 (if changed then [] else settled @ [fst p]))))"

definition count_registers :: "IRFunction \<Rightarrow> IRFunction" where
  "count_registers func =
     (let max_reg = foldl (\<lambda>m v. case v of Reg r \<Rightarrow> max m r | _ \<Rightarrow> m) 0
            (concat (map operands (instructions func)))
      in func\<lparr>max_registers := max (max_reg + 1) (int (length (parameters func)))\<rparr>)"

definition optimize_function ::
  "libm \<Rightarrow> bool \<Rightarrow> IRStringTable option \<Rightarrow> IROptimizer \<Rightarrow> IRFunction \<Rightarrow> (IROptimizer \<times> IRFunction) res"
where
  "optimize_function lm verify t opt func =
     (let opt0 = invalidate_analysis opt in
      bind_res (verify_if verify t func) (\<lambda>_.
      bind_res (run_passes verify t (take (min (m_pass_limit opt) (length (pipeline lm))) (pipeline lm))
          opt0 func []) (\<lambda>(opt1, func1).
        let func2 = count_registers func1 in
        bind_res (verify_if verify t func2) (\<lambda>_. Inr (opt1, func2)))))"

primrec optimize_functions ::
  "libm \<Rightarrow> bool \<Rightarrow> IRStringTable option \<Rightarrow> IROptimizer \<Rightarrow> IRFunction list \<Rightarrow>
   (IROptimizer \<times> IRFunction list) res" where
  "optimize_functions lm verify t opt [] = Inr (opt, [])"
| "optimize_functions lm verify t opt (f # fs) =
     bind_res (optimize_function lm verify t opt f) (\<lambda>(opt1, f1).
     bind_res (optimize_functions lm verify t opt1 fs) (\<lambda>(opt2, fs1). Inr (opt2, f1 # fs1)))"

definition optimize_optional ::
  "libm \<Rightarrow> bool \<Rightarrow> IRStringTable option \<Rightarrow> bool \<Rightarrow> IROptimizer \<Rightarrow> IRFunction \<Rightarrow>
   (IROptimizer \<times> IRFunction) res" where
  "optimize_optional lm verify t present opt func =
     (if present then optimize_function lm verify t opt func else Inr (opt, func))"

definition optimize ::
  "libm \<Rightarrow> bool \<Rightarrow> IROptimizer \<Rightarrow> IRProgram \<Rightarrow> (IROptimizer \<times> IRProgram) res" where
  "optimize lm verify opt P =
     (let t = Some (strings P) in
      bind_res (optimize_functions lm verify t opt (prog_functions P)) (\<lambda>(opt1, fs).
      bind_res (optimize_optional lm verify t (has_member_init P) opt1 (member_init P)) (\<lambda>(opt2, mi).
      bind_res (optimize_optional lm verify t (has_global_init P) opt2 (global_init P)) (\<lambda>(opt3, gi).
        Inr (opt3, P\<lparr>prog_functions := fs, member_init := mi, global_init := gi\<rparr>)))))"

end
