(* ===== verification/Analysis_Cache.thy ===== *)
theory Analysis_Cache
  imports Licm_Sound Pipeline
begin

text \<open>
  The analysis that the passes share is cached in the optimiser and reused while it is marked
  valid and the body keeps its length. \<open>coherent\<close> says that a usable cache is the analysis of
  the function at hand. \<open>same_flow\<close> relates instructions that differ in nothing the analysis
  looks at; a pass that reports no change leaves a body that is related to the old one, so
  every pass of the pipeline leaves a coherent cache.
\<close>

section \<open>The cached analysis\<close>

text \<open>What the analysis looks at in an instruction: its opcode and the labels it names.\<close>

definition label_shape :: "IRInstruction list \<Rightarrow> bool" where
  "label_shape is \<longleftrightarrow> (\<forall>i \<in> set is. opcode i = OP_LABEL \<longrightarrow> operands i \<noteq> [] \<longrightarrow> is_label (operands i ! 0))"

definition same_flow :: "IRInstruction \<Rightarrow> IRInstruction \<Rightarrow> bool" where
  "same_flow a b \<longleftrightarrow> opcode a = opcode b \<and>
     list_all2 (\<lambda>v w. is_label v = is_label w \<and> (is_label v \<longrightarrow> v = w)) (operands a) (operands b)"

lemma value_eq_label: "value_eq v w \<Longrightarrow> is_label v = is_label w \<and> (is_label v \<longrightarrow> v = w)"
  by (cases "(v, w)" rule: value_eq.cases) (auto simp: is_label_def)

lemma instr_eq_flow: "instr_eq a b \<Longrightarrow> same_flow a b"
  by (auto simp: instr_eq_def same_flow_def elim: list_all2_mono dest: value_eq_label)

lemma same_flow_leaders:
  assumes "list_all2 same_flow xs ys"
  shows "leaders xs = leaders ys" "block_bounds xs = block_bounds ys"
    "i < length ys \<Longrightarrow> block_of_instruction xs i = block_of_instruction ys i"
proof -
  have len: "length xs = length ys" and op: "\<And>i. i < length ys \<Longrightarrow> opcode (xs ! i) = opcode (ys ! i)"
    using assms by (auto simp: list_all2_conv_all_nth same_flow_def)
  have l: "is_leader xs i = is_leader ys i" if "i < length ys" for i
    using op[OF that] op[of "i - 1"] that by (auto simp: is_leader_def)
  then show e: "leaders xs = leaders ys" unfolding leaders_def len by (intro filter_cong) auto
  show "block_bounds xs = block_bounds ys" by (simp add: block_bounds_def e len)
  have "filter (is_leader xs) [0..<Suc i] = filter (is_leader ys) [0..<Suc i]" if "i < length ys"
    using l that by (intro filter_cong) auto
  then show "i < length ys \<Longrightarrow> block_of_instruction xs i = block_of_instruction ys i"
    by (simp only: block_of_instruction_def)
qed

lemma same_flow_first:
  assumes "same_flow x y" "operands y \<noteq> []" "is_label (operands y ! 0)"
  shows "operand x 0 = operand y 0"
proof -
  have "length (operands x) = length (operands y)" using assms(1) by (auto simp: same_flow_def dest: list_all2_lengthD)
  moreover have "operands x ! 0 = operands y ! 0"
    using assms unfolding same_flow_def list_all2_conv_all_nth by (metis length_greater_0_conv)
  ultimately show ?thesis using assms(2) by (simp add: operand_def)
qed

lemma same_flow_labels:
  assumes "list_all2 same_flow xs ys" "label_shape ys"
  shows "label_positions i xs m = label_positions i ys m"
  using assms
proof (induction arbitrary: i m rule: list_all2_induct)
  case (Cons x xs y ys)
  have op: "opcode x = opcode y" "operands x = [] \<longleftrightarrow> operands y = []"
    using Cons.hyps(1) by (auto simp: same_flow_def)
  have f: "operand x 0 = operand y 0" if "opcode y = OP_LABEL" "operands y \<noteq> []"
    using same_flow_first[OF Cons.hyps(1) that(2)] Cons.prems that by (simp add: label_shape_def)
  have ih: "label_positions (Suc i) xs m' = label_positions (Suc i) ys m'" for m'
    using Cons.IH Cons.prems by (simp add: label_shape_def)
  show ?case
  proof (cases "opcode y = OP_LABEL \<and> operands y \<noteq> []")
    case True
    then have e: "operand x 0 = operand y 0" using f by blast
    show ?thesis unfolding label_positions.simps ih op e by (rule refl)
  next
    case False
    then have "(ir_has_effect (opcode y) IR_LABEL \<and> operands y \<noteq> [] \<and> b) = False" for b by (simp only: label_effect) blast
    then show ?thesis unfolding label_positions.simps ih op by (simp only: if_False)
  qed
qed simp

lemma map_filter_all2:
  assumes "list_all2 R vs ws" "\<And>v w. R v w \<Longrightarrow> F v = F w"
  shows "List.map_filter F vs = List.map_filter F ws"
  using assms(1)
proof (induction rule: list_all2_induct)
  case (Cons v vs w ws)
  then show ?case using assms(2)[OF Cons.hyps(1)] by (simp split: option.split)
qed simp

lemma same_flow_successors:
  assumes "list_all2 same_flow xs ys" "\<And>n p. m n = Some p \<Longrightarrow> p < length ys" "0 < snd b" "snd b \<le> length ys"
  shows "analysis_successors xs m k b = analysis_successors ys m k b"
proof -
  let ?j = "snd b - 1"
  let ?F = "\<lambda>zs v. if is_label v then map_option (block_of_instruction zs) (m (string_id v)) else None"
  have f: "same_flow (xs ! ?j) (ys ! ?j)" using assms by (auto simp: list_all2_conv_all_nth)
  have q: "map_option (block_of_instruction xs) (m n) = map_option (block_of_instruction ys) (m n)" for n
    using assms(2)[of n] same_flow_leaders(3)[OF assms(1)] by (cases "m n") simp_all
  have e: "?F xs = ?F ys" by (simp only: q)
  have "List.map_filter (?F ys) (operands (xs ! ?j)) = List.map_filter (?F ys) (operands (ys ! ?j))"
  proof (rule map_filter_all2)
    show "list_all2 (\<lambda>v w. is_label v = is_label w \<and> (is_label v \<longrightarrow> v = w)) (operands (xs ! ?j)) (operands (ys ! ?j))"
      using f by (simp add: same_flow_def)
    show "?F ys v = ?F ys w" if "is_label v = is_label w \<and> (is_label v \<longrightarrow> v = w)" for v w
    proof (cases "is_label v")
      case True
      then have "v = w" using that by blast
      then show ?thesis by (rule arg_cong)
    next
      case False
      then have "\<not> is_label w" using that by blast
      with False show ?thesis by (simp only: if_False)
    qed
  qed
  moreover have "opcode (xs ! ?j) = opcode (ys ! ?j)" using f by (simp add: same_flow_def)
  moreover have "leaders xs = leaders ys" by (rule same_flow_leaders(1)[OF assms(1)])
  ultimately show ?thesis unfolding analysis_successors_def Let_def e by (simp only:)
qed

lemma build_analysis_same:
  assumes "list_all2 same_flow (instructions g) (instructions f)" "label_shape (instructions f)"
  shows "build_analysis g = build_analysis f"
proof -
  let ?xs = "instructions g" and ?ys = "instructions f"
  let ?m = "label_positions 0 ?ys Map.empty"
  have m: "label_positions 0 ?xs Map.empty = ?m" by (rule same_flow_labels[OF assms])
  have bb: "block_bounds ?xs = block_bounds ?ys" by (rule same_flow_leaders(2)[OF assms(1)])
  have len: "length ?xs = length ?ys" using assms(1) by (rule list_all2_lengthD)
  have succ: "analysis_successors ?xs ?m k b = analysis_successors ?ys ?m k b" if bin: "b \<in> set (block_bounds ?ys)" for k b
  proof (rule same_flow_successors[OF assms(1)])
    show "?m n = Some p \<Longrightarrow> p < length ?ys" for n p using label_positions_Some[of 0 ?ys Map.empty n p] by auto
    obtain j where j: "j < length (leaders ?ys)" "b = block_bounds ?ys ! j" using bin by (auto simp: in_set_conv_nth)
    obtain i where i: "i < length ?ys" "Suc i = length ?ys \<or> is_leader ?ys (Suc i)" "block_of_instruction ?ys i = j"
      by (rule block_index_of[OF j(1)])
    then have "snd b = Suc i" using j(2) block_bounds_nth[OF i(1,2)] by simp
    then show "0 < snd b" "snd b \<le> length ?ys" using i(1) by simp_all
  qed
  let ?B = "\<lambda>is (k, b). \<lparr>blk_begin = fst b, blk_end = snd b, blk_successors = analysis_successors is ?m k b\<rparr>"
  have "map (?B ?xs) (enumerate 0 (block_bounds ?ys)) = map (?B ?ys) (enumerate 0 (block_bounds ?ys))"
  proof (rule map_cong[OF refl])
    fix x assume x: "x \<in> set (enumerate 0 (block_bounds ?ys))"
    obtain k b where kb: "x = (k, b)" by (cases x)
    have "b \<in> set (map snd (enumerate 0 (block_bounds ?ys)))" using imageI[OF x, of snd] kb by (simp only: set_map snd_conv)
    then have "b \<in> set (block_bounds ?ys)" by simp
    from succ[OF this, of k] show "?B ?xs x = ?B ?ys x" by (simp only: kb split_conv)
  qed
  then show ?thesis unfolding build_analysis_def Let_def m bb len by (simp only:)
qed

section \<open>The cache stays coherent\<close>

lemma coherent_invalidate [simp]: "coherent (invalidate_analysis opt) f"
  by (simp add: coherent_def invalidate_analysis_def)

lemma coherent_instructions: "instructions g = instructions f \<Longrightarrow> coherent opt g = coherent opt f"
  by (simp add: coherent_def build_analysis_def)

lemma coherent_replace:
  assumes "coherent opt f" "label_shape (instructions f)"
    "instructions g = instructions f" "replace_instructions opt g fresh = (opt', f', changed)"
  shows "coherent opt' f'"
proof (cases "changed")
  case False
  then have e: "list_all2 instr_eq fresh (instructions f)" "opt' = opt" "f' = g\<lparr>instructions := fresh\<rparr>"
    using assms by (auto simp: replace_instructions_def Let_def split: if_splits)
  have "list_all2 same_flow fresh (instructions f)" by (rule list_all2_mono[OF e(1) instr_eq_flow])
  then have "build_analysis f' = build_analysis f"
    using build_analysis_same[of f' f] assms(2) e(3) by simp
  then show ?thesis using assms(1) e list_all2_lengthD[OF e(1)] by (simp add: coherent_def)
qed (use assms(4) in \<open>auto simp: replace_instructions_def Let_def split: if_splits\<close>)

lemma verified_label_shape: "verified P f \<Longrightarrow> label_shape (instructions f)"
  unfolding label_shape_def using verified_operands label_operand_0 by (metis in_set_conv_nth)

lemma replace_coherent:
  assumes "coherent opt f" "label_shape (instructions f)" "replace_instructions opt f fresh = r"
  shows "coherent (fst r) (fst (snd r))"
  using coherent_replace[OF assms(1,2) refl, of fresh] assms(3) by (cases r) simp

lemma replace_uses_labels:
  "replace_uses im flds al is = Inr out \<Longrightarrow> x \<in> set out \<Longrightarrow> opcode x = OP_LABEL \<Longrightarrow> x \<in> set is"
proof (induction "is" arbitrary: al out)
  case (Cons i rest)
  show ?case
    using Cons.prems Cons.IH[of al] Cons.IH[of "if im then al else List.insert (reg_index (operand i 0)) al"]
    by (auto simp: res_simps split: if_splits)
qed simp

lemma replace_struct_coherent:
  assumes "coherent opt f" "label_shape (instructions f)" "replace_struct opt f at im al = Inr (opt', f')"
  shows "coherent opt' f' \<and> label_shape (instructions f')"
proof -
  let ?is = "instructions f" and ?nr = "first_free_register f"
  let ?g = "f\<lparr>max_registers := max (max_registers f) (?nr + int (length (struct_fields (?is ! at))))\<rparr>"
  let ?out = "\<lambda>uses. take at ?is @ snapshot_moves (?is ! at) ?nr (struct_fields (?is ! at)) @ uses"
  obtain uses where u: "replace_uses im (snapshot_fields ?nr (struct_fields (?is ! at)))
      (if im then al else [reg_index (operand (?is ! at) 0)]) (drop (at + 1) ?is) = Inr uses"
    and "(case replace_instructions opt ?g (?out uses) of (opt1, f1, _) \<Rightarrow> Inr (opt1, f1)) = (Inr (opt', f') :: (IROptimizer \<times> IRFunction) res)"
    using assms(3) unfolding replace_struct_def Let_def bind_res_eq_Inr by (elim exE conjE) (rule that)
  then obtain c where r: "replace_instructions opt ?g (?out uses) = (opt', f', c)"
    by (cases "replace_instructions opt ?g (?out uses)") auto
  have "coherent opt' f'" using coherent_replace[OF assms(1,2) _ r] by simp
  moreover have "x \<in> set ?is" if "x \<in> set (instructions f')" "opcode x = OP_LABEL" for x
  proof -
    have "x \<in> set (take at ?is) \<or> x \<in> set uses"
      using that r by (auto simp: replace_instructions_def Let_def snapshot_moves_def)
    then show ?thesis using replace_uses_labels[OF u, of x] that(2) in_set_takeD in_set_dropD by metis
  qed
  ultimately show ?thesis using assms(2) by (auto simp: label_shape_def)
qed

lemma replace_structs_coherent:
  assumes "coherent opt f" "label_shape (instructions f)" "replace_structs n opt f c = Inr (opt', f', c')"
  shows "coherent opt' f'"
  using assms
proof (induction n arbitrary: opt f c)
  case (Suc n)
  obtain r where r: "find_replaceable f [0..<length (instructions f)] = Inr r"
    using Suc.prems(3) by (auto simp: res_simps)
  show ?case
  proof (cases r)
    case (Some t)
    obtain m im al where t: "t = (m, im, al)" by (cases t)
    obtain opt1 f1 where s: "replace_struct opt f m im al = Inr (opt1, f1)" "replace_structs n opt1 f1 True = Inr (opt', f', c')"
      using Suc.prems(3) r Some t by (auto simp: res_simps)
    from replace_struct_coherent[OF Suc.prems(1,2) s(1)] show ?thesis using Suc.IH[OF _ _ s(2)] by blast
  qed (use Suc.prems r in \<open>simp add: res_simps\<close>)
qed simp


lemma constant_folding_coherent:
  assumes "coherent opt f" "label_shape (instructions f)" "constant_folding lm opt f = Inr (opt', f', c)"
  shows "coherent opt' f'"
proof -
  obtain an opt1 where a: "analysis opt f = (an, opt1)" by (cases "analysis opt f")
  have c: "coherent opt1 f" using coherent_analysis[OF assms(1)] a by simp
  then show ?thesis using assms(3) coherent_replace[OF c assms(2) refl]
    by (auto simp: constant_folding_def Let_def a res_simps split: if_splits)
qed

lemma unreachable_coherent:
  assumes "coherent opt f" "label_shape (instructions f)" "eliminate_unreachable_code opt f = Inr (opt', f', c)"
  shows "coherent opt' f'"
proof -
  obtain an opt1 where a: "analysis opt f = (an, opt1)" by (cases "analysis opt f")
  have c: "coherent opt1 f" using coherent_analysis[OF assms(1)] a by simp
  then show ?thesis using assms(3) coherent_replace[OF c assms(2) refl]
    by (auto simp: eliminate_unreachable_code_def Let_def a res_simps split: if_splits)
qed

lemma tighten_unchanged: "foldl tighten_at (xs, b) ks = (ys, False) \<Longrightarrow> ys = xs \<and> \<not> b"
proof (induction ks arbitrary: xs b)
  case (Cons k ks)
  obtain zs d where z: "tighten_at (xs, b) k = (zs, d)" by (cases "tighten_at (xs, b) k")
  then have "ys = zs \<and> \<not> d" using Cons.IH[of zs d] Cons.prems by simp
  moreover have "\<not> d \<Longrightarrow> zs = xs \<and> \<not> b" using z by (auto simp: tighten_at_def Let_def split: if_splits)
  ultimately show ?case by blast
qed simp

lemma pipeline_coherent:
  assumes v: "verified P f" and c: "coherent opt f" and p: "p \<in> set (pipeline lm)"
    and r: "snd p opt f = Inr (opt', f', ch)"
  shows "coherent opt' f'"
proof -
  note l = verified_label_shape[OF v]
  note rep = coherent_replace[OF c l refl]
  have "snd p \<in> {constant_folding lm, eliminate_unreachable_code, copy_propagation, enhanced_copy_propagation,
      scalar_replace_structs, loop_invariant_code_motion, peephole_optimization, eliminate_redundant_stores,
      eliminate_dead_code, reduce_register_pressure, tighten_scope_marks}"
    using p by (auto simp: pipeline_def)
  then consider "snd p = constant_folding lm" | "snd p = eliminate_unreachable_code" | "snd p = copy_propagation"
    | "snd p = enhanced_copy_propagation" | "snd p = scalar_replace_structs" | "snd p = loop_invariant_code_motion"
    | "snd p = peephole_optimization" | "snd p = eliminate_redundant_stores" | "snd p = eliminate_dead_code"
    | "snd p = reduce_register_pressure" | "snd p = tighten_scope_marks" by blast
  then show ?thesis
  proof cases
    case 1 then show ?thesis using constant_folding_coherent[OF c l] r by simp
  next
    case 2 then show ?thesis using unreachable_coherent[OF c l] r by simp
  next
    case 3 then show ?thesis using r rep by (simp add: copy_propagation_def)
  next
    case 4 then show ?thesis using r rep by (simp add: enhanced_copy_propagation_def)
  next
    case 5 then show ?thesis using r replace_structs_coherent[OF c l] by (simp add: scalar_replace_structs_def del: replace_structs.simps)
  next
    case 6 then show ?thesis using r licm_result[OF v c] by auto
  next
    case 7 then show ?thesis using r rep by (auto simp: peephole_optimization_def res_simps)
  next
    case 8 then show ?thesis using r rep c by (auto simp: eliminate_redundant_stores_def res_simps split: if_splits)
  next
    case 9 then show ?thesis using r c by (auto simp: eliminate_dead_code_def Let_def res_simps split: if_splits)
  next
    case 10
    then have "opt' = invalidate_analysis opt \<or> opt' = opt \<and> instructions f' = instructions f"
      using r by (auto simp: reduce_register_pressure_def Let_def split: if_splits)
    then show ?thesis using c coherent_instructions[of f' f opt] by auto
  next
    case 11
    then show ?thesis using r c tighten_unchanged[of "instructions f" False "[0..<length (instructions f) - 1]"]
      by (auto simp: tighten_scope_marks_def Let_def split: prod.splits if_splits)
  qed
qed

end
