(* ===== verification/Pipeline_Sound.thy ===== *)
theory Pipeline_Sound
  imports Analysis_Cache
begin

text \<open>
  The pipeline as a whole. Every pass of \<open>SOUND_PASSES\<close> refines the function it is given, so
  any run of the pipeline that enables only those, with verification between the passes,
  refines every function of the program, the initialisers included.
\<close>

section \<open>Definitions\<close>

definition SOUND_PASSES :: "string list" where
  "SOUND_PASSES = [''unreachable-code'', ''copy-propagation'', ''enhanced-copy-propagation'', ''licm'',
     ''dead-code'', ''compact-registers'']"

definition sound_settings :: "IROptimizer \<Rightarrow> bool" where
  "sound_settings opt \<longleftrightarrow> m_enabled_passes opt \<noteq> [] \<and>
     set (m_enabled_passes opt) \<subseteq> insert '''' (set SOUND_PASSES)"

definition label_ids :: "IRFunction \<Rightarrow> nat set" where
  "label_ids f = {a. \<exists>i \<in> set (instructions f). Label a \<in> set (operands i)}"

section \<open>Labels\<close>

lemma named_once_subset: "named_once P f \<Longrightarrow> label_ids g \<subseteq> label_ids f \<Longrightarrow> named_once P g"
  unfolding named_once_def label_ids_def by blast

lemma kept_code_subset: "set (kept_code K is) \<subseteq> set is"
  by (auto simp: kept_code_def)

lemma label_ids_kept: "label_ids (f\<lparr>instructions := kept_code K (instructions f)\<rparr>) \<subseteq> label_ids f"
  using kept_code_subset[of K "instructions f"] by (fastforce simp: label_ids_def)

lemma label_ids_compact: "label_ids (compact_pass P f) \<subseteq> label_ids f"
  by (auto simp: label_ids_def rename_instruction_def rename_operand_def split: IRValue.splits option.splits)

lemma propagated_label: "Label a \<in> set (operands (propagate_copies f m i x)) \<Longrightarrow> Label a \<in> set (operands x)"
  by (auto simp: propagate_copies_def propagate_operand_def Let_def split: if_splits option.splits)

lemma propagate_labels:
  "y \<in> set (propagate_from f i m is) \<Longrightarrow> Label a \<in> set (operands y) \<Longrightarrow> \<exists>x \<in> set is. Label a \<in> set (operands x)"
proof (induction "is" arbitrary: i m)
  case (Cons x xs)
  then consider "y = propagate_copies f m i x" | "\<exists>j m'. y \<in> set (propagate_from f j m' xs)"
    by (auto simp: Let_def)
  then show ?case
  proof cases
    case 1
    then show ?thesis using Cons.prems(2) propagated_label by fastforce
  next
    case 2
    then obtain j m' where "y \<in> set (propagate_from f j m' xs)" by blast
    from Cons.IH[OF this Cons.prems(2)] show ?thesis by auto
  qed
qed simp

definition known_labels :: "constant_regs \<Rightarrow> nat set" where
  "known_labels m = {a. \<exists>r op h. map_of m r = Some (op, Label a, h)}"

lemma copy_constant_labels:
  assumes "copy_constant m x = (y, m')"
  shows "known_labels m' \<subseteq> known_labels m \<union> {a. Label a \<in> set (operands x)}"
    "Label a \<in> set (operands y) \<Longrightarrow> a \<in> known_labels m \<union> {a. Label a \<in> set (operands x)}"
proof -
  let ?L = "{a. Label a \<in> set (operands x)}"
  let ?m = "record_constant (kill_constant m x) x"
  have "known_labels (kill_constant m x) \<subseteq> known_labels m"
    by (auto simp: known_labels_def kill_constant_def Let_def split: if_splits)
  moreover have "known_labels ?m \<subseteq> known_labels (kill_constant m x) \<union> ?L"
  proof -
    have "2 \<le> length (operands x) \<Longrightarrow> operands x ! Suc 0 = Label a \<Longrightarrow> Label a \<in> set (operands x)" for a
      using nth_mem[of "Suc 0" "operands x"] by simp
    then show ?thesis by (auto simp: known_labels_def record_constant_def split: if_splits)
  qed
  ultimately have k: "known_labels ?m \<subseteq> known_labels m \<union> ?L" by blast
  have "known_labels m' \<subseteq> known_labels ?m" "Label a \<in> set (operands y) \<Longrightarrow> a \<in> known_labels ?m \<union> ?L"
    using assms by (auto simp: copy_constant_def Let_def known_labels_def split: if_splits option.splits) blast+
  with k show "known_labels m' \<subseteq> known_labels m \<union> ?L"
    "Label a \<in> set (operands y) \<Longrightarrow> a \<in> known_labels m \<union> ?L" by blast+
qed

lemma copy_labels:
  "y \<in> set (copy_constants m is) \<Longrightarrow> Label a \<in> set (operands y) \<Longrightarrow>
     a \<in> known_labels m \<or> (\<exists>x \<in> set is. Label a \<in> set (operands x))"
proof (induction "is" arbitrary: m)
  case (Cons x xs)
  obtain z m' where z: "copy_constant m x = (z, m')" by (cases "copy_constant m x")
  note cl = copy_constant_labels[OF z]
  from Cons.prems(1) z consider "y = z" | "y \<in> set (copy_constants m' xs)" by auto
  then show ?case
  proof cases
    case 1
    then show ?thesis using cl(2)[of a] Cons.prems(2) by auto
  next
    case 2
    from Cons.IH[OF this Cons.prems(2)] show ?thesis using cl(1) by auto
  qed
qed simp

section \<open>One pass\<close>

text \<open>What a pass run owes the rest of the pipeline.\<close>

definition good_run :: "IRProgram \<Rightarrow> IROptimizer \<Rightarrow> IRFunction \<Rightarrow> IROptimizer \<Rightarrow> IRFunction \<Rightarrow> bool" where
  "good_run P opt f opt' f' \<longleftrightarrow> refines P f f' \<and> named_once P f' \<and>
     coherent opt' f' \<and> m_enabled_passes opt' = m_enabled_passes opt"

lemma pass_functionI: "pass opt f = Inr (opt', f', c) \<Longrightarrow> pass_function pass opt f = f'"
  by (simp add: pass_function_def)

lemma enabled_invalidate [simp]: "m_enabled_passes (invalidate_analysis opt) = m_enabled_passes opt"
  by (simp add: invalidate_analysis_def)

lemma enabled_replace: "replace_instructions opt f fresh = (opt', r) \<Longrightarrow> m_enabled_passes opt' = m_enabled_passes opt"
  by (auto simp: replace_instructions_def Let_def)

lemma unreachable_run:
  assumes "verified P f" "named_once P f" "coherent opt f" "eliminate_unreachable_code opt f = Inr (opt', f', c)"
  shows "good_run P opt f opt' f'"
proof -
  have e: "f' = unreachable_pass P f"
    using pass_functionI[of eliminate_unreachable_code, OF assms(4)] unreachable_pass_eq[OF assms(3)] unreachable_pass_code by metis
  have "m_enabled_passes opt' = m_enabled_passes opt"
    using assms(4) enabled_analysis[of opt f] enabled_replace
    by (cases "analysis opt f") (auto simp: eliminate_unreachable_code_def Let_def res_simps split: if_splits)
  then show ?thesis unfolding good_run_def e
    using unreachable.refined[of P f] assms(1,2) named_once_subset[OF assms(2)]
      label_ids_kept[where f = f and K = "live_index P f"]
      unreachable_coherent[OF assms(3) verified_label_shape[OF assms(1)] assms(4), unfolded e]
    by (simp add: named_pre_def unreachable_pass_code)
qed

lemma copy_run:
  assumes "verified P f" "named_once P f" "coherent opt f" "copy_propagation opt f = Inr (opt', f', c)"
  shows "good_run P opt f opt' f'"
proof -
  have r: "replace_instructions opt f (copy_constants [] (instructions f)) = (opt', f', c)"
    using assms(4) by (simp add: copy_propagation_def)
  have e: "f' = copy_pass P f" using r by (auto simp: copy_pass_def replace_instructions_def Let_def)
  have "label_ids (copy_pass P f) \<subseteq> label_ids f"
    using copy_labels[of _ "[]" "instructions f"] by (auto simp: label_ids_def copy_pass_def known_labels_def)
  then show ?thesis unfolding good_run_def e
    using copy_const.refined[of P f] assms(1) named_once_subset[OF assms(2)] enabled_replace[OF r]
      coherent_replace[OF assms(3) verified_label_shape[OF assms(1)] refl r] e by simp
qed

lemma enhanced_run:
  assumes "verified P f" "named_once P f" "coherent opt f" "enhanced_copy_propagation opt f = Inr (opt', f', c)"
    "verified P f'"
  shows "good_run P opt f opt' f'"
proof -
  have r: "replace_instructions opt f (propagate_from f 0 [] (instructions f)) = (opt', f', c)"
    using assms(4) by (simp add: enhanced_copy_propagation_def)
  have e: "f' = enhanced_pass P f" using r by (auto simp: enhanced_pass_def replace_instructions_def Let_def)
  have "label_ids (enhanced_pass P f) \<subseteq> label_ids f"
    using propagate_labels[of _ f 0 "[]" "instructions f"] by (auto simp: label_ids_def enhanced_pass_def)
  moreover have "check_operands (enhanced_pass P f) = Inr ()"
    using assms(5) verified_operands[of P "enhanced_pass P f"] unfolding e
    by (auto simp: check_operands_def operands_ok_def in_set_conv_nth)
  ultimately show ?thesis unfolding good_run_def e
    using copy_regs.refined[of P f] assms(1) named_once_subset[OF assms(2)] enabled_replace[OF r]
      coherent_replace[OF assms(3) verified_label_shape[OF assms(1)] refl r] e by (simp add: enhanced_pre_def)
qed

lemma licm_run:
  assumes "verified P f" "named_once P f" "coherent opt f" "loop_invariant_code_motion opt f = Inr (opt', f', c)"
  shows "good_run P opt f opt' f'"
  using licm_result[OF assms(1,3)] assms(2,4) by (auto simp: good_run_def)

lemma dead_code_run:
  assumes "verified P f" "named_once P f" "coherent opt f" "eliminate_dead_code opt f = Inr (opt', f', c)"
  shows "good_run P opt f opt' f'"
proof -
  have e: "f' = dead_code_pass P f"
    using pass_functionI[of eliminate_dead_code, OF assms(4)] dead_code_pass_eq[of opt f P] dead_code_pass_code[of P f] by simp
  have "coherent opt' f' \<and> m_enabled_passes opt' = m_enabled_passes opt"
    using assms(3,4) by (auto simp: eliminate_dead_code_def Let_def res_simps split: if_splits)
  then show ?thesis unfolding good_run_def
    using dead_code.refined[of P f] assms(1) named_once_subset[OF assms(2)] label_ids_kept[where f = f and K = "survives P f"]
    unfolding e by (simp add: dead_code_pass_code)
qed

lemma compact_run:
  assumes "verified P f" "named_once P f" "coherent opt f" "reduce_register_pressure opt f = Inr (opt', f', c)"
  shows "good_run P opt f opt' f'"
proof -
  have e: "f' = compact_pass P f"
    using pass_functionI[of reduce_register_pressure, OF assms(4)] compact_pass_eq[of opt f] compact_pass_eq[of new_optimizer f]
    by (simp add: compact_pass_def)
  have "opt' = invalidate_analysis opt \<or> opt' = opt \<and> instructions f' = instructions f"
    using assms(4) by (auto simp: reduce_register_pressure_def Let_def split: if_splits)
  then have "coherent opt' f'" "m_enabled_passes opt' = m_enabled_passes opt"
    using assms(3) coherent_instructions[of f' f opt] by auto
  then show ?thesis unfolding good_run_def e
    using compact.refined[of P f] assms(1) named_once_subset[OF assms(2) label_ids_compact] by simp
qed

lemma sound_pass_run:
  assumes p: "p \<in> set (pipeline lm)" "fst p \<in> set SOUND_PASSES"
    and f: "verified P f" "named_once P f" "coherent opt f"
    and r: "snd p opt f = Inr (opt', f', c)" "verified P f'"
  shows "good_run P opt f opt' f'"
proof -
  consider "snd p = eliminate_unreachable_code" | "snd p = copy_propagation" | "snd p = enhanced_copy_propagation"
    | "snd p = loop_invariant_code_motion" | "snd p = eliminate_dead_code" | "snd p = reduce_register_pressure"
    using p by (auto simp: pipeline_def SOUND_PASSES_def)
  then show ?thesis
    using unreachable_run[OF f] copy_run[OF f] enhanced_run[OF f _ r(2)] licm_run[OF f] dead_code_run[OF f]
      compact_run[OF f] r(1) by cases simp_all
qed

section \<open>The pipeline\<close>

lemma run_passes_good:
  assumes "set ps \<subseteq> set (pipeline lm)" "sound_settings opt" "verified P f" "named_once P f" "coherent opt f"
    "run_passes True (Some (strings P)) ps opt f settled = Inr (opt', f')"
  shows "good_run P opt f opt' f'"
  using assms
proof (induction ps arbitrary: opt f settled)
  case Nil
  then show ?case by (simp add: good_run_def)
next
  case (Cons p ps)
  show ?case
  proof (cases "\<not> is_pass_enabled opt (fst p) \<or> fst p \<in> set settled")
    case True
    then show ?thesis using Cons.IH[OF _ Cons.prems(2-5), of settled] Cons.prems(1,6) by simp
  next
    case False
    obtain opt1 f1 c where r: "snd p opt f = Inr (opt1, f1, c)" "verified P f1"
      and rest: "run_passes True (Some (strings P)) ps opt1 f1 (if c then [] else settled @ [fst p]) = Inr (opt', f')"
      using Cons.prems(6) False by (auto simp: bind_res_eq_Inr verify_if_def verified_def)
    have p: "p \<in> set (pipeline lm)" using Cons.prems(1) by simp
    then have "fst p \<noteq> ''''" by (auto simp: pipeline_def)
    then have "fst p \<in> set SOUND_PASSES"
      using False Cons.prems(2) by (auto simp: is_pass_enabled_def sound_settings_def)
    with p have g: "good_run P opt f opt1 f1" by (rule sound_pass_run[OF _ _ Cons.prems(3-5) r])
    then have "good_run P opt1 f1 opt' f'"
      using Cons.IH[OF _ _ r(2) _ _ rest] Cons.prems(1,2) by (simp add: good_run_def sound_settings_def)
    with g show ?thesis by (auto simp: good_run_def intro: refines_trans)
  qed
qed

lemma count_registers_simps [simp]:
  "instructions (count_registers f) = instructions f" "parameters (count_registers f) = parameters f"
  "func_name (count_registers f) = func_name f"
  by (simp_all add: count_registers_def Let_def)

lemma refines_same_code:
  "instructions g = instructions f \<Longrightarrow> parameters g = parameters f \<Longrightarrow> func_name g = func_name f \<Longrightarrow> refines P f g"
  by (simp add: refines_def execute_body_def entry_context_def)

lemma optimize_function_refines:
  assumes "sound_settings opt" "named_once P f"
    "optimize_function lm True (Some (strings P)) opt f = Inr (opt', f')"
  shows "refines P f f' \<and> m_enabled_passes opt' = m_enabled_passes opt \<and> verified P f'"
proof -
  let ?ps = "take (min (m_pass_limit opt) (length (pipeline lm))) (pipeline lm)"
  obtain f1 where v: "verified P f" and r: "run_passes True (Some (strings P)) ?ps (invalidate_analysis opt) f [] = Inr (opt', f1)"
    and f': "f' = count_registers f1" and v': "verified P f'"
    using assms(3) by (auto simp: optimize_function_def Let_def bind_res_eq_Inr verify_if_def verified_def)
  have "good_run P (invalidate_analysis opt) f opt' f1"
    using assms(1,2) v by (intro run_passes_good[OF _ _ _ _ _ r]) (auto simp: sound_settings_def dest: in_set_takeD)
  then show ?thesis using f' v' refines_same_code[of f' f1 P]
    by (auto simp: good_run_def intro: refines_trans)
qed

lemma optimize_functions_refines:
  assumes "sound_settings opt" "\<forall>f \<in> set fs. named_once P f"
    "optimize_functions lm True (Some (strings P)) opt fs = Inr (opt', fs')"
  shows "list_all2 (refines P) fs fs' \<and> m_enabled_passes opt' = m_enabled_passes opt"
  using assms
proof (induction fs arbitrary: opt fs')
  case (Cons f fs)
  obtain opt1 f1 fs1 where f: "optimize_function lm True (Some (strings P)) opt f = Inr (opt1, f1)"
    and fs: "optimize_functions lm True (Some (strings P)) opt1 fs = Inr (opt', fs1)" and e: "fs' = f1 # fs1"
    using Cons.prems(3) by (auto simp: bind_res_eq_Inr)
  have "refines P f f1 \<and> m_enabled_passes opt1 = m_enabled_passes opt"
    using optimize_function_refines[OF Cons.prems(1) _ f] Cons.prems(2) by simp
  then show ?case using Cons.IH[OF _ _ fs] Cons.prems(1,2) e by (simp add: sound_settings_def)
qed simp

lemma optimize_optional_refines:
  assumes "sound_settings opt" "named_once P f"
    "optimize_optional lm True (Some (strings P)) b opt f = Inr (opt', f')"
  shows "refines P f f' \<and> m_enabled_passes opt' = m_enabled_passes opt"
  using assms optimize_function_refines[OF assms(1,2), of lm opt' f']
  by (auto simp: optimize_optional_def split: if_splits)

text \<open>The functions of a program, its initialisers included.\<close>

definition all_functions :: "IRProgram \<Rightarrow> IRFunction list" where
  "all_functions P = prog_functions P @ [member_init P, global_init P]"

lemma optimize_refines:
  assumes "sound_settings opt" "\<forall>f \<in> set (all_functions P). named_once P f" "optimize lm True opt P = Inr (opt', Q)"
  shows "same_tables P Q" "list_all2 (refines P) (prog_functions P) (prog_functions Q)"
    "refines P (member_init P) (member_init Q)" "refines P (global_init P) (global_init Q)"
    "prog_globals Q = prog_globals P" "has_member_init Q = has_member_init P" "has_global_init Q = has_global_init P"
proof -
  obtain opt1 fs opt2 mi gi where
    fs: "optimize_functions lm True (Some (strings P)) opt (prog_functions P) = Inr (opt1, fs)"
    and mi: "optimize_optional lm True (Some (strings P)) (has_member_init P) opt1 (member_init P) = Inr (opt2, mi)"
    and gi: "optimize_optional lm True (Some (strings P)) (has_global_init P) opt2 (global_init P) = Inr (opt', gi)"
    and q: "Q = P\<lparr>prog_functions := fs, member_init := mi, global_init := gi\<rparr>"
    using assms(3) by (auto simp: optimize_def Let_def bind_res_eq_Inr)
  have 1: "list_all2 (refines P) (prog_functions P) fs" "m_enabled_passes opt1 = m_enabled_passes opt"
    using optimize_functions_refines[OF assms(1) _ fs] assms(2) by (simp_all add: all_functions_def)
  have 2: "refines P (member_init P) mi" "m_enabled_passes opt2 = m_enabled_passes opt"
    using optimize_optional_refines[OF _ _ mi] assms(1,2) 1(2) by (simp_all add: all_functions_def sound_settings_def)
  have 3: "refines P (global_init P) gi"
    using optimize_optional_refines[OF _ _ gi] assms(1,2) 2(2) by (simp add: all_functions_def sound_settings_def)
  show "same_tables P Q" "list_all2 (refines P) (prog_functions P) (prog_functions Q)"
    "refines P (member_init P) (member_init Q)" "refines P (global_init P) (global_init Q)"
    "prog_globals Q = prog_globals P" "has_member_init Q = has_member_init P" "has_global_init Q = has_global_init P"
    using 1(1) 2(1) 3 by (simp_all add: q same_tables_def)
qed

section \<open>Initialisers\<close>

lemma execute_function_refined:
  assumes t: "same_tables P Q" and fs: "list_all2 (refines P) (prog_functions P) (prog_functions Q)"
    and cov: "\<forall>f \<in> set (prog_functions P). calls_covered P f" "calls_covered P f" "parameters f = []"
    and r: "refines P f g" "execute_function lm P f (empty_context, gs) = Inr st"
  shows "\<exists>st'. execute_function lm Q g (empty_context, gs) = Inr st' \<and> snd st' = snd st"
proof -
  let ?c = "\<lambda>P. call_at lm P (MAX_CALL_DEPTH - 1)"
  have entry: "entry_context f [] = empty_context" "entry_context g [] = empty_context"
    using cov(3) r(1) by (simp_all add: entry_context_def empty_context_def refines_def)
  have "callee_le P (?c P) (?c Q)" by (rule callees_refined[OF t fs cov(1)])
  then have b: "execute_body (?c Q) lm P f (entry_context f [], gs) = Inr st"
    using execute_steps_mono[OF _ cov(2)] r(2) by (simp add: execute_function_def execute_body_def entry)
  obtain st' where "execute_body (?c Q) lm P g (entry_context g [], gs) = Inr st'" "call_result st' = call_result st"
    using refinesD[OF r(1) _ b] cov(3) by fastforce
  then show ?thesis
    using execute_body_tables[OF t] by (auto simp: execute_function_def entry call_result_def)
qed

lemma initialize_globals_refined:
  assumes t: "same_tables P Q" and fs: "list_all2 (refines P) (prog_functions P) (prog_functions Q)"
    and i: "refines P (member_init P) (member_init Q)" "refines P (global_init P) (global_init Q)"
      "prog_globals Q = prog_globals P" "has_member_init Q = has_member_init P" "has_global_init Q = has_global_init P"
    and cov: "\<forall>f \<in> set (all_functions P). calls_covered P f" "parameters (member_init P) = []"
      "parameters (global_init P) = []"
    and r: "initialize_globals lm P = Inr gs"
  shows "initialize_globals lm Q = Inr gs"
proof -
  have c: "\<forall>f \<in> set (prog_functions P). calls_covered P f" "calls_covered P (member_init P)" "calls_covered P (global_init P)"
    using cov(1) by (simp_all add: all_functions_def)
  note g = execute_function_refined[OF t fs c(1,3) cov(3) i(2)]
  note m = execute_function_refined[OF t fs c(1,2) cov(2) i(1)]
  show ?thesis using r
    by (auto simp: initialize_globals_def i(3-5) bind_res_eq_Inr split: if_splits dest!: g m)
qed

end
