(* ===== verification/Pipeline_Example.thy ===== *)
theory Pipeline_Example
  imports Worked_Example Pipeline_Sound
begin

text \<open>
  The program of \<open>Worked_Example\<close> meets the conditions of the theorems on single passes. A
  smaller one, run through the pipeline with every sound pass enabled and verification on,
  loses its one unread load and has its registers counted again. A third has a global whose
  initialiser is optimised.
\<close>

lemma example_named: "named_once example_program example_function"
  by (auto simp: named_once_def example_program_def example_function_def example_strings_def)

lemma example_enhanced: "check_operands (enhanced_pass example_program example_function) = Inr ()"
  by code_simp

definition small_function :: IRFunction where
  "small_function = empty_function\<lparr>func_name := ''f'', parameters := [''x''], max_registers := 9,
     instructions := [mk_instr OP_ADD [Reg 0, Reg 0, Reg 0], mk_instr OP_LOAD_IMM [Reg 7, Imm 1], mk_instr OP_RETURN []]\<rparr>"

definition small_program :: IRProgram where
  "small_program = \<lparr>prog_globals = [], prog_functions = [small_function], string_constants = [],
     strings = example_strings, global_init = empty_function, has_global_init = False,
     member_init = empty_function, has_member_init = False\<rparr>"

definition small_result :: IRFunction where
  "small_result = small_function\<lparr>max_registers := 1,
     instructions := [mk_instr OP_ADD [Reg 0, Reg 0, Reg 0], mk_instr OP_RETURN []]\<rparr>"

text \<open>A function that marks and releases a scope.\<close>

definition scope_example :: IRFunction where
  "scope_example = empty_function\<lparr>func_name := ''s'', max_registers := 2,
     instructions := [mk_instr OP_SCOPE_MARK [Imm 4], mk_instr OP_SCOPE_RELEASE [Imm 4], mk_instr OP_RETURN []]\<rparr>"

definition sound_optimizer :: IROptimizer where
  "sound_optimizer = \<lparr>m_analysis = no_analysis, m_pass_limit = 13, m_enabled_passes = SOUND_PASSES\<rparr>"

lemma sound_optimizer_settings: "sound_settings sound_optimizer"
  by (auto simp: sound_settings_def sound_optimizer_def SOUND_PASSES_def)

lemma small_verified: "verified small_program small_function"
  by code_simp

lemma small_covered: "calls_covered small_program small_function" "calls_covered small_program empty_function"
  "covered small_program ''f'' (Suc 0)"
  by (simp_all add: calls_covered_def covered_def function_map_def small_program_def small_function_def
    empty_function_def)

lemma small_named: "named_once small_program small_function" "named_once small_program empty_function"
  by (simp_all add: named_once_def small_function_def empty_function_def)

lemma small_run: "interp_call lm small_program ''f'' [VInt 7] [] = Inr (VInt 14, [])"
proof (rule interp_call_run)
  show "function_map small_program ''f'' = Some small_function"
    by (simp add: function_map_def small_program_def small_function_def)
  show "bind_res (execute_steps call lm small_program (instructions small_function) 3
      (start_context small_program small_function [VInt 7], [])) (\<lambda>st. Inr (call_result st)) = Inr (VInt 14, [])" for call
    by code_simp
  show "3 \<le> MAX_STEPS" by (simp add: MAX_STEPS_def)
qed

lemma small_optimized:
  "\<exists>opt'. optimize example_libm True sound_optimizer small_program =
     Inr (opt', small_program\<lparr>prog_functions := [small_result]\<rparr>)"
proof -
  have "(case optimize_function example_libm True (Some example_strings) sound_optimizer small_function of
      Inl _ \<Rightarrow> False | Inr (_, g) \<Rightarrow> g = small_result)"
    by code_simp
  then obtain opt' where
    "optimize_function example_libm True (Some example_strings) sound_optimizer small_function = Inr (opt', small_result)"
    by (auto split: sum.splits prod.splits)
  then show ?thesis by (simp add: optimize_def optimize_optional_def small_program_def)
qed

section \<open>A program with a global\<close>

text \<open>A program with a global that its initialiser computes, by way of a load nobody reads.\<close>

definition setup_function :: IRFunction where
  "setup_function = empty_function\<lparr>func_name := ''init'', max_registers := 3,
     instructions := [mk_instr OP_LOAD_IMM [Reg 0, Imm 5], mk_instr OP_LOAD_IMM [Reg 1, Imm 9],
       mk_instr OP_STORE_GLOBAL [Imm 0, Reg 0], mk_instr OP_RETURN []]\<rparr>"

definition setup_result :: IRFunction where
  "setup_result = setup_function\<lparr>max_registers := 1,
     instructions := [mk_instr OP_LOAD_IMM [Reg 0, Imm 5], mk_instr OP_STORE_GLOBAL [Imm 0, Reg 0], mk_instr OP_RETURN []]\<rparr>"

definition setup_program :: IRProgram where
  "setup_program = small_program\<lparr>prog_globals := [\<lparr>gv_name = ''g'', gv_class_name = [], gv_is_const = False,
     gv_is_property = False, gv_is_static = False, gv_storage = StorageData, gv_type_hint = TypeHint_NONE,
     gv_value_type = TypeHint_NONE, gv_init_type = INIT_INT, gv_init_value = IVInt 1, gv_holds_object = False,
     gv_setter_function = [], gv_getter_function = []\<rparr>],
     prog_functions := [], global_init := setup_function, has_global_init := True\<rparr>"

definition setup_optimizer :: IROptimizer where
  "setup_optimizer = \<lparr>m_analysis = no_analysis, m_pass_limit = 13,
     m_enabled_passes = [''dead-code'', ''compact-registers'']\<rparr>"

lemma setup_optimizer_settings: "sound_settings setup_optimizer"
  by (auto simp: sound_settings_def setup_optimizer_def SOUND_PASSES_def)

lemma setup_named: "named_once setup_program setup_function" "named_once setup_program empty_function"
  by (simp_all add: named_once_def setup_function_def empty_function_def)

lemma setup_covered: "calls_covered setup_program setup_function" "calls_covered setup_program empty_function"
  by (simp_all add: calls_covered_def setup_function_def empty_function_def)

lemma setup_optimized:
  "\<exists>opt'. optimize example_libm True setup_optimizer setup_program = Inr (opt', setup_program\<lparr>global_init := setup_result\<rparr>)"
proof -
  have "(case optimize_function example_libm True (Some example_strings) setup_optimizer setup_function of
      Inl _ \<Rightarrow> False | Inr (_, g) \<Rightarrow> g = setup_result)"
    by code_simp
  then obtain opt' where
    "optimize_function example_libm True (Some example_strings) setup_optimizer setup_function = Inr (opt', setup_result)"
    by (auto split: sum.splits prod.splits)
  then show ?thesis by (simp add: optimize_def optimize_optional_def setup_program_def small_program_def)
qed

lemma setup_run: "initialize_globals lm setup_program = Inr [VInt 5]"
proof -
  have "case execute_steps call lm setup_program (instructions setup_function) 4
      (start_context setup_program setup_function [], [VInt 1]) of Inl _ \<Rightarrow> False | Inr st \<Rightarrow> snd st = [VInt 5]" for call
    by code_simp
  then obtain st where st: "execute_steps (call_at lm setup_program (MAX_CALL_DEPTH - 1)) lm setup_program
      (instructions setup_function) 4 (start_context setup_program setup_function [], [VInt 1]) = Inr st"
    "snd st = [VInt 5]" by (fastforce split: sum.splits)
  have "execute_function lm setup_program setup_function (empty_context, [VInt 1]) = Inr st"
    using execute_steps_more[OF st(1), of MAX_STEPS]
    by (simp add: execute_function_def execute_body_def start_context_def entry_context_def empty_context_def
      setup_function_def empty_function_def MAX_STEPS_def del: execute_steps.simps)
  moreover have "map_res initial_value (prog_globals setup_program) = Inr [VInt 1]" by code_simp
  ultimately show ?thesis using st(2) by (simp add: initialize_globals_def) (simp add: setup_program_def small_program_def)
qed

end
