(* ===== verification/Label_Safety.thy ===== *)
theory Label_Safety
  imports Verified_Run
begin

text \<open>
  No jump of a verified program misses its label. A computation is \<open>regular\<close> when it neither
  ends in the interpreter's complaint about a missing label nor runs forever; every evaluator
  is, and so is a jump of a verified function, hence a whole call of a verified program.
\<close>

definition regular :: "'a res \<Rightarrow> bool" where
  "regular r \<longleftrightarrow> r \<noteq> Inl (CompilerException OPTIMIZER_ERROR MissingLabel) \<and> r \<noteq> Inl Diverges"

section \<open>Evaluators\<close>

lemma regular_simps [simp]:
  "regular (Inr x)" "regular (Inl UndefinedBehaviour)" "regular (Inl (StdException s))"
  "regular (Inl (CompilerException ty re)) \<longleftrightarrow> \<not> (ty = OPTIMIZER_ERROR \<and> re = MissingLabel)"
  "regular (guard_res b CODEGEN_ERROR re)"
  by (auto simp: regular_def guard_res_def)

lemma regular_bind [intro]:
  "regular r \<Longrightarrow> (\<And>x. r = Inr x \<Longrightarrow> regular (g x)) \<Longrightarrow> regular (bind_res r g)"
  by (cases r) (auto simp: regular_def)

lemma regular_if [intro]: "regular x \<Longrightarrow> regular y \<Longrightarrow> regular (if b then x else y)"
  by simp

lemma regular_map [intro]: "(\<And>x. regular (g x)) \<Longrightarrow> regular (map_res g xs)"
  by (induction xs) (simp_all add: regular_bind)

lemma regular_arith [simp]:
  "regular (signed_add64 a b)" "regular (signed_sub64 a b)" "regular (signed_rem64 a b)"
  "regular (get_int v)" "regular (need_args n xs)"
  by (auto simp: signed_add64_def signed_sub64_def signed_rem64_def get_int_def need_args_def
    split: Value.splits option.splits)

lemma regular_posmod [simp]: "regular (eval_posmod a b)" "regular (eval_wrapi a b c)"
  unfolding eval_posmod_def eval_wrapi_def by (intro regular_if regular_bind; simp)+

lemma regular_global_int [simp]: "regular (eval_global_int fn args)"
  unfolding eval_global_int_def by (intro regular_if regular_bind; simp add: Let_def)

lemma regular_utility [simp]: "regular (eval_utility_op lm op args)"
proof (cases "eval_utility_unary lm op (args ! 0)")
  case None
  show ?thesis unfolding eval_utility_op_def Let_def None option.case
    by (intro regular_if; simp split: prod.split)
qed (simp add: eval_utility_op_def)

lemma regular_global_function [simp]: "regular (global_function fn)"
  by (simp add: global_function_def split: option.splits)

lemma regular_global_float [simp]: "regular (eval_global_float lm fn args)"
  unfolding eval_global_float_def by (intro regular_if regular_bind; simp)

lemma regular_global_call [simp]: "regular (global_call_value lm fn args)"
proof -
  have "regular (numeric_value lm info args)" for info
    unfolding numeric_value_def eval_global_int_syscall_def
    by (intro regular_if regular_bind regular_map; simp split: GlobalResult.splits option.splits)
  moreover have "regular (cast_value fn args)"
    by (auto simp: cast_value_def split: list.splits)
  ultimately show ?thesis unfolding global_call_value_def by (intro regular_if regular_bind; simp)
qed

lemma regular_binary [simp]: "regular (binary_op v w op)"
  unfolding binary_op_def float_binary_op_def int_binary_op_def by (intro regular_if regular_bind; simp)

lemma regular_compare [simp]: "regular (compare_op v w op)"
  unfolding compare_op_def by (intro regular_if regular_bind; simp)

lemma regular_unary [simp]: "regular (unary_value i v)"
  unfolding unary_value_def Let_def convert_value_def unary_op_def by (intro regular_if regular_bind; simp)

lemma regular_index [simp]: "re \<noteq> MissingLabel \<Longrightarrow> regular (checked_index i xs re)"
  by (simp add: checked_index_def)

lemma regular_load [simp]: "regular (load_value P gs i)"
  unfolding load_value_def Let_def by (intro regular_if regular_bind; simp)

lemma regular_branch [simp]: "regular (branch_effect P i rd gs)"
  unfolding branch_effect_def Let_def fused_branch_taken_def
  by (intro regular_if regular_bind; auto intro!: regular_bind split: option.splits)

lemma regular_switch [simp]: "regular (switch_effect P i rd gs)"
  by (cases "rd (reg_index (operand i 0))") (simp_all add: switch_effect_def Let_def regular_bind)

lemma instr_effect_regular:
  assumes "opcode i = OP_CALL \<Longrightarrow> regular (call (label_text P (operand i 0))
    (map rd (arg_registers i 3 (arg_count (immediate (operand i 2))))) gs)"
  shows "regular (instr_effect call lm P i rd gs)"
proof (cases "opcode i = OP_CALL")
  case True
  have "regular (bind_res (call (label_text P (operand i 0))
      (map rd (arg_registers i 3 (arg_count (immediate (operand i 2))))) gs) (\<lambda>(v, gs1). Inr (value_effect gs1 v)))"
    using assms[OF True] by (intro regular_bind) auto
  then show ?thesis using True by (simp add: instr_effect_def op_lists Let_def)
next
  case False
  then have n: "(opcode i = OP_CALL) = False" by simp
  show ?thesis unfolding instr_effect_def Let_def n if_False by (intro regular_if regular_bind; simp)
qed

section \<open>Runs\<close>

lemma step_regular:
  assumes v: "verified P f" and inv: "run_inv P f c" and r: "running (instructions f) c"
    and call: "\<And>name args gs. covered P name (length args) \<Longrightarrow> regular (call name args gs)"
    and cov: "calls_covered P f"
  shows "regular (step call lm P (instructions f) (c, gs))"
proof (cases "opcode (instructions f ! pc c) = OP_RETURN")
  case True
  then show ?thesis by (simp add: step_return)
next
  case False
  let ?i = "instructions f ! pc c" and ?rd = "\<lambda>r. the (registers c r)"
  have p: "pc c < length (instructions f)" using r by (simp add: running_def)
  have "opcode ?i = OP_CALL \<Longrightarrow> covered P (label_text P (operand ?i 0)) (nat (arg_count (immediate (operand ?i 2))))"
    using cov nth_mem[OF p] unfolding calls_covered_def list_all_iff by blast
  then have e: "regular (instr_effect call lm P ?i ?rd gs)"
    by (intro instr_effect_regular call) (simp add: arg_registers_def)
  show ?thesis unfolding run_inv_step_effect[OF v inv r False]
  proof (rule regular_bind[OF e])
    fix x assume x: "instr_effect call lm P ?i ?rd gs = Inr x"
    obtain w j gs' where "x = (w, j, gs')" by (cases x)
    then show "regular (take_effect (ir_destination_register ?i) c x)"
      using run_inv_target[OF v inv r, of call lm ?rd gs w j gs'] x by (auto simp: take_effect_def split: option.splits)
  qed
qed

lemma steps_regular:
  assumes v: "verified P f" and call: "\<And>name args gs. covered P name (length args) \<Longrightarrow> regular (call name args gs)"
    and cov: "calls_covered P f"
  shows "run_inv P f c \<Longrightarrow> regular (execute_steps call lm P (instructions f) n (c, gs))"
proof (induction n arbitrary: c gs)
  case (Suc n)
  have "regular (bind_res (step call lm P (instructions f) (c, gs)) (execute_steps call lm P (instructions f) n))"
    if r: "running (instructions f) c"
  proof (rule regular_bind)
    show "regular (step call lm P (instructions f) (c, gs))" by (rule step_regular[OF v Suc.prems r call cov])
    fix x assume "step call lm P (instructions f) (c, gs) = Inr x"
    then show "regular (execute_steps call lm P (instructions f) n x)"
      using Suc.IH[of "fst x" "snd x"] run_inv_step[OF v Suc.prems r, of call lm gs "fst x" "snd x"] by simp
  qed
  then show ?case by simp
qed simp

lemma call_regular:
  assumes "\<forall>f \<in> set (prog_functions P). verified P f \<and> calls_covered P f" "covered P name (length args)"
  shows "regular (call_at lm P d name args gs)"
  using assms(2)
proof (induction d arbitrary: name args gs)
  case (Suc d)
  have "regular (execute_body (call_at lm P d) lm P f (entry_context f args, gs))" if f: "function_map P name = Some f" for f
  proof -
    have v: "verified P f" "calls_covered P f" using assms(1) function_map_in[OF f] by auto
    have "length (parameters f) \<le> length args" using Suc.prems f by (simp add: covered_def)
    from steps_regular[OF v(1) Suc.IH v(2) run_inv_start[OF v(1) this]] show ?thesis
      unfolding execute_body_start .
  qed
  then show ?case by (auto intro!: regular_bind split: option.splits)
qed (simp split: option.splits)

end
