(* ===== verification/Scalar_Ends.thy ===== *)
theory Scalar_Ends
  imports Scalar_Replacement Scope_Flow
begin

text \<open>
  Scalar replacement ends: the set of aliases grows with every round that is not the last and
  stays within the destinations of the body, and every round of the outer loop removes one
  keyed construction.
\<close>

section \<open>Aliases\<close>

definition move_targets :: "int \<Rightarrow> IRInstruction list \<Rightarrow> int set" where
  "move_targets root is = insert root ((\<lambda>i. reg_index (operand i 0)) ` set is)"

lemma alias_visits:
  assumes "foldl alias_visit (al, g) is = (al', g')" "set al \<subseteq> move_targets root body" "set is \<subseteq> set body"
  shows "set al \<subseteq> set al' \<and> set al' \<subseteq> move_targets root body \<and> (g' \<longrightarrow> g \<or> set al \<noteq> set al')"
  using assms
proof (induction "is" arbitrary: al g)
  case (Cons i rest)
  obtain al1 g1 where v: "alias_visit (al, g) i = (al1, g1)" by (cases "alias_visit (al, g) i")
  let ?d = "reg_index (operand i 0)"
  from v consider "al1 = al" "g1 = g" | "al1 = ?d # al" "?d \<notin> set al"
    unfolding alias_visit_def Let_def prod.case by (metis Pair_inject)
  moreover have "?d \<in> move_targets root body" using Cons.prems(3) unfolding move_targets_def by auto
  ultimately have 1: "set al \<subseteq> set al1 \<and> set al1 \<subseteq> move_targets root body \<and> (g1 \<longrightarrow> g \<or> set al \<noteq> set al1)"
    using Cons.prems(2) by cases auto
  have "foldl alias_visit (al1, g1) rest = (al', g')" using Cons.prems(1) v by simp
  from Cons.IH[OF this] 1 Cons.prems(3) show ?case by auto
qed simp

lemma struct_aliases_ends: "ends (struct_aliases is root)"
proof -
  let ?T = "move_targets root is"
  let ?c = "\<lambda>(al, _). foldl alias_visit (al, False) is"
  let ?m = "\<lambda>(al, g). card (?T - set al) + (if g then 1 else 0 :: nat)"
  have fin: "finite ?T" by (simp add: move_targets_def)
  have "\<exists>r. while_option snd ?c ([root], True) = Some r"
  proof (rule measure_while_option_Some[where P = "\<lambda>(al, _). set al \<subseteq> ?T" and f = ?m])
    fix s assume s: "(case s of (al, _) \<Rightarrow> set al \<subseteq> ?T)" "snd s"
    obtain al g where "s = (al, g)" by (cases s)
    moreover obtain al' g' where f: "foldl alias_visit (al, False) is = (al', g')"
      by (cases "foldl alias_visit (al, False) is")
    ultimately have v: "set al \<subseteq> set al' \<and> set al' \<subseteq> ?T \<and> (g' \<longrightarrow> set al \<noteq> set al')"
      using alias_visits[OF f, of root "is"] s(1) by auto
    have "card (?T - set al') \<le> card (?T - set al)" using v fin by (intro card_mono) auto
    moreover have "g' \<Longrightarrow> card (?T - set al') < card (?T - set al)"
      using v fin by (intro psubset_card_mono) auto
    ultimately show "(case ?c s of (al, _) \<Rightarrow> set al \<subseteq> ?T) \<and> ?m (?c s) < ?m s"
      using \<open>s = (al, g)\<close> s(2) f v by (cases g') auto
  qed (simp add: move_targets_def)
  then show ?thesis by (auto simp: struct_aliases_def ends_def split: option.splits prod.splits)
qed

section \<open>The outer loop\<close>

lemma replaceable_ends: "ends (replaceable f i)"
  unfolding replaceable_def Let_def by (auto intro!: ends_bind struct_aliases_ends)

lemma find_replaceable_ends: "ends (find_replaceable f is)"
  by (induction "is") (auto intro!: ends_bind replaceable_ends split: option.splits)

lemma find_replaceable_make:
  "find_replaceable f is = Inr (Some (i, im, al)) \<Longrightarrow> i \<in> set is \<and> is_struct_make (instructions f ! i)"
proof (induction "is")
  case (Cons j js)
  then show ?case
    by (auto simp: bind_res_eq_Inr replaceable_def Let_def split: option.splits if_splits)
qed simp

lemma replace_uses_ends: "ends (replace_uses im flds al is)"
proof (induction "is" arbitrary: al)
  case (Cons i rest)
  have "ends (field_register flds k)" for k by (auto simp: field_register_def split: option.splits)
  then show ?case using Cons.IH by (auto intro!: ends_bind)
qed simp

lemma replace_uses_makes: "replace_uses im flds al is = Inr out \<Longrightarrow> make_count out \<le> make_count is"
proof (induction "is" arbitrary: al out)
  case (Cons i rest)
  let ?al = "if im then al else List.insert (reg_index (operand i 0)) al"
  show ?case
    using Cons.prems Cons.IH[of al] Cons.IH[of ?al]
    by (auto simp: make_count_def bind_res_eq_Inr le_Suc_eq split: if_splits)
qed (simp add: make_count_def)

lemma make_count_append [simp]: "make_count (xs @ ys) = make_count xs + make_count ys"
  by (simp add: make_count_def)

lemma replace_struct_makes:
  assumes "replace_struct opt f at im al = Inr (opt', f')" "at < length (instructions f)"
    "is_struct_make (instructions f ! at)"
  shows "make_count (instructions f') < make_count (instructions f)"
proof -
  let ?is = "instructions f" and ?nr = "first_free_register f"
  let ?fl = "struct_fields (?is ! at)"
  obtain uses where "replace_uses im (snapshot_fields ?nr ?fl)
        (if im then al else [reg_index (operand (?is ! at) 0)]) (drop (at + 1) ?is) = Inr uses"
      and i: "instructions f' = take at ?is @ snapshot_moves (?is ! at) ?nr ?fl @ uses"
    using assms(1) by (auto simp: replace_struct_def Let_def bind_res_eq_Inr replace_instructions_def)
  from replace_uses_makes[OF this(1)] have u: "make_count uses \<le> make_count (drop (at + 1) ?is)" .
  have "make_count (snapshot_moves (?is ! at) ?nr ?fl) = 0"
    by (auto simp: make_count_def snapshot_moves_def filter_empty_conv)
  moreover have "make_count ?is = make_count (take at ?is) + Suc (make_count (drop (at + 1) ?is))"
    using assms(2,3) id_take_nth_drop[OF assms(2)] make_count_append[of "take at ?is" "?is ! at # drop (at + 1) ?is"]
    by (simp add: make_count_def is_struct_make_def)
  ultimately show ?thesis using u i by simp
qed

lemma replace_structs_ends: "make_count (instructions f) < n \<Longrightarrow> ends (replace_structs n opt f c)"
proof (induction n arbitrary: opt f c)
  case (Suc n)
  show ?case unfolding replace_structs.simps
  proof (rule ends_bind[OF find_replaceable_ends])
    fix r assume r: "find_replaceable f [0..<length (instructions f)] = Inr r"
    show "ends (case r of None \<Rightarrow> Inr (opt, f, c)
      | Some (make_at, immutable, aliases) \<Rightarrow> bind_res (replace_struct opt f make_at immutable aliases)
          (\<lambda>(opt1, func1). replace_structs n opt1 func1 True))"
    proof (cases r)
      case (Some t)
      obtain at im al where t: "t = (at, im, al)" by (cases t)
      have m: "at < length (instructions f)" "is_struct_make (instructions f ! at)"
        using find_replaceable_make[of f "[0..<length (instructions f)]" at im al] r Some t by auto
      have "ends (replace_struct opt f at im al)"
        unfolding replace_struct_def Let_def by (rule ends_bind[OF replace_uses_ends]) (simp split: prod.split)
      then show ?thesis unfolding Some t option.case prod.case
      proof (rule ends_bind)
        fix x assume x: "replace_struct opt f at im al = Inr x"
        obtain opt1 f1 where e: "x = (opt1, f1)" by (cases x)
        have "make_count (instructions f1) < n"
          using replace_struct_makes[OF x[unfolded e] m] Suc.prems by simp
        then show "ends (case x of (opt1, func1) \<Rightarrow> replace_structs n opt1 func1 True)"
          using Suc.IH e by simp
      qed
    qed simp
  qed
qed simp

end
