(* ===== verification/Pipeline_Ends.thy ===== *)
theory Pipeline_Ends
  imports Pipeline_Sound Label_Safety Scalar_Ends
begin

text \<open>
  The optimiser ends. Every pass does, on a verified function with a coherent cache; the pipeline
  keeps both conditions between passes, so a whole run over a program with verification ends,
  whatever passes are enabled.
\<close>

section \<open>Constant folding\<close>

lemma regular_ends: "regular r \<Longrightarrow> ends r"
  by (simp add: regular_def ends_def)

lemma ends_if: "ends x \<Longrightarrow> ends y \<Longrightarrow> ends (if b then x else y)"
  by simp

lemma fold_convert_ends: "ends (fold_convert m i)"
proof -
  have "ends (convert_constant h c)" for h c
    unfolding convert_constant_def by (intro ends_if) (simp_all split: option.split add: ends_def)
  then show ?thesis unfolding fold_convert_def Let_def by (auto intro!: ends_bind split: option.split)
qed

lemma fold_global_call_ends: "ends (fold_global_call lm m i)"
proof -
  have "ends (fold_int_call m i d info as)" "ends (fold_float_call lm m i d info bs)" for d info as bs
    unfolding fold_int_call_def fold_float_call_def by (rule ends_bind; simp add: regular_ends)+
  then show ?thesis unfolding fold_global_call_def Let_def
    by (auto intro!: ends_bind simp: regular_ends split: option.split)
qed

lemma fold_instruction_ends: "ends (fold_instruction lm m i)"
  unfolding fold_instruction_def Let_def
  by (intro ends_if; simp only: ends_simps fold_convert_ends fold_global_call_ends)

lemma fold_block_ends: "ends (fold_block lm m is)"
  by (induction "is" arbitrary: m) (auto intro!: ends_bind fold_instruction_ends)

lemma const_solve_ends: "ends (const_solve lm f blocks n fl)"
proof (induction n arbitrary: fl)
  case (Suc n)
  have "ends (const_step lm f blocks fl)"
    unfolding const_step_def Let_def by (rule ends_bind[OF fold_block_ends]) (simp split: prod.split)
  then show ?case using Suc by (auto intro!: ends_bind)
qed simp

lemma fold_blocks_ends: "ends (fold_blocks lm is e b blocks)"
  by (induction blocks arbitrary: b) (auto intro!: ends_bind fold_block_ends)

lemma constant_folding_ends: "ends (constant_folding lm opt f)"
  unfolding constant_folding_def
  by (auto simp: Let_def intro!: ends_bind const_solve_ends fold_blocks_ends split: prod.split)

section \<open>The other passes\<close>

lemma peephole_match_ends: "ends (peephole_match_at f i)"
  unfolding peephole_match_at_def try_fuse_compare_and_branch_def Let_def
  by (auto intro!: ends_bind split: option.split)

lemma peephole_from_ends: "ends (peephole_from f i)"
proof (induction f i rule: peephole_from.induct)
  case (1 f i)
  have "ends (case r of
      Some (extra, out) \<Rightarrow> bind_res (peephole_from f (i + Suc extra)) (\<lambda>rest. Inr (out @ rest))
    | None \<Rightarrow> bind_res (peephole_from f (i + 1)) (\<lambda>rest. Inr (instructions f ! i # rest)))"
    if "i < length (instructions f)" "peephole_match_at f i = Inr r" for r
    using 1[OF that(1)] that(2) by (cases r) (auto intro!: ends_bind simp del: peephole_from.simps)
  then have "ends (bind_res (peephole_match_at f i) (\<lambda>r. case r of
      Some (extra, out) \<Rightarrow> bind_res (peephole_from f (i + Suc extra)) (\<lambda>rest. Inr (out @ rest))
    | None \<Rightarrow> bind_res (peephole_from f (i + 1)) (\<lambda>rest. Inr (instructions f ! i # rest))))"
    if "i < length (instructions f)" using that by (intro ends_bind peephole_match_ends)
  then show ?case by (subst peephole_from.simps) (rule if_split[THEN iffD2], blast intro: ends_simps(1))
qed

lemma peephole_ends: "ends (peephole_optimization opt f)"
  unfolding peephole_optimization_def by (rule ends_bind[OF peephole_from_ends]) simp

lemma pure_ends: "ends (ir_instruction_is_pure i)"
  using pure_fault by (simp add: ends_def)

lemma redundant_stores_ends: "ends (eliminate_redundant_stores opt f)"
proof -
  have step: "ends (store_step is i p)" for "is" i p
    unfolding store_step_def Let_def
    by (rule ends_bind[OF pure_ends]) (auto split: prod.split option.split)
  have "ends (store_sweep is ks p)" for "is" ks p
    by (induction ks arbitrary: p) (auto intro!: ends_bind step)
  then show ?thesis unfolding eliminate_redundant_stores_def by (auto intro!: ends_bind)
qed

lemma dead_code_ends: "ends (eliminate_dead_code opt f)"
proof -
  have "ends (dce_solve (instructions f))" using dce_solve_ends by (simp add: ends_def)
  then show ?thesis unfolding eliminate_dead_code_def Let_def by (auto intro!: ends_bind)
qed

lemma pass_ends:
  assumes v: "verified P f" "coherent opt f" and p: "p \<in> set (pipeline lm)"
  shows "ends (snd p opt f)"
proof -
  have "ends (eliminate_unreachable_code opt f)" "ends (loop_invariant_code_motion opt f)"
    using unreachable_returns[OF v(2)] licm_result[OF v] by auto
  moreover have "ends (scalar_replace_structs opt f)"
    unfolding scalar_replace_structs_def by (rule replace_structs_ends) simp
  moreover have "ends (tighten_scope_marks opt f)" "ends (reduce_register_pressure opt f)"
    by (simp_all add: tighten_scope_marks_def reduce_register_pressure_def Let_def split: prod.split)
  ultimately show ?thesis
    using p constant_folding_ends peephole_ends redundant_stores_ends dead_code_ends
    by (auto simp: pipeline_def copy_propagation_def enhanced_copy_propagation_def)
qed

section \<open>The pipeline\<close>

lemma verify_ends: "ends (verify_if b t f)"
  using ir_verify_ends by (auto simp: verify_if_def ends_def)

lemma run_passes_ends:
  assumes "set ps \<subseteq> set (pipeline lm)" "verified P f" "coherent opt f"
  shows "ends (run_passes True (Some (strings P)) ps opt f settled)"
  using assms
proof (induction ps arbitrary: opt f settled)
  case (Cons p ps)
  show ?case
  proof (cases "\<not> is_pass_enabled opt (fst p) \<or> fst p \<in> set settled")
    case True
    then show ?thesis using Cons by simp
  next
    case False
    have p: "p \<in> set (pipeline lm)" "set ps \<subseteq> set (pipeline lm)" using Cons.prems(1) by auto
    have "ends (bind_res (snd p opt f) (\<lambda>(opt1, func1, changed).
        bind_res (verify_if True (Some (strings P)) func1) (\<lambda>_.
          run_passes True (Some (strings P)) ps opt1 func1 (if changed then [] else settled @ [fst p]))))"
    proof (rule ends_bind[OF pass_ends[OF Cons.prems(2,3) p(1)]])
      fix x assume x: "snd p opt f = Inr x"
      obtain opt1 f1 c where e: "x = (opt1, f1, c)" by (cases x)
      have c: "coherent opt1 f1" by (rule pipeline_coherent[OF Cons.prems(2,3) p(1) x[unfolded e]])
      have "ends (bind_res (verify_if True (Some (strings P)) f1) (\<lambda>_.
          run_passes True (Some (strings P)) ps opt1 f1 (if c then [] else settled @ [fst p])))"
        by (rule ends_bind[OF verify_ends])
          (use Cons.IH[OF p(2) _ c] in \<open>simp add: verify_if_def verified_def\<close>)
      then show "ends (case x of (opt1, func1, changed) \<Rightarrow>
        bind_res (verify_if True (Some (strings P)) func1) (\<lambda>_.
          run_passes True (Some (strings P)) ps opt1 func1 (if changed then [] else settled @ [fst p])))"
        by (simp add: e)
    qed
    then show ?thesis using False by simp
  qed
qed simp

lemma optimize_function_ends:
  fixes P :: IRProgram
  shows "ends (optimize_function lm True (Some (strings P)) opt f)"
  unfolding optimize_function_def Let_def
proof (rule ends_bind[OF verify_ends])
  let ?ps = "take (min (m_pass_limit opt) (length (pipeline lm))) (pipeline lm)"
  fix x :: unit assume "verify_if True (Some (strings P)) f = Inr x"
  then have "ends (run_passes True (Some (strings P)) ?ps (invalidate_analysis opt) f [])"
    by (intro run_passes_ends[where lm = lm]) (auto simp: verify_if_def verified_def dest: in_set_takeD)
  then show "ends (bind_res (run_passes True (Some (strings P)) ?ps (invalidate_analysis opt) f [])
      (\<lambda>(opt1, func1). bind_res (verify_if True (Some (strings P)) (count_registers func1))
        (\<lambda>_. Inr (opt1, count_registers func1))))"
    by (rule ends_bind) (auto intro!: ends_bind verify_ends)
qed

lemma optimize_ends: "ends (optimize lm True opt P)"
proof -
  have fs: "ends (optimize_functions lm True (Some (strings P)) opt fs)" for opt fs
    by (induction fs arbitrary: opt) (auto intro!: ends_bind optimize_function_ends)
  have "ends (optimize_optional lm True (Some (strings P)) b opt f)" for b opt f
    by (simp add: optimize_optional_def optimize_function_ends)
  with fs show ?thesis unfolding optimize_def Let_def by (auto intro!: ends_bind)
qed

end
