(* ===== verification/Unsound_Passes.thy ===== *)
theory Unsound_Passes
  imports Pipeline_Example
begin

text \<open>
  The passes outside \<open>SOUND_PASSES\<close> that change what a program computes, each with an accepted
  program that shows it: the peephole pass folds a move into an operation that reads its own
  destination, and the removal of redundant stores delays a move past a write of its source.
  Constant folding keeps the constant of a register that a call overwrites.
\<close>

definition program_of :: "IRFunction list \<Rightarrow> IRProgram" where
  "program_of fs = \<lparr>prog_globals = [], prog_functions = fs, string_constants = [],
     strings = \<lparr>m_strings = [''loop'', ''g''], m_ids = [''loop'' \<mapsto> 0, ''g'' \<mapsto> 1]\<rparr>, global_init = empty_function,
     has_global_init = False, member_init = empty_function, has_member_init = False\<rparr>"

section \<open>The peephole pass\<close>

text \<open>Twice around the loop, \<open>r1\<close> counts and \<open>r3\<close> is its copy.\<close>

definition counting_loop :: IRFunction where
  "counting_loop = empty_function\<lparr>func_name := ''f'', parameters := [''i'', ''n'', ''one'', ''copy'', ''limit''],
     max_registers := 5,
     instructions :=
       [mk_instr OP_LABEL [Label 0],
        mk_instr OP_ADD [Reg 1, Reg 1, Reg 2], mk_instr OP_MOVE [Reg 3, Reg 1],
        mk_instr OP_ADD [Reg 0, Reg 0, Reg 2], mk_instr OP_BRANCH_LT [Reg 0, Reg 4, Label 0],
        mk_instr OP_MOVE [Reg 0, Reg 3], mk_instr OP_RETURN []]\<rparr>"

definition counting_folded :: IRFunction where
  "counting_folded = counting_loop\<lparr>instructions :=
       [mk_instr OP_LABEL [Label 0],
        mk_instr OP_ADD [Reg 3, Reg 1, Reg 2],
        mk_instr OP_ADD [Reg 0, Reg 0, Reg 2], mk_instr OP_BRANCH_LT [Reg 0, Reg 4, Label 0],
        mk_instr OP_MOVE [Reg 0, Reg 3], mk_instr OP_RETURN []]\<rparr>"

lemma counting_verified: "verified (program_of [counting_loop]) counting_loop"
  by code_simp

lemma peephole_from_end: "length (instructions f) \<le> i \<Longrightarrow> peephole_from f i = Inr []"
  by simp

lemma peephole_from_skip:
  "i < length (instructions f) \<Longrightarrow> peephole_match_at f i = Inr None \<Longrightarrow> peephole_from f (Suc i) = Inr rest \<Longrightarrow>
   peephole_from f i = Inr (ins f i # rest)"
  by (subst peephole_from.simps) (simp add: res_simps del: peephole_from.simps)

lemma peephole_from_hit:
  "i < length (instructions f) \<Longrightarrow> peephole_match_at f i = Inr (Some (extra, out)) \<Longrightarrow>
   peephole_from f (i + Suc extra) = Inr rest \<Longrightarrow> peephole_from f i = Inr (out @ rest)"
  by (subst peephole_from.simps) (simp add: res_simps del: peephole_from.simps)

lemma counting_match:
  "map (peephole_match_at counting_loop) [0, 1, 3, 4, 5, 6] =
   [Inr None, Inr (Some (1, [mk_instr OP_ADD [Reg 3, Reg 1, Reg 2]])), Inr None, Inr None, Inr None, Inr None]"
  by code_simp

lemma counting_from: "peephole_from counting_loop 0 = Inr (instructions counting_folded)"
proof -
  let ?f = counting_loop
  have n: "length (instructions ?f) = 7" by (simp add: counting_loop_def)
  note m = counting_match[simplified]
  have 6: "peephole_from ?f 6 = Inr [ins ?f 6]"
    by (rule peephole_from_skip) (use n m in \<open>simp_all del: peephole_from.simps add: peephole_from_end\<close>)
  have 5: "peephole_from ?f 5 = Inr [ins ?f 5, ins ?f 6]"
    by (rule peephole_from_skip) (use n m 6 in \<open>simp_all del: peephole_from.simps\<close>)
  have 4: "peephole_from ?f 4 = Inr [ins ?f 4, ins ?f 5, ins ?f 6]"
    by (rule peephole_from_skip) (use n m 5 in \<open>simp_all del: peephole_from.simps\<close>)
  have 3: "peephole_from ?f 3 = Inr [ins ?f 3, ins ?f 4, ins ?f 5, ins ?f 6]"
    by (rule peephole_from_skip) (use n m 4 in \<open>simp_all del: peephole_from.simps\<close>)
  have 1: "peephole_from ?f 1 = Inr ([mk_instr OP_ADD [Reg 3, Reg 1, Reg 2]] @ [ins ?f 3, ins ?f 4, ins ?f 5, ins ?f 6])"
    by (rule peephole_from_hit[where extra = 1]) (use n m 3 in \<open>simp_all del: peephole_from.simps add: numeral_3_eq_3\<close>)
  have "peephole_from ?f 0 = Inr (ins ?f 0 # [mk_instr OP_ADD [Reg 3, Reg 1, Reg 2]] @ [ins ?f 3, ins ?f 4, ins ?f 5, ins ?f 6])"
    by (rule peephole_from_skip) (use n m 1 in \<open>simp_all del: peephole_from.simps\<close>)
  then show ?thesis by (simp add: counting_folded_def counting_loop_def del: peephole_from.simps)
qed

lemma counting_pass: "\<exists>opt' c. peephole_optimization new_optimizer counting_loop = Inr (opt', counting_folded, c)"
  by (simp add: peephole_optimization_def counting_from replace_instructions_def Let_def res_simps
    counting_folded_def del: peephole_from.simps)

lemma counting_run: "interp_call lm (program_of [counting_loop]) ''f'' [VInt 0, VInt 0, VInt 1, VInt 0, VInt 2] [] = Inr (VInt 2, [])"
proof (rule interp_call_run)
  show "function_map (program_of [counting_loop]) ''f'' = Some counting_loop"
    by (simp add: function_map_def program_of_def counting_loop_def)
  show "bind_res (execute_steps call lm (program_of [counting_loop]) (instructions counting_loop) 12
      (start_context (program_of [counting_loop]) counting_loop [VInt 0, VInt 0, VInt 1, VInt 0, VInt 2], [])) (\<lambda>st. Inr (call_result st)) =
      Inr (VInt 2, [])" for call
    by code_simp
  show "12 \<le> MAX_STEPS" by (simp add: MAX_STEPS_def)
qed

lemma counting_folded_run: "interp_call lm (program_of [counting_folded]) ''f'' [VInt 0, VInt 0, VInt 1, VInt 0, VInt 2] [] = Inr (VInt 1, [])"
proof (rule interp_call_run)
  show "function_map (program_of [counting_folded]) ''f'' = Some counting_folded"
    by (simp add: function_map_def program_of_def counting_folded_def counting_loop_def)
  show "bind_res (execute_steps call lm (program_of [counting_folded]) (instructions counting_folded) 12
      (start_context (program_of [counting_folded]) counting_folded [VInt 0, VInt 0, VInt 1, VInt 0, VInt 2], [])) (\<lambda>st. Inr (call_result st)) =
      Inr (VInt 1, [])" for call
    by code_simp
  show "12 \<le> MAX_STEPS" by (simp add: MAX_STEPS_def)
qed

section \<open>Redundant stores\<close>

text \<open>A copy of the argument is taken before the argument is doubled.\<close>

definition saved_argument :: IRFunction where
  "saved_argument = empty_function\<lparr>func_name := ''f'', parameters := [''x''], max_registers := 3,
     instructions := [mk_instr OP_MOVE [Reg 1, Reg 0], mk_instr OP_ADD [Reg 0, Reg 0, Reg 0],
       mk_instr OP_MOVE [Reg 0, Reg 1], mk_instr OP_RETURN []]\<rparr>"

definition saved_late :: IRFunction where
  "saved_late = saved_argument\<lparr>instructions := [mk_instr OP_ADD [Reg 0, Reg 0, Reg 0],
       mk_instr OP_MOVE [Reg 1, Reg 0], mk_instr OP_MOVE [Reg 0, Reg 1], mk_instr OP_RETURN []]\<rparr>"

lemma saved_verified: "verified (program_of [saved_argument]) saved_argument"
  by code_simp

lemma saved_pass: "\<exists>opt' c. eliminate_redundant_stores new_optimizer saved_argument = Inr (opt', saved_late, c)"
proof -
  have "store_sweep (instructions saved_argument) [0..<length (instructions saved_argument)] [] =
      Inr (instructions saved_late)"
    by code_simp
  then show ?thesis
    by (simp add: eliminate_redundant_stores_def replace_instructions_def Let_def saved_late_def saved_argument_def)
qed

lemma saved_run: "interp_call lm (program_of [saved_argument]) ''f'' [VInt 3] [] = Inr (VInt 3, [])"
proof (rule interp_call_run)
  show "function_map (program_of [saved_argument]) ''f'' = Some saved_argument"
    by (simp add: function_map_def program_of_def saved_argument_def)
  show "bind_res (execute_steps call lm (program_of [saved_argument]) (instructions saved_argument) 4
      (start_context (program_of [saved_argument]) saved_argument [VInt 3], [])) (\<lambda>st. Inr (call_result st)) =
      Inr (VInt 3, [])" for call
    by code_simp
  show "4 \<le> MAX_STEPS" by (simp add: MAX_STEPS_def)
qed

lemma saved_late_run: "interp_call lm (program_of [saved_late]) ''f'' [VInt 3] [] = Inr (VInt 6, [])"
proof (rule interp_call_run)
  show "function_map (program_of [saved_late]) ''f'' = Some saved_late"
    by (simp add: function_map_def program_of_def saved_late_def saved_argument_def)
  show "bind_res (execute_steps call lm (program_of [saved_late]) (instructions saved_late) 4
      (start_context (program_of [saved_late]) saved_late [VInt 3], [])) (\<lambda>st. Inr (call_result st)) =
      Inr (VInt 6, [])" for call
    by code_simp
  show "4 \<le> MAX_STEPS" by (simp add: MAX_STEPS_def)
qed

section \<open>Constant folding across a call\<close>

lemma call_keeps_constants:
  "opcode i = OP_CALL \<or> opcode i = OP_CALL_HOSTED \<Longrightarrow> \<not> is_register (operand i 0) \<Longrightarrow>
   fold_instruction lm m i = Inr (m, [i])"
  by (auto simp: fold_instruction_def Let_def KEPT_OPS_def INT_FOLDS_def FLOAT_FOLDS_def COMPARE_OPS_def
    OPERAND_0_OPS_def)

end
