(* ===== verification/Folding_Sound.thy ===== *)
theory Folding_Sound
  imports Constant_Folding Peephole
begin

text \<open>
  What the optimiser computes at compile time against what the interpreter computes at run
  time: the folding of an operator on two constants, the truth a folded branch relies on, and
  the branch opcode that replaces a comparison and the branch on its result.
\<close>

section \<open>Constants as values\<close>

definition constant_value :: "ConstantValue \<Rightarrow> Value" where
  "constant_value c = (case cv_type c of
     CV_NONE \<Rightarrow> VNil
   | CV_INT \<Rightarrow> VInt (cv_int_value c)
   | CV_FLOAT \<Rightarrow> VFloat (cv_float_value c)
   | CV_BOOL \<Rightarrow> VBool (cv_bool_value c)
   | CV_STRING \<Rightarrow> VString (cv_string_value c))"

definition numeric :: "ConstantValue \<Rightarrow> bool" where
  "numeric c \<longleftrightarrow> cv_type c = CV_INT \<or> cv_type c = CV_FLOAT"

lemma constant_value_simps [simp]:
  "constant_value (int_constant i) = VInt i" "constant_value (float_constant d) = VFloat d"
  "constant_value (bool_constant b) = VBool b"
  by (simp_all add: constant_value_def int_constant_def float_constant_def bool_constant_def no_constant_def)

lemma cv_type_simps [simp]:
  "cv_type (int_constant i) = CV_INT" "cv_type (float_constant d) = CV_FLOAT" "cv_type (bool_constant b) = CV_BOOL"
  "cv_bool_value (bool_constant b) = b"
  by (simp_all add: int_constant_def float_constant_def bool_constant_def no_constant_def)

lemma numeric_value_cases:
  assumes "numeric c"
  obtains "cv_type c = CV_INT" "constant_value c = VInt (cv_int_value c)" "as_double c = of_int64 (cv_int_value c)"
  | "cv_type c = CV_FLOAT" "constant_value c = VFloat (cv_float_value c)" "as_double c = cv_float_value c"
  using assms by (auto simp: numeric_def constant_value_def as_double_def)

section \<open>Operators\<close>

lemma fold_float_agrees:
  "op \<in> set FLOAT_FOLDS \<Longrightarrow> fold_float_op op l r = Some c \<Longrightarrow> float_binary_op op l r = Inr (constant_value c)"
  by (auto simp: FLOAT_FOLDS_def fold_float_op_def float_binary_op_def split: if_splits)

lemma fold_int_agrees:
  "op \<in> set INT_FOLDS \<Longrightarrow> fold_int_op op l r = Some c \<Longrightarrow> binary_op (VInt l) (VInt r) op = Inr (constant_value c)"
  by (auto simp: INT_FOLDS_def FLOAT_FOLDS_def fold_int_op_def int_binary_op_def int_bitwise_op_def binary_op_def
    is_string_def is_float_def get_int_def split: if_splits)

lemma float_folds_binary:
  "op \<in> set FLOAT_FOLDS \<Longrightarrow> is_float v \<or> is_float w \<Longrightarrow> \<not> is_string v \<Longrightarrow> \<not> is_string w \<Longrightarrow>
   binary_op v w op = float_binary_op op (get_double v) (get_double w)"
  by (auto simp: FLOAT_FOLDS_def binary_op_def)

lemma numeric_facts:
  assumes "numeric c"
  shows "\<not> is_string (constant_value c)" "is_float (constant_value c) \<longleftrightarrow> cv_type c = CV_FLOAT"
    "get_double (constant_value c) = as_double c" "constant_value c \<noteq> VNil"
    "cv_type c \<noteq> CV_FLOAT \<Longrightarrow> get_int (constant_value c) = Inr (cv_int_value c)"
  using assms
  by (auto elim!: numeric_value_cases simp: is_string_def is_float_def get_double_def get_int_def)

text \<open>
  The hint alone may ask for floating-point arithmetic on two integers, which the interpreter
  does in integers; everywhere else the two agree. Under that hint the folded result is the one
  the interpreter has for the two numbers as floats.
\<close>

lemma fold_arithmetic_agrees:
  assumes n: "numeric l" "numeric r" and op: "op \<in> set INT_FOLDS"
    and h: "hint = Variant_FLOAT \<Longrightarrow> cv_type l = CV_FLOAT \<or> cv_type r = CV_FLOAT"
    and f: "try_fold_binary_op op hint l r = Some c"
  shows "binary_op (constant_value l) (constant_value r) op = Inr (constant_value c)"
proof (cases "cv_type l = CV_FLOAT \<or> cv_type r = CV_FLOAT")
  case True
  then have "op \<in> set FLOAT_FOLDS" "fold_float_op op (as_double l) (as_double r) = Some c"
    using f op n by (auto simp: try_fold_binary_op_def Let_def fold_compare_op_def INT_FOLDS_def COMPARE_OPS_def split: if_splits)
  then show ?thesis
    using fold_float_agrees float_folds_binary[of op "constant_value l" "constant_value r"] True
    by (simp add: numeric_facts[OF n(1)] numeric_facts[OF n(2)])
next
  case False
  then have t: "cv_type l = CV_INT" "cv_type r = CV_INT" using n by (auto simp: numeric_def)
  then have "fold_int_op op (cv_int_value l) (cv_int_value r) = Some c"
    using f op h by (auto simp: try_fold_binary_op_def Let_def split: if_splits)
  then show ?thesis using fold_int_agrees[OF op] t by (simp add: constant_value_def)
qed

lemma fold_promoted_agrees:
  assumes t: "cv_type l = CV_INT" "cv_type r = CV_INT" and op: "op \<in> set INT_FOLDS"
    and f: "try_fold_binary_op op Variant_FLOAT l r = Some c"
  shows "binary_op (VFloat (of_int64 (cv_int_value l))) (VFloat (of_int64 (cv_int_value r))) op = Inr (constant_value c)"
proof -
  have d: "as_double l = of_int64 (cv_int_value l)" "as_double r = of_int64 (cv_int_value r)" using t by (simp_all add: as_double_def)
  have "op \<in> set FLOAT_FOLDS" "fold_float_op op (as_double l) (as_double r) = Some c"
    using f op t by (auto simp: try_fold_binary_op_def Let_def fold_compare_op_def INT_FOLDS_def COMPARE_OPS_def split: if_splits)
  then show ?thesis
    using fold_float_agrees float_folds_binary[of op "VFloat (as_double l)" "VFloat (as_double r)"]
    by (simp add: is_float_def is_string_def get_double_def d)
qed

lemma compare_not_folds: "op \<in> set COMPARE_OPS \<Longrightarrow> op \<notin> set INT_FOLDS \<and> op \<notin> set FLOAT_FOLDS"
  by (auto simp: COMPARE_OPS_def INT_FOLDS_def FLOAT_FOLDS_def)

lemma get_bool_int_of_bool [simp]: "get_bool (int_of_bool b) = b"
  by (simp add: get_bool_def int_of_bool_def)

lemma fold_comparison_agrees:
  assumes n: "numeric l" "numeric r" and op: "op \<in> set COMPARE_OPS"
    and f: "try_fold_binary_op op hint l r = Some c"
  shows "compare_op (constant_value l) (constant_value r) op = Inr (int_of_bool (cv_bool_value c))"
proof -
  have c: "fold_compare_op op l r = Some c"
    using f compare_not_folds[OF op] n by (auto simp: try_fold_binary_op_def Let_def numeric_def split: if_splits)
  show ?thesis
  proof (cases "cv_type l = CV_FLOAT \<or> cv_type r = CV_FLOAT")
    case True
    then have "c = bool_constant (select_compare op feq flt fle (as_double l) (as_double r))"
      using c op by (simp add: fold_compare_op_def)
    then show ?thesis using True numeric_facts[OF n(1)] numeric_facts[OF n(2)] by (simp add: compare_op_def)
  next
    case False
    then have "c = bool_constant (select_compare op (=) (<) (\<le>) (sint (cv_int_value l)) (sint (cv_int_value r)))"
      using c op by (simp add: fold_compare_op_def)
    then show ?thesis using False numeric_facts[OF n(1)] numeric_facts[OF n(2)] by (simp add: compare_op_def)
  qed
qed

lemma truthiness_agrees: "truthiness c = Some b \<Longrightarrow> get_bool (constant_value c) = b"
  by (auto simp: truthiness_def constant_value_def get_bool_def split: ConstantType.splits)

section \<open>The branch that replaces a comparison\<close>

definition has_nan :: "Value \<Rightarrow> bool" where
  "has_nan v \<longleftrightarrow> is_nan (get_double v)"

lemma fle_nan: "\<not> is_nan a \<Longrightarrow> \<not> is_nan b \<Longrightarrow> fle b a \<longleftrightarrow> \<not> flt a b"
  using not_flt_iff_fle by blast

definition inverted :: "IROpcode \<Rightarrow> IROpcode" where
  "inverted op = (if op = OP_CMP_EQ then OP_CMP_NEQ else if op = OP_CMP_NEQ then OP_CMP_EQ
     else if op = OP_CMP_LT then OP_CMP_GTE else if op = OP_CMP_LTE then OP_CMP_GT
     else if op = OP_CMP_GT then OP_CMP_LTE else OP_CMP_LT)"

lemma fused_opcode_inverted:
  "op \<in> set COMPARE_OPS \<Longrightarrow> fused_opcode op True = Some br \<Longrightarrow> fused_compare br = Some (inverted op)"
  by (auto simp: COMPARE_OPS_def fused_opcode_def fused_compare_def inverted_def)

lemma select_inverted:
  assumes "op \<in> set COMPARE_OPS" "le b a \<longleftrightarrow> \<not> lt a b" "le a b \<longleftrightarrow> \<not> lt b a"
  shows "select_compare (inverted op) eq lt le a b \<longleftrightarrow> \<not> select_compare op eq lt le a b"
  using assms by (auto simp: COMPARE_OPS_def select_compare_def inverted_def)

text \<open>Null against anything, and a string against a number, have no order but are comparable for equality.\<close>

lemma mixed_compare:
  assumes "v = VNil \<or> w = VNil \<or> is_string v \<noteq> is_string w"
  shows "\<exists>e. compare_op v w OP_CMP_EQ = Inr (int_of_bool e) \<and> compare_op v w OP_CMP_NEQ = Inr (int_of_bool (\<not> e))"
proof (cases "v = VNil \<or> w = VNil")
  case False
  then have "compare_op v w OP_CMP_EQ = Inr (int_of_bool False)" "compare_op v w OP_CMP_NEQ = Inr (int_of_bool True)"
    using assms by (auto simp: compare_op_def int_of_bool_def)
  then show ?thesis by auto
qed (auto simp: compare_op_def)

lemma mixed_ordering:
  assumes "v = VNil \<or> w = VNil \<or> is_string v \<noteq> is_string w" "\<not> (op = OP_CMP_EQ \<or> op = OP_CMP_NEQ)"
  shows "\<exists>e. compare_op v w op = Inl e"
  using assms by (simp add: compare_op_def) blast

lemma compare_inverted:
  assumes op: "op \<in> set COMPARE_OPS" and c: "compare_op v w op = Inr x" and n: "\<not> has_nan v" "\<not> has_nan w"
  shows "compare_op v w (inverted op) = Inr (int_of_bool (\<not> get_bool x))"
proof (cases "v = VNil \<or> w = VNil \<or> is_string v \<noteq> is_string w")
  case True
  obtain e where e: "compare_op v w OP_CMP_EQ = Inr (int_of_bool e)" "compare_op v w OP_CMP_NEQ = Inr (int_of_bool (\<not> e))"
    using mixed_compare[OF True] by blast
  have "op = OP_CMP_EQ \<or> op = OP_CMP_NEQ" using mixed_ordering[OF True, of op] c by auto
  then show ?thesis
  proof
    assume o: "op = OP_CMP_EQ"
    then have "x = int_of_bool e" using c e by simp
    then show ?thesis using e o by (simp add: inverted_def)
  next
    assume o: "op = OP_CMP_NEQ"
    then have "x = int_of_bool (\<not> e)" using c e by simp
    then show ?thesis using e o by (simp add: inverted_def)
  qed
next
  case False
  have f: "select_compare (inverted op) feq flt fle (get_double v) (get_double w) \<longleftrightarrow>
      \<not> select_compare op feq flt fle (get_double v) (get_double w)"
    by (rule select_inverted[OF op]) (use n in \<open>simp_all add: has_nan_def fle_nan\<close>)
  have s: "select_compare (inverted op) (=) (<) (\<le>) a b \<longleftrightarrow> \<not> select_compare op (=) (<) (\<le>) a b"
    for a b :: "'a :: linorder" by (rule select_inverted[OF op]) (simp_all add: not_less)
  consider "is_string v" "is_string w" | "\<not> is_string v" "\<not> is_string w" "is_float v \<or> is_float w"
    | "\<not> is_string v" "\<not> is_string w" "\<not> is_float v" "\<not> is_float w" using False by blast
  then show ?thesis
  proof cases
    case 1
    then have "x = int_of_bool (select_compare op (=) (<) (\<le>) (get_string v) (get_string w))"
      using c False by (simp add: compare_op_def)
    then show ?thesis using 1 False s[of "get_string v" "get_string w"] by (simp add: compare_op_def)
  next
    case 2
    then have "x = int_of_bool (select_compare op feq flt fle (get_double v) (get_double w))"
      using c False by (simp add: compare_op_def)
    then show ?thesis using 2 False f by (simp add: compare_op_def)
  next
    case 3
    then obtain l r where "get_int v = Inr l" "get_int w = Inr r"
      "x = int_of_bool (select_compare op (=) (<) (\<le>) (sint l) (sint r))"
      using c False by (auto simp: compare_op_def bind_res_eq_Inr)
    then show ?thesis using 3 False s[of "sint l" "sint r"] by (simp add: compare_op_def)
  qed
qed

lemma fused_inverse:
  assumes "op \<in> set COMPARE_OPS" "fused_opcode op True = Some br" "compare_op v w op = Inr x"
    "\<not> has_nan v" "\<not> has_nan w"
  shows "fused_branch_taken v w br = Inr (\<not> get_bool x)"
  using compare_inverted[OF assms(1,3-5)] fused_opcode_inverted[OF assms(1,2)]
  by (simp add: fused_branch_taken_def)

lemma fused_same:
  assumes "op \<in> set COMPARE_OPS" "fused_opcode op False = Some br" "compare_op v w op = Inr x"
  shows "fused_branch_taken v w br = Inr (get_bool x)"
  using assms by (auto simp: COMPARE_OPS_def fused_opcode_def fused_branch_taken_def fused_compare_def split: if_splits)

lemma fused_inverse_nan:
  assumes "op \<in> {OP_CMP_LT, OP_CMP_LTE, OP_CMP_GT, OP_CMP_GTE}" "fused_opcode op True = Some br" "is_nan d"
    "v = VFloat d \<or> w = VFloat d" "\<not> is_string v" "\<not> is_string w" "v \<noteq> VNil" "w \<noteq> VNil"
  shows "compare_op v w op = Inr (VInt 0) \<and> fused_branch_taken v w br = Inr False"
proof -
  have n: "is_nan (get_double v) \<or> is_nan (get_double w)" and f: "is_float v \<or> is_float w"
    using assms(3,4) by (auto simp: get_double_def is_float_def)
  have u: "\<not> flt (get_double v) (get_double w)" "\<not> fle (get_double v) (get_double w)"
    "\<not> flt (get_double w) (get_double v)" "\<not> fle (get_double w) (get_double v)"
    using n nan_unordered[of "get_double v" "get_double w"] nan_unordered[of "get_double w" "get_double v"] by auto
  have c: "compare_op v w o1 = Inr (VInt 0)" if "o1 \<in> {OP_CMP_LT, OP_CMP_LTE, OP_CMP_GT, OP_CMP_GTE}" for o1
    using that u f assms(5-8) by (auto simp: compare_op_def select_compare_def int_of_bool_def)
  have "fused_compare br = Some (inverted op)" by (rule fused_opcode_inverted[OF _ assms(2)]) (use assms(1) in \<open>auto simp: COMPARE_OPS_def\<close>)
  moreover have "inverted op \<in> {OP_CMP_LT, OP_CMP_LTE, OP_CMP_GT, OP_CMP_GTE}" using assms(1) by (auto simp: inverted_def)
  ultimately show ?thesis using c[of "inverted op"] c[OF assms(1)] by (simp add: fused_branch_taken_def get_bool_def)
qed

end
