(* ===== verification/Pass_Selection.thy ===== *)
theory Pass_Selection
  imports Pipeline
begin

text \<open>
  The choice of passes: the list an environment variable spells, the names it may contain and
  the passes that are then enabled.
\<close>

section \<open>Choosing passes\<close>

definition known_pass :: "string \<Rightarrow> bool" where
  "known_pass name \<longleftrightarrow> name \<in> set PASS_NAMES \<or> name = ''none''"

lemma pass_names_plain: "''all'' \<notin> set PASS_NAMES" "''none'' \<notin> set PASS_NAMES" "'''' \<notin> set PASS_NAMES"
  by (simp_all add: PASS_NAMES_def)

lemma collect_passes_all:
  "list_all known_pass (takeWhile (\<lambda>n. n \<noteq> ''all'') names) \<Longrightarrow> ''all'' \<in> set names \<Longrightarrow>
   collect_passes names chosen = Inr []"
  by (induction names arbitrary: chosen) (auto simp: known_pass_def split: if_splits)

lemma collect_passes_some:
  "list_all known_pass names \<Longrightarrow> ''all'' \<notin> set names \<Longrightarrow>
   \<exists>ps. collect_passes names chosen = Inr ps \<and> set ps = insert '''' (set chosen \<union> (set names - {''none''}))"
proof (induction names arbitrary: chosen)
  case (Cons n names)
  show ?case
  proof (cases "n = ''none''")
    case True
    then show ?thesis using Cons.IH[of chosen] Cons.prems by auto
  next
    case False
    then show ?thesis using Cons.IH[of "List.insert n chosen"] Cons.prems by (auto simp: known_pass_def)
  qed
qed simp

lemma collect_passes_unknown:
  "\<not> list_all known_pass (takeWhile (\<lambda>n. n \<noteq> ''all'') names) \<Longrightarrow> collect_passes names chosen = opt_error UnknownPass"
  by (induction names arbitrary: chosen) (auto simp: known_pass_def split: if_splits)

lemma collected_known:
  assumes "set_enabled_passes opt names = Inr opt'"
  shows "list_all known_pass (takeWhile (\<lambda>n. n \<noteq> ''all'') names)"
  by (rule ccontr, drule collect_passes_unknown[where chosen = "[]"]) (use assms in \<open>simp add: set_enabled_passes_def\<close>)

lemma enabled_after:
  assumes "set_enabled_passes opt names = Inr opt'" "p \<in> set PASS_NAMES"
  shows "is_pass_enabled opt' p \<longleftrightarrow> ''all'' \<in> set names \<or> p \<in> set names"
proof (cases "''all'' \<in> set names")
  case True
  have k: "list_all known_pass (takeWhile (\<lambda>n. n \<noteq> ''all'') names)"
    by (rule collected_known[OF assms(1)])
  show ?thesis using collect_passes_all[OF k True, of "[]"] assms(1) True
    by (auto simp: set_enabled_passes_def is_pass_enabled_def)
next
  case False
  then have t: "takeWhile (\<lambda>n. n \<noteq> ''all'') names = names" by (auto simp only: takeWhile_eq_all_conv)
  have k: "list_all known_pass names"
    using collected_known[OF assms(1)] unfolding t .
  obtain ps where ps: "collect_passes names [] = Inr ps" "set ps = insert '''' (set names - {''none''})"
    using collect_passes_some[OF k False, of "[]"] by auto
  then have o: "opt' = opt\<lparr>m_enabled_passes := ps\<rparr>" using assms(1) by (simp add: set_enabled_passes_def)
  have "ps \<noteq> []" using ps(2) by fastforce
  then have "is_pass_enabled opt' p \<longleftrightarrow> p \<in> set ps" unfolding o is_pass_enabled_def by simp
  moreover have "p \<noteq> ''''" "p \<noteq> ''none''" using assms(2) pass_names_plain by blast+
  ultimately show ?thesis using False ps(2) by blast
qed

lemma set_enabled_error:
  "(\<exists>e. set_enabled_passes opt names = Inl e) \<longleftrightarrow>
   \<not> list_all known_pass (takeWhile (\<lambda>n. n \<noteq> ''all'') names)"
proof -
  have "\<exists>r. collect_passes names [] = Inr r" if k: "list_all known_pass (takeWhile (\<lambda>n. n \<noteq> ''all'') names)"
  proof (cases "''all'' \<in> set names")
    case True
    then show ?thesis using collect_passes_all[OF k] by blast
  next
    case False
    then have "takeWhile (\<lambda>n. n \<noteq> ''all'') names = names" by (auto simp only: takeWhile_eq_all_conv)
    then have "list_all known_pass names" using k by (simp only:)
    then show ?thesis using collect_passes_some[of names "[]"] False by blast
  qed
  then show ?thesis using collect_passes_unknown[of names "[]"] by (fastforce simp: set_enabled_passes_def)
qed

section \<open>The list of the environment\<close>

definition plain_name :: "string \<Rightarrow> bool" where
  "plain_name s \<longleftrightarrow> s \<noteq> [] \<and> list_all (\<lambda>c. c \<noteq> CHR '','' \<and> c \<noteq> CHR '' '' \<and> c \<noteq> CHR 0x09) s"

fun join_passes :: "string list \<Rightarrow> string" where
  "join_passes [] = []"
| "join_passes [n] = n"
| "join_passes (n # m # ns) = n @ [CHR '',''] @ join_passes (m # ns)"

lemma split_plain:
  "list_all (\<lambda>c. c \<noteq> CHR '','' \<and> c \<noteq> CHR '' '' \<and> c \<noteq> CHR 0x09) s \<Longrightarrow>
   split_passes (s @ rest) current = split_passes rest (current @ s)"
  by (induction s arbitrary: current) auto

lemma split_join: "list_all plain_name names \<Longrightarrow> split_passes (join_passes names) [] = names"
proof (induction names rule: join_passes.induct)
  case (2 n)
  then show ?case using split_plain[of n "[]" "[]"] by (simp add: plain_name_def)
next
  case (3 n m ns)
  then show ?case by (simp add: split_plain plain_name_def)
qed simp

lemma split_blanks: "split_passes (filter (\<lambda>c. c \<noteq> CHR '' '' \<and> c \<noteq> CHR 0x09) s) current = split_passes s current"
  by (induction s arbitrary: current) auto

end
