(* ===== verification/Byte_Stream.thy ===== *)
theory Byte_Stream
  imports Globals
begin

text \<open>
  The binary encoding the metadata blobs share: little-endian scalars, strings and blobs with a
  32-bit length, and the bounds-checked cursor that reads them (\<open>write_scalar\<close>, \<open>write_string\<close>,
  \<open>Reader\<close> of \<^verbatim>\<open>function_signature.cpp\<close>, \<^verbatim>\<open>gdsmeta.cpp\<close>, \<^verbatim>\<open>property_signature.cpp\<close> and
  \<^verbatim>\<open>debug_layout.cpp\<close>, which each have their own copy).

  A decoder is a function on the cursor. As in the code, reading past the end does not stop it:
  the cursor's flag drops, every later read gives zero, and the decoder returns false at its next
  check. \<open>None\<close> is that return. Offsets are naturals: the sizes of vectors in memory never wrap.

  \<open>reads g bs v\<close> says that the decoder \<open>g\<close>, standing before the bytes \<open>bs\<close>, takes them and gives
  \<open>v\<close>. The locale \<open>record_codec\<close> is the contract between the two halves of a record's encoding,
  with the encoding of a counted list proved once for every record type.
\<close>

section \<open>Scalars\<close>

type_synonym byte = uint8
type_synonym uint16 = "16 word"

primrec le_bytes :: "nat \<Rightarrow> 'a::len word \<Rightarrow> byte list" where
  "le_bytes 0 w = []"
| "le_bytes (Suc n) w = ucast w # le_bytes n (drop_bit 8 w)"

primrec le_word :: "byte list \<Rightarrow> 'a::len word" where
  "le_word [] = 0"
| "le_word (b # bs) = ucast b OR push_bit 8 (le_word bs)"

lemma length_le_bytes [simp]: "length (le_bytes n w) = n"
  by (induction n arbitrary: w) auto

lemma nth_le_bytes: "i < n \<Longrightarrow> le_bytes n w ! i = ucast (drop_bit (8 * i) w)"
  by (induction n arbitrary: w i) (auto simp: nth_Cons less_Suc_eq_0_disj add.commute split: nat.split)

lemma bit_byte: "bit (b :: byte) k \<Longrightarrow> k < 8"
  using bit_imp_le_length[of b k] by simp

lemma bit_le_word:
  "bit (le_word bs :: 'a::len word) k \<longleftrightarrow> k < LENGTH('a) \<and> k < 8 * length bs \<and> bit (bs ! (k div 8)) (k mod 8)"
proof (induction bs arbitrary: k)
  case (Cons b bs)
  show ?case
  proof (cases "k < 8")
    case True
    then show ?thesis by (auto simp: bit_simps)
  next
    case False
    then obtain j where "k = 8 + j" by (metis le_add_diff_inverse not_less)
    moreover have "(8 + j) div 8 = Suc (j div 8)" by simp
    ultimately show ?thesis using Cons.IH[of j] bit_byte[of b k] by (auto simp: bit_simps)
  qed
qed simp

lemma le_word_le_bytes [simp]: "LENGTH('a) \<le> 8 * n \<Longrightarrow> le_word (le_bytes n w) = (w :: 'a::len word)"
  by (rule bit_word_eqI) (auto simp: bit_le_word nth_le_bytes bit_simps less_mult_imp_div_less mult.commute)

lemma le_bytes_le_word:
  assumes "8 * length bs \<le> LENGTH('a)"
  shows "le_bytes (length bs) (le_word bs :: 'a::len word) = bs"
proof (rule nth_equalityI)
  fix i assume "i < length (le_bytes (length bs) (le_word bs :: 'a word))"
  then have i: "i < length bs" by simp
  show "le_bytes (length bs) (le_word bs :: 'a word) ! i = bs ! i"
  proof (rule bit_word_eqI)
    fix k assume "k < LENGTH(8)"
    then have k: "k < 8" by simp
    then have "8 * i + k < 8 * length bs" using i by linarith
    then show "bit (le_bytes (length bs) (le_word bs :: 'a word) ! i) k = bit (bs ! i) k"
      using i k assms by (simp add: nth_le_bytes bit_simps bit_le_word)
  qed
qed simp

section \<open>Writing\<close>

definition byte_of_char :: "char \<Rightarrow> byte" where
  "byte_of_char c = word_of_nat (of_char c)"

definition char_of_byte :: "byte \<Rightarrow> char" where
  "char_of_byte b = char_of (unat b)"

lemma char_of_byte_of_char [simp]: "char_of_byte (byte_of_char c) = c"
proof -
  have "(of_char c :: nat) < 256" by simp
  then show ?thesis by (simp add: char_of_byte_def byte_of_char_def unat_of_nat)
qed

text \<open>\<open>uint32_t(v.size())\<close> keeps the low 32 bits.\<close>

definition write_u32 :: "uint32 \<Rightarrow> byte list" where
  "write_u32 w = le_bytes 4 w"

definition write_count :: "'a list \<Rightarrow> byte list" where
  "write_count xs = write_u32 (word_of_nat (length xs))"

definition write_u8 :: "uint8 \<Rightarrow> byte list" where
  "write_u8 w = le_bytes 1 w"

definition write_flag :: "bool \<Rightarrow> byte list" where
  "write_flag b = write_u8 (if b then 1 else 0)"

definition write_u16 :: "uint16 \<Rightarrow> byte list" where
  "write_u16 w = le_bytes 2 w"

definition write_u64 :: "int64 \<Rightarrow> byte list" where
  "write_u64 w = le_bytes 8 w"

definition write_string :: "string \<Rightarrow> byte list" where
  "write_string s = write_count s @ map byte_of_char s"

definition write_blob :: "byte list \<Rightarrow> byte list" where
  "write_blob bs = write_count bs @ bs"

section \<open>Reading\<close>

record Reader =
  rd_data :: "byte list"
  rd_offset :: nat
  rd_ok :: bool

definition rd_size :: "Reader \<Rightarrow> nat" where
  "rd_size r = length (rd_data r)"

definition open_reader :: "byte list \<Rightarrow> Reader" where
  "open_reader data = \<lparr>rd_data = data, rd_offset = 0, rd_ok = True\<rparr>"

type_synonym 'a rd = "Reader \<Rightarrow> ('a \<times> Reader) option"

definition rd_return :: "'a \<Rightarrow> 'a rd" where
  "rd_return v = (\<lambda>r. Some (v, r))"

definition rd_bind :: "'a rd \<Rightarrow> ('a \<Rightarrow> 'b rd) \<Rightarrow> 'b rd" where
  "rd_bind g h = (\<lambda>r. case g r of None \<Rightarrow> None | Some (v, r') \<Rightarrow> h v r')"

text \<open>\<open>if (!c) return false\<close>, the condition looking at the cursor.\<close>

definition rd_check :: "(Reader \<Rightarrow> bool) \<Rightarrow> unit rd" where
  "rd_check c = (\<lambda>r. if c r then Some ((), r) else None)"

text \<open>The bytes under the cursor, or \<open>missing\<close> and the flag dropped when they are not all there.\<close>

definition rd_take :: "nat \<Rightarrow> byte list \<Rightarrow> byte list rd" where
  "rd_take n missing = (\<lambda>r. Some
     (if \<not> rd_ok r \<or> rd_size r < rd_offset r + n then (missing, r\<lparr>rd_ok := False\<rparr>)
      else (take n (drop (rd_offset r) (rd_data r)), r\<lparr>rd_offset := rd_offset r + n\<rparr>)))"

definition rd_scalar :: "nat \<Rightarrow> 'a::len word rd" where
  "rd_scalar n = rd_bind (rd_take n (replicate n 0)) (\<lambda>bs. rd_return (le_word bs))"

definition rd_u8 :: "uint8 rd" where
  "rd_u8 = rd_scalar 1"

definition rd_u16 :: "uint16 rd" where
  "rd_u16 = rd_scalar 2"

definition rd_u32 :: "uint32 rd" where
  "rd_u32 = rd_scalar 4"

definition rd_u64 :: "int64 rd" where
  "rd_u64 = rd_scalar 8"

definition rd_string :: "string rd" where
  "rd_string = rd_bind rd_u32 (\<lambda>n. rd_bind (rd_take (unat n) []) (\<lambda>bs. rd_return (map char_of_byte bs)))"

definition rd_blob :: "byte list rd" where
  "rd_blob = rd_bind rd_u32 (\<lambda>n. rd_take (unat n) [])"

text \<open>A flag byte above one drops the cursor's flag in the later sections.\<close>

definition rd_flag :: "bool rd" where
  "rd_flag = rd_bind rd_u8 (\<lambda>v r. Some (v \<noteq> 0, if 1 < v then r\<lparr>rd_ok := False\<rparr> else r))"

text \<open>A section starts with its tag and the number of its records.\<close>

definition rd_expect :: "uint32 \<Rightarrow> unit rd" where
  "rd_expect tag = rd_bind rd_u32 (\<lambda>w. rd_check (\<lambda>_. w = tag))"

definition rd_expect_count :: "nat \<Rightarrow> unit rd" where
  "rd_expect_count n = rd_bind rd_u32 (\<lambda>c. rd_check (\<lambda>r. rd_ok r \<and> unat c = n))"

definition rd_expect_size :: "nat \<Rightarrow> unit rd" where
  "rd_expect_size n = rd_bind rd_u32 (\<lambda>c. rd_check (\<lambda>_. unat c = n))"

text \<open>The cursor of the property table and the debug table refuses strings above a limit.\<close>

definition rd_string_upto :: "nat \<Rightarrow> string rd" where
  "rd_string_upto limit = rd_bind rd_u32 (\<lambda>n. if limit < unat n then (\<lambda>r. Some ([], r\<lparr>rd_ok := False\<rparr>))
     else rd_bind (rd_take (unat n) []) (\<lambda>bs. rd_return (map char_of_byte bs)))"

text \<open>A counted loop, and a loop over the records already read that completes each of them.\<close>

primrec rd_repeat :: "nat \<Rightarrow> 'a rd \<Rightarrow> 'a list rd" where
  "rd_repeat 0 g = rd_return []"
| "rd_repeat (Suc n) g = rd_bind g (\<lambda>x. rd_bind (rd_repeat n g) (\<lambda>xs. rd_return (x # xs)))"

primrec rd_each :: "('a \<Rightarrow> 'b rd) \<Rightarrow> 'a list \<Rightarrow> 'b list rd" where
  "rd_each f [] = rd_return []"
| "rd_each f (x # xs) = rd_bind (f x) (\<lambda>y. rd_bind (rd_each f xs) (\<lambda>ys. rd_return (y # ys)))"

definition rd_at_end :: "Reader \<Rightarrow> bool" where
  "rd_at_end r \<longleftrightarrow> rd_offset r = rd_size r"

text \<open>\<open>if (reader.offset == size) \<dots>; else \<dots>\<close>\<close>

definition rd_if_end :: "'a rd \<Rightarrow> 'a rd \<Rightarrow> 'a rd" where
  "rd_if_end g h = (\<lambda>r. if rd_at_end r then g r else h r)"

text \<open>\<open>if (reader.ok && reader.offset != size) \<dots>\<close>, for the optional sections.\<close>

definition rd_if_more :: "'a rd \<Rightarrow> 'a rd \<Rightarrow> 'a rd" where
  "rd_if_more g h = (\<lambda>r. if rd_ok r \<and> \<not> rd_at_end r then g r else h r)"

definition rd_run :: "'a rd \<Rightarrow> byte list \<Rightarrow> 'a option" where
  "rd_run g data = map_option fst (g (open_reader data))"

section \<open>What a decoder reads\<close>

abbreviation cursor :: "byte list \<Rightarrow> byte list \<Rightarrow> Reader" where
  "cursor pre rest \<equiv> \<lparr>rd_data = pre @ rest, rd_offset = length pre, rd_ok = True\<rparr>"

definition reads :: "'a rd \<Rightarrow> byte list \<Rightarrow> 'a \<Rightarrow> bool" where
  "reads g bs v \<longleftrightarrow> (\<forall>pre rest. g (cursor pre (bs @ rest)) = Some (v, cursor (pre @ bs) rest))"

text \<open>The same when the bytes are the last of the blob.\<close>

definition reads_last :: "'a rd \<Rightarrow> byte list \<Rightarrow> 'a \<Rightarrow> bool" where
  "reads_last g bs v \<longleftrightarrow> (\<forall>pre. g (cursor pre bs) = Some (v, cursor (pre @ bs) []))"

lemma reads_imp_last: "reads g bs v \<Longrightarrow> reads_last g bs v"
  unfolding reads_def reads_last_def by (metis append_Nil2)

lemma reads_last_run: "reads_last g bs v \<Longrightarrow> rd_run g bs = Some v"
  unfolding reads_last_def rd_run_def open_reader_def by (metis append_Nil fst_conv list.size(3) option.simps(9))

lemma reads_return: "reads (rd_return v) [] v"
  by (simp add: reads_def rd_return_def)

lemma reads_bind:
  assumes "reads g as x" "reads (h x) bs y" shows "reads (rd_bind g h) (as @ bs) y"
proof -
  have "g (cursor pre ((as @ bs) @ rest)) = Some (x, cursor (pre @ as) (bs @ rest))" for pre rest
    using assms(1) unfolding reads_def by (metis append_assoc)
  moreover have "h x (cursor (pre @ as) (bs @ rest)) = Some (y, cursor ((pre @ as) @ bs) rest)" for pre rest
    using assms(2) unfolding reads_def by blast
  ultimately show ?thesis by (simp add: reads_def rd_bind_def)
qed

lemma reads_last_bind:
  assumes "reads g as x" "reads_last (h x) bs y" shows "reads_last (rd_bind g h) (as @ bs) y"
proof -
  have "g (cursor pre (as @ bs)) = Some (x, cursor (pre @ as) bs)" for pre
    using assms(1) unfolding reads_def by blast
  moreover have "h x (cursor (pre @ as) bs) = Some (y, cursor ((pre @ as) @ bs) [])" for pre
    using assms(2) unfolding reads_last_def by blast
  ultimately show ?thesis by (simp add: reads_last_def rd_bind_def)
qed

text \<open>A step that takes no bytes.\<close>

lemma reads_bind_none: "reads g [] x \<Longrightarrow> reads (h x) bs y \<Longrightarrow> reads (rd_bind g h) bs y"
  using reads_bind[of g "[]"] by simp

lemma reads_last_bind_none: "reads g [] x \<Longrightarrow> reads_last (h x) bs y \<Longrightarrow> reads_last (rd_bind g h) bs y"
  using reads_last_bind[of g "[]"] by simp

lemma reads_map: "reads g bs x \<Longrightarrow> h x = rd_return y \<Longrightarrow> reads (rd_bind g h) bs y"
  using reads_bind[of g bs x h "[]" y] reads_return[of y] by simp

lemma reads_check: "c \<Longrightarrow> reads (rd_check (\<lambda>r. rd_ok r \<and> c)) [] ()" "reads (rd_check rd_ok) [] ()"
  "c \<Longrightarrow> reads (rd_check (\<lambda>r. c)) [] ()"
  by (simp_all add: reads_def rd_check_def)

lemma reads_last_end: "reads_last (rd_check (\<lambda>r. rd_ok r \<and> rd_at_end r)) [] ()"
  by (simp add: reads_last_def rd_check_def rd_at_end_def rd_size_def)

lemma reads_take: "length bs = n \<Longrightarrow> reads (rd_take n m) bs bs"
  by (simp add: reads_def rd_take_def rd_size_def)

lemma reads_scalar: "LENGTH('a) \<le> 8 * n \<Longrightarrow> reads (rd_scalar n) (le_bytes n w) (w :: 'a::len word)"
  unfolding rd_scalar_def by (rule reads_map[OF reads_take]) simp_all

lemma reads_u32: "reads rd_u32 (write_u32 w) w"
  by (simp add: rd_u32_def write_u32_def reads_scalar)

lemma reads_u16: "reads rd_u16 (write_u16 w) w"
  by (simp add: rd_u16_def write_u16_def reads_scalar)

lemma reads_u8: "reads rd_u8 (write_u8 w) w"
  by (simp add: rd_u8_def write_u8_def reads_scalar del: One_nat_def le_bytes.simps)

lemma reads_flag: "reads rd_u8 (write_flag b) (if b then 1 else 0)"
  by (simp add: write_flag_def reads_u8)

lemma reads_u64: "reads rd_u64 (write_u64 w) w"
  by (simp add: rd_u64_def write_u64_def reads_scalar)

lemma reads_count: "reads rd_u32 (write_count xs) (word_of_nat (length xs))"
  by (simp add: write_count_def reads_u32)

lemma unat_count: "n < 2 ^ 32 \<Longrightarrow> unat (word_of_nat n :: uint32) = n"
  by (simp add: unat_of_nat)

lemma reads_string:
  assumes "length s < 2 ^ 32" shows "reads rd_string (write_string s) s"
proof -
  have "reads (rd_bind (rd_take (unat (word_of_nat (length s) :: uint32)) []) (\<lambda>bs. rd_return (map char_of_byte bs)))
      (map byte_of_char s) s"
    by (rule reads_map[OF reads_take]) (use assms in \<open>simp_all add: unat_count o_def\<close>)
  then show ?thesis unfolding rd_string_def write_string_def by (rule reads_bind[OF reads_count])
qed

lemma reads_string_upto:
  assumes "length s \<le> limit" "limit < 2 ^ 32" shows "reads (rd_string_upto limit) (write_string s) s"
proof -
  have n: "unat (word_of_nat (length s) :: uint32) = length s" using assms by (intro unat_count) simp
  have "reads (rd_bind (rd_take (length s) []) (\<lambda>bs. rd_return (map char_of_byte bs))) (map byte_of_char s) s"
    by (rule reads_map[OF reads_take]) (simp_all add: o_def)
  then show ?thesis unfolding rd_string_upto_def write_string_def
    using assms by (intro reads_bind[OF reads_count]) (simp add: n)
qed

lemma reads_blob:
  assumes "length bs < 2 ^ 32" shows "reads rd_blob (write_blob bs) bs"
  unfolding rd_blob_def write_blob_def
  by (rule reads_bind[OF reads_count]) (use assms in \<open>simp add: reads_take unat_count\<close>)

lemma reads_rd_flag: "reads rd_flag (write_flag b) b"
  unfolding rd_flag_def using reads_bind[OF reads_flag[of b], of _ "[]" b] by (simp add: reads_def)

lemma reads_expect: "reads (rd_expect tag) (write_u32 tag) ()"
  unfolding rd_expect_def
  using reads_bind[OF reads_u32[of tag], of "\<lambda>w. rd_check (\<lambda>_. w = tag)" "[]" "()"] by (simp add: reads_check)

lemma reads_expect_count:
  assumes "length xs < 2 ^ 32" "n = length xs"
  shows "reads (rd_expect_count n) (write_count xs) ()" "reads (rd_expect_size n) (write_count xs) ()"
  unfolding rd_expect_count_def rd_expect_size_def
  using reads_bind[OF reads_count[of xs], of "\<lambda>c. rd_check (\<lambda>r. rd_ok r \<and> unat c = n)" "[]" "()"]
    reads_bind[OF reads_count[of xs], of "\<lambda>c. rd_check (\<lambda>_. unat c = n)" "[]" "()"] assms unat_count[of n]
  by (simp_all add: reads_check)

lemma reads_if_end: "reads h bs v \<Longrightarrow> bs \<noteq> [] \<Longrightarrow> reads (rd_if_end g h) bs v"
  by (simp add: reads_def rd_if_end_def rd_at_end_def rd_size_def)

lemma reads_last_if_end: "reads_last h bs v \<Longrightarrow> bs \<noteq> [] \<Longrightarrow> reads_last (rd_if_end g h) bs v"
  by (simp add: reads_last_def rd_if_end_def rd_at_end_def rd_size_def)

lemma reads_last_if_more:
  "(bs \<noteq> [] \<Longrightarrow> reads_last g bs v) \<Longrightarrow> (bs = [] \<Longrightarrow> reads_last h bs v) \<Longrightarrow> reads_last (rd_if_more g h) bs v"
  by (cases "bs = []") (simp_all add: reads_last_def rd_if_more_def rd_at_end_def rd_size_def)

lemma reads_repeat:
  assumes "map_res enc xs = Inr bss" "\<And>x bs. x \<in> set xs \<Longrightarrow> enc x = Inr bs \<Longrightarrow> reads g bs (wire x)"
  shows "reads (rd_repeat (length xs) g) (concat bss) (map wire xs)"
  using assms
proof (induction xs arbitrary: bss)
  case (Cons x xs)
  then obtain bs bss' where bs: "enc x = Inr bs" "map_res enc xs = Inr bss'" "bss = bs # bss'" by (auto simp: res_simps)
  have "reads (rd_bind (rd_repeat (length xs) g) (\<lambda>ys. rd_return (wire x # ys))) (concat bss') (map wire (x # xs))"
    by (rule reads_map[OF Cons.IH[OF bs(2)]]) (use Cons.prems(2) in auto)
  then show ?case using reads_bind[OF Cons.prems(2)[OF _ bs(1)]] bs(3) by simp
qed (simp add: reads_return)

lemma map_res_total [simp]: "map_res (\<lambda>x. Inr (e x)) xs = Inr (map e xs)"
  by (induction xs) auto

lemma reads_each:
  "list_all2 (\<lambda>x y. reads (f x) (enc y) (wire y)) xs ys \<Longrightarrow>
   reads (rd_each f xs) (concat (map enc ys)) (map wire ys)"
proof (induction xs ys rule: list_all2_induct)
  case (Cons x xs y ys)
  have "reads (rd_bind (rd_each f xs) (\<lambda>zs. rd_return (wire y # zs))) (concat (map enc ys)) (map wire (y # ys))"
    by (rule reads_map[OF Cons.IH]) simp
  then show ?case using reads_bind[OF Cons.hyps(1)] by simp
qed (simp add: reads_return)

text \<open>A count that may not exceed the size of the blob, followed by at least that many bytes.\<close>

lemma reads_checked_count:
  assumes "reads (h ()) bs v" "unat n \<le> length bs"
  shows "reads (rd_bind (rd_check (\<lambda>r. rd_ok r \<and> unat n \<le> rd_size r)) h) bs v"
proof -
  have "rd_check (\<lambda>r. rd_ok r \<and> unat n \<le> rd_size r) (cursor pre (bs @ rest)) = Some ((), cursor pre (bs @ rest))"
    for pre rest using assms(2) by (simp add: rd_check_def rd_size_def)
  then show ?thesis using assms(1) by (simp add: reads_def rd_bind_def)
qed

lemma reads_last_checked_count:
  assumes "reads_last (h ()) bs v" "unat n \<le> length bs"
  shows "reads_last (rd_bind (rd_check (\<lambda>r. rd_ok r \<and> unat n \<le> rd_size r)) h) bs v"
proof -
  have "rd_check (\<lambda>r. rd_ok r \<and> unat n \<le> rd_size r) (cursor pre bs) = Some ((), cursor pre bs)"
    for pre using assms(2) by (simp add: rd_check_def rd_size_def)
  then show ?thesis using assms(1) by (simp add: reads_last_def rd_bind_def)
qed

lemma length_concat_ge:
  "map_res enc xs = Inr bss \<Longrightarrow> (\<And>x bs. enc x = Inr bs \<Longrightarrow> bs \<noteq> []) \<Longrightarrow> length xs \<le> length (concat bss)"
proof (induction xs arbitrary: bss)
  case (Cons x xs)
  then obtain bs bss' where bs: "enc x = Inr bs" "map_res enc xs = Inr bss'" "bss = bs # bss'" by (auto simp: res_simps)
  then have "length xs \<le> length (concat bss')" "0 < length bs" using Cons.IH Cons.prems(2) by auto
  then show ?case using bs(3) by (simp del: length_greater_0_conv)
qed simp

lemma write_lengths [simp]:
  "length (write_u8 w) = 1" "length (write_flag b) = 1" "length (write_u16 x) = 2" "length (write_u32 y) = 4"
  "length (write_count xs) = 4" "length (write_u64 z) = 8" "length (write_string s) = 4 + length s"
  "length (write_blob bs) = 4 + length bs"
  by (simp_all add: write_u8_def write_flag_def write_u16_def write_u32_def write_count_def write_u64_def
    write_string_def write_blob_def)

lemma write_nonempty [simp]:
  "write_u8 w \<noteq> []" "write_flag b \<noteq> []" "write_u32 y \<noteq> []" "write_count xs \<noteq> []" "write_string s \<noteq> []"
  by (simp_all flip: length_greater_0_conv)

section \<open>What a decoder accepts\<close>

definition gives :: "'a rd \<Rightarrow> ('a \<Rightarrow> bool) \<Rightarrow> bool" where
  "gives g P \<longleftrightarrow> (\<forall>r v r'. g r = Some (v, r') \<longrightarrow> P v)"

lemma gives_run: "gives g P \<Longrightarrow> rd_run g data = Some v \<Longrightarrow> P v"
  by (auto simp: gives_def rd_run_def)

lemma gives_return: "P v \<Longrightarrow> gives (rd_return v) P"
  by (simp add: gives_def rd_return_def)

lemma gives_bind: "gives g Q \<Longrightarrow> (\<And>x. Q x \<Longrightarrow> gives (h x) P) \<Longrightarrow> gives (rd_bind g h) P"
  unfolding gives_def rd_bind_def by (auto split: option.splits prod.splits) blast

lemma gives_after: "(\<And>x. gives (h x) P) \<Longrightarrow> gives (rd_bind g h) P"
  by (rule gives_bind[where Q = "\<lambda>_. True"]) (auto simp: gives_def)

lemma gives_check: "(c \<Longrightarrow> gives (h ()) P) \<Longrightarrow> gives (rd_bind (rd_check (\<lambda>r. rd_ok r \<and> c)) h) P"
  "(c \<Longrightarrow> gives (h ()) P) \<Longrightarrow> gives (rd_bind (rd_check (\<lambda>_. c)) h) P"
  by (auto simp: gives_def rd_bind_def rd_check_def split: if_splits)

lemma gives_if:
  "gives g P \<Longrightarrow> gives h P \<Longrightarrow> gives (rd_if_end g h) P" "gives g P \<Longrightarrow> gives h P \<Longrightarrow> gives (rd_if_more g h) P"
  by (auto simp: gives_def rd_if_end_def rd_if_more_def split: if_splits)

lemma gives_repeat: "gives g P \<Longrightarrow> gives (rd_repeat n g) (list_all P)"
proof (induction n)
  case (Suc n)
  show ?case unfolding rd_repeat.simps
    by (rule gives_bind[OF Suc.prems], rule gives_bind[OF Suc.IH[OF Suc.prems]], rule gives_return) simp
qed (simp add: gives_return)

lemma gives_repeat_length: "gives (rd_repeat n g) (\<lambda>xs. length xs = n)"
proof (induction n)
  case (Suc n)
  show ?case unfolding rd_repeat.simps
    by (rule gives_after, rule gives_bind[OF Suc.IH], rule gives_return) simp
qed (simp add: gives_return)

lemma gives_conj: "gives g P \<Longrightarrow> gives g Q \<Longrightarrow> gives g (\<lambda>x. P x \<and> Q x)"
  by (auto simp: gives_def)

lemma gives_each:
  "list_all P xs \<Longrightarrow> (\<And>x. P x \<Longrightarrow> gives (f x) Q) \<Longrightarrow> gives (rd_each f xs) (\<lambda>ys. list_all Q ys \<and> length ys = length xs)"
proof (induction xs)
  case (Cons x xs)
  have x: "gives (f x) Q" and xs: "gives (rd_each f xs) (\<lambda>ys. list_all Q ys \<and> length ys = length xs)"
    using Cons by simp_all
  show ?case unfolding rd_each.simps
    by (rule gives_bind[OF x], rule gives_bind[OF xs], rule gives_return) simp
qed (simp add: gives_return)

section \<open>The contract of a record\<close>

text \<open>\<open>wire\<close> is the record as the other side sees it, without the fields that are not sent.\<close>

locale record_codec =
  fixes valid :: "'a \<Rightarrow> bool"
    and enc :: "'a \<Rightarrow> byte list res"
    and dec :: "'a rd"
    and wire :: "'a \<Rightarrow> 'a"
  assumes round: "valid x \<Longrightarrow> enc x = Inr bs \<Longrightarrow> reads dec bs (wire x)"
    and sent: "enc x = Inr bs \<Longrightarrow> bs \<noteq> []"
begin

lemma list_round:
  "list_all valid xs \<Longrightarrow> map_res enc xs = Inr bss \<Longrightarrow> reads (rd_repeat (length xs) dec) (concat bss) (map wire xs)"
  by (rule reads_repeat) (auto simp: list_all_iff round)

lemma list_size: "map_res enc xs = Inr bss \<Longrightarrow> length xs \<le> length (concat bss)"
  using length_concat_ge sent by blast

lemma counted:
  assumes "list_all valid xs" "length xs < 2 ^ 32" "map_res enc xs = Inr bss"
  shows "reads (rd_bind rd_u32 (\<lambda>n. rd_bind (rd_check (\<lambda>r. rd_ok r \<and> unat n \<le> rd_size r)) (\<lambda>_. rd_repeat (unat n) dec)))
    (write_count xs @ concat bss) (map wire xs)"
proof (rule reads_bind[OF reads_count], rule reads_checked_count)
  have n: "unat (word_of_nat (length xs) :: uint32) = length xs" using assms(2) by (rule unat_count)
  show "reads (rd_repeat (unat (word_of_nat (length xs) :: uint32)) dec) (concat bss) (map wire xs)"
    unfolding n by (rule list_round[OF assms(1,3)])
  show "unat (word_of_nat (length xs) :: uint32) \<le> length (concat bss)" unfolding n by (rule list_size[OF assms(3)])
qed

end

end
