(* ===== verification/Signatures.thy ===== *)
theory Signatures
  imports Byte_Stream
begin

text \<open>
  The function table published beside the program (\<^verbatim>\<open>function_signature.h\<close>,
  \<^verbatim>\<open>function_signature.cpp\<close>): its records, their encoding with the sections appended over time,
  and the decoder. An \<open>int32_t\<close> is kept as its 32 bits and read with \<open>sint\<close>. \<open>std::get\<close> of
  an alternative the variant does not hold throws, so an encoder is fallible.
\<close>

section \<open>Records\<close>

record DeclaredType =
  dt_name :: string
  dt_mask :: int64
  dt_nominal :: bool

definition no_declared_type :: DeclaredType where
  "no_declared_type = \<lparr>dt_name = [], dt_mask = 0, dt_nominal = False\<rparr>"

datatype DefaultKind =
    DK_NONE | DK_NIL | DK_INT | DK_FLOAT | DK_BOOL | DK_STRING | DK_EMPTY_ARRAY | DK_EMPTY_DICT

datatype wire_value = WInt int64 | WFloat double | WString string | WBool bool

definition ANY_TYPE :: uint32 where
  "ANY_TYPE = - 1"

record FunctionParameter =
  fp_declared_type :: DeclaredType
  fp_name :: string
  fp_type :: uint32
  fp_class_name :: string
  fp_default_kind :: DefaultKind
  fp_default_value :: wire_value
  fp_default_function :: string

definition new_parameter :: FunctionParameter where
  "new_parameter = \<lparr>fp_declared_type = no_declared_type, fp_name = [], fp_type = ANY_TYPE, fp_class_name = [],
     fp_default_kind = DK_NONE, fp_default_value = WInt 0, fp_default_function = []\<rparr>"

definition parameter_optional :: "FunctionParameter \<Rightarrow> bool" where
  "parameter_optional p = (fp_default_kind p \<noteq> DK_NONE \<or> fp_default_function p \<noteq> [])"

record FunctionSignature =
  fs_declared_return :: DeclaredType
  fs_has_declaration :: bool
  fs_is_abstract :: bool
  fs_requires_host_hook :: bool
  fs_name :: string
  fs_parameters :: "FunctionParameter list"
  fs_return_type :: uint32
  fs_return_class_name :: string
  fs_required_arguments :: nat
  fs_line :: uint32
  fs_description :: string
  fs_is_coroutine :: bool
  fs_is_static :: bool

definition new_signature :: FunctionSignature where
  "new_signature = \<lparr>fs_declared_return = no_declared_type, fs_has_declaration = False, fs_is_abstract = False,
     fs_requires_host_hook = False, fs_name = [], fs_parameters = [], fs_return_type = ANY_TYPE,
     fs_return_class_name = [], fs_required_arguments = 0, fs_line = 0, fs_description = [],
     fs_is_coroutine = False, fs_is_static = False\<rparr>"

section \<open>Encoding\<close>

definition DEFAULT_KINDS :: "DefaultKind list" where
  "DEFAULT_KINDS = [DK_NONE, DK_NIL, DK_INT, DK_FLOAT, DK_BOOL, DK_STRING, DK_EMPTY_ARRAY, DK_EMPTY_DICT]"

primrec kind_code :: "DefaultKind \<Rightarrow> uint8" where
  "kind_code DK_NONE = 0"
| "kind_code DK_NIL = 1"
| "kind_code DK_INT = 2"
| "kind_code DK_FLOAT = 3"
| "kind_code DK_BOOL = 4"
| "kind_code DK_STRING = 5"
| "kind_code DK_EMPTY_ARRAY = 6"
| "kind_code DK_EMPTY_DICT = 7"

abbreviation (input) bad_variant :: "'a res" where
  "bad_variant \<equiv> Inl (StdException BadVariantAccess)"

definition get_wint :: "wire_value \<Rightarrow> int64 res" where
  "get_wint v = (case v of WInt i \<Rightarrow> Inr i | _ \<Rightarrow> bad_variant)"

definition get_wfloat :: "wire_value \<Rightarrow> double res" where
  "get_wfloat v = (case v of WFloat d \<Rightarrow> Inr d | _ \<Rightarrow> bad_variant)"

definition get_wstring :: "wire_value \<Rightarrow> string res" where
  "get_wstring v = (case v of WString s \<Rightarrow> Inr s | _ \<Rightarrow> bad_variant)"

definition get_wbool :: "wire_value \<Rightarrow> bool res" where
  "get_wbool v = (case v of WBool b \<Rightarrow> Inr b | _ \<Rightarrow> bad_variant)"

definition write_double :: "double \<Rightarrow> byte list" where
  "write_double d = write_u64 (dbl_bits d)"

definition write_default :: "DefaultKind \<Rightarrow> wire_value \<Rightarrow> byte list res" where
  "write_default kind v = (case kind of
     DK_INT \<Rightarrow> bind_res (get_wint v) (\<lambda>i. Inr (write_u64 i))
   | DK_FLOAT \<Rightarrow> bind_res (get_wfloat v) (\<lambda>d. Inr (write_double d))
   | DK_BOOL \<Rightarrow> bind_res (get_wbool v) (\<lambda>b. Inr (write_flag b))
   | DK_STRING \<Rightarrow> bind_res (get_wstring v) (\<lambda>s. Inr (write_string s))
   | _ \<Rightarrow> Inr [])"

definition encode_parameter :: "FunctionParameter \<Rightarrow> byte list res" where
  "encode_parameter p = bind_res (write_default (fp_default_kind p) (fp_default_value p)) (\<lambda>v.
     Inr (write_string (fp_name p) @ write_u32 (fp_type p) @ write_u8 (kind_code (fp_default_kind p)) @ v))"

definition encode_record :: "FunctionSignature \<Rightarrow> byte list res" where
  "encode_record sig = bind_res (map_res encode_parameter (fs_parameters sig)) (\<lambda>ps.
     Inr (write_string (fs_name sig) @ write_u32 (fs_return_type sig) @ write_u32 (fs_line sig) @
       write_string (fs_description sig) @ write_u32 (word_of_nat (fs_required_arguments sig)) @
       write_flag (fs_is_coroutine sig) @ write_count (fs_parameters sig) @ concat ps))"

definition STAT :: uint32 where "STAT = 0x54415453"

definition STYP :: uint32 where "STYP = 0x50595453"

definition DECL :: uint32 where "DECL = 0x4c434544"

definition HOOK :: uint32 where "HOOK = 0x4b4f4f48"

definition encode_class_names :: "FunctionSignature \<Rightarrow> byte list" where
  "encode_class_names sig = write_string (fs_return_class_name sig) @ write_count (fs_parameters sig) @
     concat (map (\<lambda>p. write_string (fp_class_name p)) (fs_parameters sig))"

definition encode_type :: "DeclaredType \<Rightarrow> byte list" where
  "encode_type t = write_string (dt_name t) @ write_u64 (dt_mask t) @ write_flag (dt_nominal t)"

definition encode_declaration :: "FunctionSignature \<Rightarrow> byte list" where
  "encode_declaration sig = write_flag (fs_has_declaration sig) @ write_flag (fs_is_abstract sig) @
     encode_type (fs_declared_return sig) @ concat (map (\<lambda>p. encode_type (fp_declared_type p)) (fs_parameters sig))"

definition encode_hooks :: "FunctionSignature list \<Rightarrow> byte list" where
  "encode_hooks sigs =
     (if list_ex fs_requires_host_hook sigs
      then write_u32 HOOK @ write_count sigs @ concat (map (\<lambda>s. write_flag (fs_requires_host_hook s)) sigs)
      else [])"

definition encode_function_signatures :: "FunctionSignature list \<Rightarrow> byte list res" where
  "encode_function_signatures sigs = bind_res (map_res encode_record sigs) (\<lambda>rs.
     Inr (write_count sigs @ concat rs @
       write_u32 STAT @ write_count sigs @ concat (map (\<lambda>s. write_flag (fs_is_static s)) sigs) @
       write_u32 STYP @ write_count sigs @ concat (map encode_class_names sigs) @
       write_u32 DECL @ write_count sigs @ concat (map encode_declaration sigs) @
       encode_hooks sigs))"

section \<open>Decoding\<close>

definition read_default :: "DefaultKind \<Rightarrow> wire_value rd" where
  "read_default kind = (case kind of
     DK_INT \<Rightarrow> rd_bind rd_u64 (\<lambda>i. rd_return (WInt i))
   | DK_FLOAT \<Rightarrow> rd_bind rd_u64 (\<lambda>w. rd_return (WFloat (Double w)))
   | DK_BOOL \<Rightarrow> rd_bind rd_u8 (\<lambda>b. rd_return (WBool (b \<noteq> 0)))
   | DK_STRING \<Rightarrow> rd_bind rd_string (\<lambda>s. rd_return (WString s))
   | _ \<Rightarrow> rd_return (WInt 0))"

definition decode_parameter :: "FunctionParameter rd" where
  "decode_parameter =
     rd_bind rd_string (\<lambda>name. rd_bind rd_u32 (\<lambda>type. rd_bind rd_u8 (\<lambda>kind.
     rd_bind (rd_check (\<lambda>r. rd_ok r \<and> kind \<le> 7)) (\<lambda>_.
     rd_bind (read_default (DEFAULT_KINDS ! unat kind)) (\<lambda>v.
       rd_return (new_parameter\<lparr>fp_name := name, fp_type := type, fp_default_kind := DEFAULT_KINDS ! unat kind,
         fp_default_value := v\<rparr>))))))"

definition decode_record :: "FunctionSignature rd" where
  "decode_record =
     rd_bind rd_string (\<lambda>name. rd_bind rd_u32 (\<lambda>return_type. rd_bind rd_u32 (\<lambda>line.
     rd_bind rd_string (\<lambda>description. rd_bind rd_u32 (\<lambda>required. rd_bind rd_u8 (\<lambda>coroutine.
     rd_bind rd_u32 (\<lambda>count. rd_bind (rd_check (\<lambda>r. rd_ok r \<and> unat count \<le> rd_size r)) (\<lambda>_.
     rd_bind (rd_repeat (unat count) decode_parameter) (\<lambda>ps.
       rd_return (new_signature\<lparr>fs_name := name, fs_return_type := return_type, fs_line := line,
         fs_description := description, fs_is_coroutine := (coroutine \<noteq> 0), fs_parameters := ps,
         fs_required_arguments := (if length ps < unat required then length ps else unat required)\<rparr>))))))))))"

definition decode_static :: "FunctionSignature \<Rightarrow> FunctionSignature rd" where
  "decode_static sig = rd_bind rd_u8 (\<lambda>v. rd_bind (rd_check (\<lambda>_. v \<le> 1)) (\<lambda>_.
     rd_return (sig\<lparr>fs_is_static := (v \<noteq> 0)\<rparr>)))"

definition decode_class_names :: "FunctionSignature \<Rightarrow> FunctionSignature rd" where
  "decode_class_names sig =
     rd_bind rd_string (\<lambda>name. rd_bind (rd_expect_count (length (fs_parameters sig))) (\<lambda>_.
     rd_bind (rd_each (\<lambda>p. rd_bind rd_string (\<lambda>s. rd_return (p\<lparr>fp_class_name := s\<rparr>))) (fs_parameters sig)) (\<lambda>ps.
       rd_return (sig\<lparr>fs_return_class_name := name, fs_parameters := ps\<rparr>))))"

definition decode_type :: "DeclaredType rd" where
  "decode_type = rd_bind rd_string (\<lambda>name. rd_bind rd_u64 (\<lambda>mask. rd_bind rd_flag (\<lambda>nominal.
     rd_return \<lparr>dt_name = name, dt_mask = mask, dt_nominal = nominal\<rparr>)))"

definition decode_declaration :: "FunctionSignature \<Rightarrow> FunctionSignature rd" where
  "decode_declaration sig =
     rd_bind rd_flag (\<lambda>declared. rd_bind rd_flag (\<lambda>abstract. rd_bind decode_type (\<lambda>ret.
     rd_bind (rd_each (\<lambda>p. rd_bind decode_type (\<lambda>t. rd_return (p\<lparr>fp_declared_type := t\<rparr>))) (fs_parameters sig)) (\<lambda>ps.
       rd_return (sig\<lparr>fs_has_declaration := declared, fs_is_abstract := abstract, fs_declared_return := ret,
         fs_parameters := ps\<rparr>)))))"

definition decode_hook :: "FunctionSignature \<Rightarrow> FunctionSignature rd" where
  "decode_hook sig = rd_bind rd_flag (\<lambda>v. rd_return (sig\<lparr>fs_requires_host_hook := v\<rparr>))"

definition decode_declarations :: "FunctionSignature list \<Rightarrow> FunctionSignature list rd" where
  "decode_declarations out = rd_if_more
     (rd_bind (rd_expect DECL) (\<lambda>_. rd_bind (rd_expect_size (length out)) (\<lambda>_. rd_each decode_declaration out)))
     (rd_return out)"

definition decode_hooks :: "FunctionSignature list \<Rightarrow> FunctionSignature list rd" where
  "decode_hooks out = rd_if_more
     (rd_bind (rd_expect HOOK) (\<lambda>_. rd_bind (rd_expect_size (length out)) (\<lambda>_. rd_each decode_hook out)))
     (rd_return out)"

definition decode_typed :: "FunctionSignature list \<Rightarrow> FunctionSignature list rd" where
  "decode_typed out =
     rd_bind (rd_expect STYP) (\<lambda>_. rd_bind (rd_expect_count (length out)) (\<lambda>_.
     rd_bind (rd_each decode_class_names out) (\<lambda>out.
     rd_bind (decode_declarations out) (\<lambda>out.
     rd_bind (decode_hooks out) (\<lambda>out.
     rd_bind (rd_check (\<lambda>r. rd_ok r \<and> rd_at_end r)) (\<lambda>_. rd_return out))))))"

definition decode_sections :: "FunctionSignature list \<Rightarrow> FunctionSignature list rd" where
  "decode_sections out =
     rd_bind (rd_expect STAT) (\<lambda>_. rd_bind (rd_expect_count (length out)) (\<lambda>_.
     rd_bind (rd_each decode_static out) (\<lambda>out.
     rd_bind (rd_check rd_ok) (\<lambda>_. rd_if_end (rd_return out) (decode_typed out)))))"

definition decode_function_table :: "FunctionSignature list rd" where
  "decode_function_table =
     rd_bind rd_u32 (\<lambda>count. rd_bind (rd_check (\<lambda>r. rd_ok r \<and> unat count \<le> rd_size r)) (\<lambda>_.
     rd_bind (rd_repeat (unat count) decode_record) (\<lambda>out.
     rd_bind (rd_check rd_ok) (\<lambda>_. rd_if_end (rd_return out) (decode_sections out)))))"

definition decode_function_signatures :: "byte list \<Rightarrow> FunctionSignature list option" where
  "decode_function_signatures data = rd_run decode_function_table data"

section \<open>Round trip of a parameter\<close>

text \<open>What a blob carries: the value of a kind without one, and the native evaluator, are not sent.\<close>

definition has_payload :: "DefaultKind \<Rightarrow> bool" where
  "has_payload k \<longleftrightarrow> k \<in> {DK_INT, DK_FLOAT, DK_BOOL, DK_STRING}"

definition wire_parameter :: "FunctionParameter \<Rightarrow> FunctionParameter" where
  "wire_parameter p = p\<lparr>fp_default_value := (if has_payload (fp_default_kind p) then fp_default_value p else WInt 0),
     fp_default_function := []\<rparr>"

definition wire_signature :: "FunctionSignature \<Rightarrow> FunctionSignature" where
  "wire_signature sig = sig\<lparr>fs_parameters := map wire_parameter (fs_parameters sig)\<rparr>"

definition short :: "'a list \<Rightarrow> bool" where
  "short xs \<longleftrightarrow> length xs < 2 ^ 32"

definition valid_type :: "DeclaredType \<Rightarrow> bool" where
  "valid_type t \<longleftrightarrow> short (dt_name t)"

definition valid_parameter :: "FunctionParameter \<Rightarrow> bool" where
  "valid_parameter p \<longleftrightarrow> short (fp_name p) \<and> short (fp_class_name p) \<and> valid_type (fp_declared_type p) \<and>
     (case fp_default_value p of WString s \<Rightarrow> short s | _ \<Rightarrow> True)"

definition valid_signature :: "FunctionSignature \<Rightarrow> bool" where
  "valid_signature sig \<longleftrightarrow> short (fs_name sig) \<and> short (fs_description sig) \<and> short (fs_return_class_name sig) \<and>
     short (fs_parameters sig) \<and> valid_type (fs_declared_return sig) \<and> list_all valid_parameter (fs_parameters sig) \<and>
     fs_required_arguments sig \<le> length (fs_parameters sig)"

lemma short_string: "short s \<Longrightarrow> reads rd_string (write_string s) s"
  by (simp add: short_def reads_string)

lemma kind_code_round [simp]: "DEFAULT_KINDS ! unat (kind_code k) = k" "kind_code k \<le> 7"
  by (cases k; simp add: DEFAULT_KINDS_def)+

lemma reads_default:
  assumes "write_default k v = Inr bs" "case v of WString s \<Rightarrow> short s | _ \<Rightarrow> True"
  shows "reads (read_default k) bs (if has_payload k then v else WInt 0)"
  using assms
  by (cases k; cases v)
    (auto simp: write_default_def read_default_def has_payload_def get_wint_def get_wfloat_def get_wbool_def
      get_wstring_def write_double_def reads_return
      intro!: reads_map[OF reads_u64] reads_map[OF reads_flag] reads_map[OF short_string] split: wire_value.splits if_splits)

text \<open>A record as each section leaves it.\<close>

definition param0 :: "FunctionParameter \<Rightarrow> FunctionParameter" where
  "param0 p = new_parameter\<lparr>fp_name := fp_name p, fp_type := fp_type p, fp_default_kind := fp_default_kind p,
     fp_default_value := fp_default_value (wire_parameter p)\<rparr>"

definition stage0 :: "FunctionSignature \<Rightarrow> FunctionSignature" where
  "stage0 s = new_signature\<lparr>fs_name := fs_name s, fs_return_type := fs_return_type s, fs_line := fs_line s,
     fs_description := fs_description s, fs_is_coroutine := fs_is_coroutine s,
     fs_parameters := map param0 (fs_parameters s), fs_required_arguments := fs_required_arguments s\<rparr>"

definition stage1 :: "FunctionSignature \<Rightarrow> FunctionSignature" where
  "stage1 s = (stage0 s)\<lparr>fs_is_static := fs_is_static s\<rparr>"

definition param2 :: "FunctionParameter \<Rightarrow> FunctionParameter" where
  "param2 p = (param0 p)\<lparr>fp_class_name := fp_class_name p\<rparr>"

definition stage2 :: "FunctionSignature \<Rightarrow> FunctionSignature" where
  "stage2 s = (stage1 s)\<lparr>fs_return_class_name := fs_return_class_name s, fs_parameters := map param2 (fs_parameters s)\<rparr>"

definition stage3 :: "FunctionSignature \<Rightarrow> FunctionSignature" where
  "stage3 s = (wire_signature s)\<lparr>fs_requires_host_hook := False\<rparr>"

lemmas stage_defs = stage0_def stage1_def stage2_def stage3_def param0_def param2_def wire_signature_def wire_parameter_def
  new_signature_def new_parameter_def

interpretation parameter: record_codec valid_parameter encode_parameter decode_parameter param0
proof
  fix p bs assume v: "valid_parameter p" and e: "encode_parameter p = Inr bs"
  then obtain d where d: "write_default (fp_default_kind p) (fp_default_value p) = Inr d"
    "bs = write_string (fp_name p) @ write_u32 (fp_type p) @ write_u8 (kind_code (fp_default_kind p)) @ d"
    by (auto simp: encode_parameter_def res_simps)
  have s: "short (fp_name p)" "case fp_default_value p of WString s \<Rightarrow> short s | _ \<Rightarrow> True"
    using v by (auto simp: valid_parameter_def)
  show "reads decode_parameter bs (param0 p)"
    unfolding decode_parameter_def d(2)
    by (intro reads_bind[OF short_string] reads_bind[OF reads_u32] reads_bind[OF reads_u8] reads_bind_none[OF reads_check(1)])
      (auto intro!: reads_map[OF reads_default[OF d(1) s(2)]] simp: s(1) stage_defs)
next
  fix p bs assume "encode_parameter p = Inr bs"
  then show "bs \<noteq> []" by (auto simp: encode_parameter_def res_simps)
qed

section \<open>Round trip of the table\<close>

interpretation function_record: record_codec valid_signature encode_record decode_record stage0
proof
  fix sig bs assume v: "valid_signature sig" and e: "encode_record sig = Inr bs"
  then obtain ps where ps: "map_res encode_parameter (fs_parameters sig) = Inr ps"
    "bs = write_string (fs_name sig) @ write_u32 (fs_return_type sig) @ write_u32 (fs_line sig) @
       write_string (fs_description sig) @ write_u32 (word_of_nat (fs_required_arguments sig)) @
       write_flag (fs_is_coroutine sig) @ write_count (fs_parameters sig) @ concat ps"
    by (auto simp: encode_record_def res_simps)
  have s: "short (fs_name sig)" "short (fs_description sig)" "list_all valid_parameter (fs_parameters sig)"
    "length (fs_parameters sig) < 2 ^ 32" "fs_required_arguments sig \<le> length (fs_parameters sig)"
    using v by (auto simp: valid_signature_def short_def)
  have n: "unat (word_of_nat (length (fs_parameters sig)) :: uint32) = length (fs_parameters sig)"
    "unat (word_of_nat (fs_required_arguments sig) :: uint32) = fs_required_arguments sig"
    using s(4,5) by (intro unat_count; simp)+
  show "reads decode_record bs (stage0 sig)"
    unfolding decode_record_def ps(2)
    by (intro reads_bind[OF short_string] reads_bind[OF reads_u32] reads_bind[OF reads_flag] reads_bind[OF reads_count]
        reads_checked_count s(1,2) reads_map)
      (use parameter.list_round[OF s(3) ps(1)] parameter.list_size[OF ps(1)] s(5) in \<open>auto simp: n stage_defs\<close>)
next
  fix sig bs assume "encode_record sig = Inr bs"
  then show "bs \<noteq> []" by (auto simp: encode_record_def res_simps)
qed

lemma reads_static: "reads (decode_static (stage0 s)) (write_flag (fs_is_static s)) (stage1 s)"
  unfolding decode_static_def
  by (rule reads_map[OF reads_flag], simp add: rd_bind_def rd_check_def rd_return_def fun_eq_iff stage1_def)

lemma reads_each_map:
  assumes "\<And>x. x \<in> set xs \<Longrightarrow> reads (f (pre x)) (enc x) (post x)"
  shows "reads (rd_each f (map pre xs)) (concat (map enc xs)) (map post xs)"
  by (rule reads_each) (use assms in \<open>auto simp: list_all2_map1 list.rel_refl_strong\<close>)

lemma reads_class_names:
  assumes "valid_signature s"
  shows "reads (decode_class_names (stage1 s)) (encode_class_names s) (stage2 s)"
proof -
  have p: "short (fs_return_class_name s)" "length (fs_parameters s) < 2 ^ 32"
    "\<And>p. p \<in> set (fs_parameters s) \<Longrightarrow> short (fp_class_name p)"
    using assms by (auto simp: valid_signature_def valid_parameter_def list_all_iff short_def)
  have ps: "fs_parameters (stage1 s) = map param0 (fs_parameters s)" by (simp add: stage_defs)
  have each: "reads (rd_each (\<lambda>p. rd_bind rd_string (\<lambda>c. rd_return (p\<lparr>fp_class_name := c\<rparr>))) (map param0 (fs_parameters s)))
      (concat (map (\<lambda>p. write_string (fp_class_name p)) (fs_parameters s))) (map param2 (fs_parameters s))"
    by (rule reads_each_map, rule reads_map[OF short_string]) (auto simp: p param2_def)
  show ?thesis unfolding decode_class_names_def encode_class_names_def ps
    by (intro reads_bind[OF short_string] reads_bind[OF reads_expect_count(1)] reads_map[OF each] p(1))
      (use p in \<open>simp_all add: stage2_def\<close>)
qed

lemma param3: "(param2 p)\<lparr>fp_declared_type := fp_declared_type p\<rparr> = wire_parameter p"
  by (cases p) (simp add: stage_defs)

lemma stage3_eq:
  "(stage2 s)\<lparr>fs_has_declaration := fs_has_declaration s, fs_is_abstract := fs_is_abstract s,
     fs_declared_return := fs_declared_return s, fs_parameters := map wire_parameter (fs_parameters s)\<rparr> = stage3 s"
  by (cases s) (simp add: stage_defs)

lemma reads_type: "valid_type t \<Longrightarrow> reads decode_type (encode_type t) t"
  unfolding decode_type_def encode_type_def
  by (intro reads_bind[OF short_string] reads_bind[OF reads_u64] reads_map[OF reads_rd_flag])
    (cases t; simp add: valid_type_def)+

lemma reads_declaration:
  assumes "valid_signature s"
  shows "reads (decode_declaration (stage2 s)) (encode_declaration s) (stage3 s)"
proof -
  have p: "valid_type (fs_declared_return s)" "\<And>p. p \<in> set (fs_parameters s) \<Longrightarrow> valid_type (fp_declared_type p)"
    using assms by (auto simp: valid_signature_def valid_parameter_def list_all_iff)
  have ps: "fs_parameters (stage2 s) = map param2 (fs_parameters s)" by (simp add: stage2_def)
  have each: "reads (rd_each (\<lambda>p. rd_bind decode_type (\<lambda>t. rd_return (p\<lparr>fp_declared_type := t\<rparr>))) (map param2 (fs_parameters s)))
      (concat (map (\<lambda>p. encode_type (fp_declared_type p)) (fs_parameters s))) (map wire_parameter (fs_parameters s))"
    by (rule reads_each_map, rule reads_map[OF reads_type]) (simp_all add: p param3)
  show ?thesis unfolding decode_declaration_def encode_declaration_def ps
    by (intro reads_bind[OF reads_rd_flag] reads_bind[OF reads_type] reads_map[OF each] p(1)) (simp add: stage3_eq)
qed

lemma reads_hook: "reads (decode_hook (stage3 s)) (write_flag (fs_requires_host_hook s)) (wire_signature s)"
  unfolding decode_hook_def by (rule reads_map[OF reads_rd_flag]) (simp add: stage_defs)

lemma reads_hooks:
  assumes "short sigs"
  shows "reads_last (decode_hooks (map stage3 sigs)) (encode_hooks sigs) (map wire_signature sigs)"
  unfolding decode_hooks_def
proof (rule reads_last_if_more)
  assume "encode_hooks sigs \<noteq> []"
  then have e: "encode_hooks sigs = write_u32 HOOK @ write_count sigs @ concat (map (\<lambda>s. write_flag (fs_requires_host_hook s)) sigs)"
    unfolding encode_hooks_def by presburger
  have "reads (rd_each decode_hook (map stage3 sigs)) (concat (map (\<lambda>s. write_flag (fs_requires_host_hook s)) sigs)) (map wire_signature sigs)"
    by (rule reads_each_map, rule reads_hook)
  then show "reads_last (rd_bind (rd_expect HOOK) (\<lambda>_. rd_bind (rd_expect_size (length (map stage3 sigs))) (\<lambda>_. rd_each decode_hook (map stage3 sigs))))
      (encode_hooks sigs) (map wire_signature sigs)"
    unfolding e using assms by (intro reads_imp_last reads_bind[OF reads_expect] reads_bind[OF reads_expect_count(2)]) (simp_all add: short_def)
next
  assume "encode_hooks sigs = []"
  then have "map stage3 sigs = map wire_signature sigs" "encode_hooks sigs = []"
    by (auto simp: encode_hooks_def list_ex_iff stage3_def wire_signature_def split: if_splits)
  then show "reads_last (rd_return (map stage3 sigs)) (encode_hooks sigs) (map wire_signature sigs)"
    using reads_imp_last[OF reads_return] by metis
qed

lemma reads_declarations:
  assumes "short sigs" "list_all valid_signature sigs"
  shows "reads (rd_bind (rd_expect DECL) (\<lambda>_. rd_bind (rd_expect_size (length (map stage2 sigs))) (\<lambda>_.
      rd_each decode_declaration (map stage2 sigs))))
    (write_u32 DECL @ write_count sigs @ concat (map encode_declaration sigs)) (map stage3 sigs)"
proof -
  have "reads (rd_each decode_declaration (map stage2 sigs)) (concat (map encode_declaration sigs)) (map stage3 sigs)"
    by (rule reads_each_map, rule reads_declaration) (use assms(2) in \<open>simp add: list_all_iff\<close>)
  then show ?thesis using assms(1)
    by (intro reads_bind[OF reads_expect] reads_bind[OF reads_expect_count(2)]) (simp_all add: short_def)
qed

lemma reads_if_more: "reads g bs v \<Longrightarrow> bs \<noteq> [] \<Longrightarrow> reads (rd_if_more g h) bs v"
  by (simp add: reads_def rd_if_more_def rd_at_end_def rd_size_def)

lemma reads_last_then_end:
  assumes "reads_last g bs v" shows "reads_last (rd_bind g (\<lambda>out. rd_bind (rd_check (\<lambda>r. rd_ok r \<and> rd_at_end r)) (\<lambda>_. rd_return out))) bs v"
  using assms by (simp add: reads_last_def rd_bind_def rd_check_def rd_return_def rd_at_end_def rd_size_def)

lemma reads_typed:
  assumes "short sigs" "list_all valid_signature sigs"
  shows "reads_last (decode_typed (map stage1 sigs))
    (write_u32 STYP @ write_count sigs @ concat (map encode_class_names sigs) @
     (write_u32 DECL @ write_count sigs @ concat (map encode_declaration sigs)) @ encode_hooks sigs)
    (map wire_signature sigs)"
proof -
  have each: "reads (rd_each decode_class_names (map stage1 sigs)) (concat (map encode_class_names sigs)) (map stage2 sigs)"
    by (rule reads_each_map, rule reads_class_names) (use assms(2) in \<open>simp add: list_all_iff\<close>)
  have decl: "reads (decode_declarations (map stage2 sigs))
      (write_u32 DECL @ write_count sigs @ concat (map encode_declaration sigs)) (map stage3 sigs)"
    unfolding decode_declarations_def by (rule reads_if_more[OF reads_declarations[OF assms]]) simp
  show ?thesis unfolding decode_typed_def
    by (rule reads_last_bind[OF reads_expect], rule reads_last_bind[OF reads_expect_count(1)[OF assms(1)[unfolded short_def]]],
      simp, rule reads_last_bind[OF each], rule reads_last_bind[OF decl], rule reads_last_then_end[OF reads_hooks[OF assms(1)]])
qed

lemma reads_sections:
  assumes "short sigs" "list_all valid_signature sigs"
  shows "reads_last (decode_sections (map stage0 sigs))
    (write_u32 STAT @ write_count sigs @ concat (map (\<lambda>s. write_flag (fs_is_static s)) sigs) @
     write_u32 STYP @ write_count sigs @ concat (map encode_class_names sigs) @
     (write_u32 DECL @ write_count sigs @ concat (map encode_declaration sigs)) @ encode_hooks sigs)
    (map wire_signature sigs)"
proof -
  have each: "reads (rd_each decode_static (map stage0 sigs)) (concat (map (\<lambda>s. write_flag (fs_is_static s)) sigs)) (map stage1 sigs)"
    by (rule reads_each_map, rule reads_static)
  show ?thesis unfolding decode_sections_def
    by (rule reads_last_bind[OF reads_expect], rule reads_last_bind[OF reads_expect_count(1)[OF assms(1)[unfolded short_def]]],
      simp, rule reads_last_bind[OF each], rule reads_last_bind_none[OF reads_check(2)],
      rule reads_last_if_end[OF reads_typed[OF assms]], simp)
qed

lemma function_signatures_round:
  assumes e: "encode_function_signatures sigs = Inr bs" and v: "short sigs" "list_all valid_signature sigs"
  shows "decode_function_signatures bs = Some (map wire_signature sigs)"
proof -
  let ?rest = "write_u32 STAT @ write_count sigs @ concat (map (\<lambda>s. write_flag (fs_is_static s)) sigs) @
     write_u32 STYP @ write_count sigs @ concat (map encode_class_names sigs) @
     (write_u32 DECL @ write_count sigs @ concat (map encode_declaration sigs)) @ encode_hooks sigs"
  obtain rs where rs: "map_res encode_record sigs = Inr rs" "bs = write_count sigs @ concat rs @ ?rest"
    using e by (auto simp: encode_function_signatures_def res_simps)
  have n: "unat (word_of_nat (length sigs) :: uint32) = length sigs" using v(1) by (simp add: short_def unat_count)
  have "reads_last decode_function_table bs (map wire_signature sigs)"
    unfolding decode_function_table_def rs(2)
  proof (rule reads_last_bind[OF reads_count], rule reads_last_checked_count, unfold n)
    show "length sigs \<le> length (concat rs @ ?rest)" using function_record.list_size[OF rs(1)] by simp
    show "reads_last (rd_bind (rd_repeat (length sigs) decode_record) (\<lambda>out. rd_bind (rd_check rd_ok) (\<lambda>_.
        rd_if_end (rd_return out) (decode_sections out)))) (concat rs @ ?rest) (map wire_signature sigs)"
      by (intro reads_last_bind[OF function_record.list_round[OF v(2) rs(1)]] reads_last_bind_none[OF reads_check(2)]
          reads_last_if_end reads_sections v) simp
  qed
  then show ?thesis unfolding decode_function_signatures_def by (rule reads_last_run)
qed

text \<open>An encoding exists when every default holds the alternative its kind names.\<close>

definition default_fits :: "FunctionParameter \<Rightarrow> bool" where
  "default_fits p \<longleftrightarrow> (case fp_default_kind p of
     DK_INT \<Rightarrow> (\<exists>i. fp_default_value p = WInt i) | DK_FLOAT \<Rightarrow> (\<exists>d. fp_default_value p = WFloat d)
   | DK_BOOL \<Rightarrow> (\<exists>b. fp_default_value p = WBool b) | DK_STRING \<Rightarrow> (\<exists>s. fp_default_value p = WString s) | _ \<Rightarrow> True)"

lemma map_res_defined: "(\<And>x. x \<in> set xs \<Longrightarrow> \<exists>y. f x = Inr y) \<Longrightarrow> \<exists>ys. map_res f xs = Inr ys"
  by (induction xs) (force simp: res_simps)+

lemma encode_defined:
  assumes "\<And>s p. s \<in> set sigs \<Longrightarrow> p \<in> set (fs_parameters s) \<Longrightarrow> default_fits p"
  shows "\<exists>bs. encode_function_signatures sigs = Inr bs"
proof -
  have "\<exists>bs. encode_parameter p = Inr bs" if "default_fits p" for p
    using that by (auto simp: encode_parameter_def default_fits_def write_default_def get_wint_def get_wfloat_def
      get_wbool_def get_wstring_def split: DefaultKind.splits)
  then have "\<exists>bs. encode_record s = Inr bs" if "s \<in> set sigs" for s
    using map_res_defined[of "fs_parameters s" encode_parameter] assms that by (fastforce simp: encode_record_def)
  then show ?thesis using map_res_defined[of sigs encode_record] by (fastforce simp: encode_function_signatures_def)
qed

section \<open>What the decoder accepts\<close>

text \<open>No accepted signature asks for more arguments than it has parameters, whatever the blob says.\<close>

definition callable :: "FunctionSignature \<Rightarrow> bool" where
  "callable s \<longleftrightarrow> fs_required_arguments s \<le> length (fs_parameters s)"

lemma record_callable: "gives decode_record callable"
  unfolding decode_record_def by (intro gives_after gives_return) (simp add: callable_def)

lemma each_length: "gives (rd_each f xs) (\<lambda>ys. length ys = length xs)"
  using gives_each[of "\<lambda>_. True" xs f "\<lambda>_. True"] by (auto simp: gives_def list_all_iff)

lemma sections_callable:
  assumes "callable s"
  shows "gives (decode_static s) callable" "gives (decode_class_names s) callable"
    "gives (decode_declaration s) callable" "gives (decode_hook s) callable"
  unfolding decode_static_def decode_class_names_def decode_declaration_def decode_hook_def
  using assms by (intro gives_after gives_return gives_bind[OF each_length]; simp add: callable_def)+

lemma each_callable:
  assumes "\<And>s. callable s \<Longrightarrow> gives (f s) callable" "list_all callable out"
  shows "gives (rd_each f out) (list_all callable)"
  using gives_each[OF assms(2,1)] by (auto simp: gives_def)

lemma function_table_callable:
  assumes "decode_function_signatures data = Some sigs" shows "list_all callable sigs"
proof (rule gives_run[OF _ assms[unfolded decode_function_signatures_def]])
  have each: "gives (rd_each decode_static out) (list_all callable)" "gives (rd_each decode_class_names out) (list_all callable)"
    "gives (rd_each decode_declaration out) (list_all callable)" "gives (rd_each decode_hook out) (list_all callable)"
    if "list_all callable out" for out
    by (rule each_callable[OF sections_callable(1) that] each_callable[OF sections_callable(2) that]
      each_callable[OF sections_callable(3) that] each_callable[OF sections_callable(4) that]; assumption)+
  have hooks: "gives (decode_hooks out) (list_all callable)" if "list_all callable out" for out
    unfolding decode_hooks_def using that by (intro gives_if gives_after gives_return each)
  have decls: "gives (decode_declarations out) (list_all callable)" if "list_all callable out" for out
    unfolding decode_declarations_def using that by (intro gives_if gives_after gives_return each)
  have typed: "gives (decode_typed out) (list_all callable)" if "list_all callable out" for out
    unfolding decode_typed_def
    by (rule gives_after, rule gives_after, rule gives_bind[OF each(2)[OF that]], rule gives_bind[OF decls], assumption,
      rule gives_bind[OF hooks], assumption, rule gives_after, rule gives_return)
  have sections: "gives (decode_sections out) (list_all callable)" if "list_all callable out" for out
    unfolding decode_sections_def
    by (rule gives_after, rule gives_after, rule gives_bind[OF each(1)[OF that]], rule gives_after)
      (intro gives_if gives_return typed)
  show "gives decode_function_table (list_all callable)"
    unfolding decode_function_table_def
    by (rule gives_after, rule gives_after, rule gives_bind[OF gives_repeat[OF record_callable]], rule gives_after)
      (intro gives_if gives_return sections)
qed

end
