(* ===== verification/Declarations.thy ===== *)
theory Declarations
  imports Signatures
begin

text \<open>
  The other tables of \<^verbatim>\<open>function_signature.cpp\<close>: remote procedure configurations, the constants and
  enumerations of a script, and its classes with the documentation, trait and signal sections
  appended to them. Each has the round trip of its encoding.
\<close>

section \<open>Remote procedures\<close>

record RPCConfig =
  rpc_name :: string
  rpc_mode :: uint32
  rpc_transfer_mode :: uint32
  rpc_call_local :: bool
  rpc_channel :: uint32

definition encode_rpc :: "RPCConfig \<Rightarrow> byte list" where
  "encode_rpc c = write_string (rpc_name c) @ write_u32 (rpc_mode c) @ write_u32 (rpc_transfer_mode c) @
     write_flag (rpc_call_local c) @ write_u32 (rpc_channel c)"

definition encode_rpc_configs :: "RPCConfig list \<Rightarrow> byte list" where
  "encode_rpc_configs cs = write_count cs @ concat (map encode_rpc cs)"

definition rpc_acceptable :: "RPCConfig \<Rightarrow> bool" where
  "rpc_acceptable c = (rpc_name c \<noteq> [] \<and> (sint (rpc_mode c) = 1 \<or> sint (rpc_mode c) = 2) \<and>
     0 \<le> sint (rpc_transfer_mode c) \<and> sint (rpc_transfer_mode c) \<le> 2 \<and> 0 \<le> sint (rpc_channel c))"

definition decode_rpc :: "RPCConfig rd" where
  "decode_rpc =
     rd_bind rd_string (\<lambda>name. rd_bind rd_u32 (\<lambda>mode. rd_bind rd_u32 (\<lambda>transfer. rd_bind rd_u8 (\<lambda>local.
     rd_bind rd_u32 (\<lambda>channel.
       let c = \<lparr>rpc_name = name, rpc_mode = mode, rpc_transfer_mode = transfer, rpc_call_local = (local \<noteq> 0),
         rpc_channel = channel\<rparr>
       in rd_bind (rd_check (\<lambda>r. rd_ok r \<and> rpc_acceptable c)) (\<lambda>_. rd_return c))))))"

definition decode_rpc_configs :: "byte list \<Rightarrow> RPCConfig list option" where
  "decode_rpc_configs data = rd_run
     (rd_bind (rd_bind rd_u32 (\<lambda>n. rd_bind (rd_check (\<lambda>r. rd_ok r \<and> unat n \<le> rd_size r)) (\<lambda>_. rd_repeat (unat n) decode_rpc)))
       (\<lambda>out. rd_bind (rd_check (\<lambda>r. rd_ok r \<and> rd_at_end r)) (\<lambda>_. rd_return out))) data"

definition valid_rpc :: "RPCConfig \<Rightarrow> bool" where
  "valid_rpc c \<longleftrightarrow> short (rpc_name c) \<and> rpc_acceptable c"

interpretation rpc: record_codec valid_rpc "\<lambda>c. Inr (encode_rpc c)" decode_rpc id
proof
  fix c bs assume v: "valid_rpc c" and "Inr (encode_rpc c) = (Inr bs :: byte list res)"
  then have bs: "bs = encode_rpc c" by simp
  have c: "\<lparr>rpc_name = rpc_name c, rpc_mode = rpc_mode c, rpc_transfer_mode = rpc_transfer_mode c,
      rpc_call_local = ((if rpc_call_local c then 1 else 0 :: uint8) \<noteq> 0), rpc_channel = rpc_channel c\<rparr> = c" by (cases c) simp
  have "reads (rd_bind (rd_check (\<lambda>r. rd_ok r \<and> rpc_acceptable c)) (\<lambda>_. rd_return c)) [] c"
    using v by (intro reads_bind_none[OF reads_check(1)] reads_return) (simp add: valid_rpc_def)
  from reads_bind[OF reads_u32[of "rpc_channel c"], of "\<lambda>channel. let c = \<lparr>rpc_name = rpc_name c, rpc_mode = rpc_mode c,
      rpc_transfer_mode = rpc_transfer_mode c, rpc_call_local = ((if rpc_call_local c then 1 else 0 :: uint8) \<noteq> 0), rpc_channel = channel\<rparr>
       in rd_bind (rd_check (\<lambda>r. rd_ok r \<and> rpc_acceptable c)) (\<lambda>_. rd_return c)" "[]" c] this
  have "reads (rd_bind rd_u32 (\<lambda>channel. let c = \<lparr>rpc_name = rpc_name c, rpc_mode = rpc_mode c,
      rpc_transfer_mode = rpc_transfer_mode c, rpc_call_local = ((if rpc_call_local c then 1 else 0 :: uint8) \<noteq> 0), rpc_channel = channel\<rparr>
       in rd_bind (rd_check (\<lambda>r. rd_ok r \<and> rpc_acceptable c)) (\<lambda>_. rd_return c))) (write_u32 (rpc_channel c)) c"
    unfolding Let_def c by simp
  then show "reads decode_rpc bs (id c)" unfolding bs decode_rpc_def encode_rpc_def id_def
    using v by (intro reads_bind[OF short_string] reads_bind[OF reads_u32] reads_bind[OF reads_flag]) (auto simp: valid_rpc_def)
qed (auto simp: encode_rpc_def)

lemma rpc_configs_round:
  assumes "list_all valid_rpc cs" "short cs"
  shows "decode_rpc_configs (encode_rpc_configs cs) = Some cs"
  unfolding decode_rpc_configs_def encode_rpc_configs_def
  using reads_last_run[OF reads_last_then_end[OF reads_imp_last[OF rpc.counted[OF assms(1)]]], of "map encode_rpc cs"] assms(2)
  by (simp add: short_def)

section \<open>Constants\<close>

datatype ConstKind = CK_INT | CK_FLOAT | CK_BOOL | CK_STRING | CK_ENUM

record EnumMember =
  em_name :: string
  em_value :: int64

record ScriptConstant =
  sc_name :: string
  sc_kind :: ConstKind
  sc_value :: wire_value
  sc_members :: "EnumMember list"

definition CONST_KINDS :: "ConstKind list" where
  "CONST_KINDS = [CK_INT, CK_FLOAT, CK_BOOL, CK_STRING, CK_ENUM]"

primrec const_code :: "ConstKind \<Rightarrow> uint8" where
  "const_code CK_INT = 0"
| "const_code CK_FLOAT = 1"
| "const_code CK_BOOL = 2"
| "const_code CK_STRING = 3"
| "const_code CK_ENUM = 4"

definition encode_member :: "EnumMember \<Rightarrow> byte list" where
  "encode_member m = write_string (em_name m) @ write_u64 (em_value m)"

definition write_constant :: "ScriptConstant \<Rightarrow> byte list res" where
  "write_constant c = (case sc_kind c of
     CK_INT \<Rightarrow> bind_res (get_wint (sc_value c)) (\<lambda>i. Inr (write_u64 i))
   | CK_FLOAT \<Rightarrow> bind_res (get_wfloat (sc_value c)) (\<lambda>d. Inr (write_double d))
   | CK_BOOL \<Rightarrow> bind_res (get_wbool (sc_value c)) (\<lambda>b. Inr (write_flag b))
   | CK_STRING \<Rightarrow> bind_res (get_wstring (sc_value c)) (\<lambda>s. Inr (write_string s))
   | CK_ENUM \<Rightarrow> Inr (write_count (sc_members c) @ concat (map encode_member (sc_members c))))"

definition encode_constant :: "ScriptConstant \<Rightarrow> byte list res" where
  "encode_constant c = bind_res (write_constant c) (\<lambda>v.
     Inr (write_string (sc_name c) @ write_u8 (const_code (sc_kind c)) @ v))"

definition encode_script_constants :: "ScriptConstant list \<Rightarrow> byte list res" where
  "encode_script_constants cs = bind_res (map_res encode_constant cs) (\<lambda>bss. Inr (write_count cs @ concat bss))"

definition decode_member :: "EnumMember rd" where
  "decode_member = rd_bind rd_string (\<lambda>name. rd_bind rd_u64 (\<lambda>v. rd_return \<lparr>em_name = name, em_value = v\<rparr>))"

text \<open>The value and the members of a constant of the given kind.\<close>

definition read_constant :: "ConstKind \<Rightarrow> (wire_value \<times> EnumMember list) rd" where
  "read_constant kind = (case kind of
     CK_INT \<Rightarrow> rd_bind rd_u64 (\<lambda>i. rd_return (WInt i, []))
   | CK_FLOAT \<Rightarrow> rd_bind rd_u64 (\<lambda>w. rd_return (WFloat (Double w), []))
   | CK_BOOL \<Rightarrow> rd_bind rd_u8 (\<lambda>b. rd_return (WBool (b \<noteq> 0), []))
   | CK_STRING \<Rightarrow> rd_bind rd_string (\<lambda>s. rd_return (WString s, []))
   | CK_ENUM \<Rightarrow> rd_bind (rd_bind rd_u32 (\<lambda>n. rd_bind (rd_check (\<lambda>r. rd_ok r \<and> unat n \<le> rd_size r))
       (\<lambda>_. rd_repeat (unat n) decode_member))) (\<lambda>ms. rd_return (WInt 0, ms)))"

definition decode_constant :: "ScriptConstant rd" where
  "decode_constant =
     rd_bind rd_string (\<lambda>name. rd_bind rd_u8 (\<lambda>kind. rd_bind (rd_check (\<lambda>r. rd_ok r \<and> kind \<le> 4)) (\<lambda>_.
     rd_bind (read_constant (CONST_KINDS ! unat kind)) (\<lambda>(v, ms).
       rd_return \<lparr>sc_name = name, sc_kind = CONST_KINDS ! unat kind, sc_value = v, sc_members = ms\<rparr>))))"

text \<open>Bytes after the last constant are not looked at.\<close>

definition decode_script_constants :: "byte list \<Rightarrow> ScriptConstant list option" where
  "decode_script_constants data = rd_run
     (rd_bind (rd_bind rd_u32 (\<lambda>n. rd_bind (rd_check (\<lambda>r. rd_ok r \<and> unat n \<le> rd_size r)) (\<lambda>_. rd_repeat (unat n) decode_constant)))
       (\<lambda>out. rd_bind (rd_check rd_ok) (\<lambda>_. rd_return out))) data"

definition wire_constant :: "ScriptConstant \<Rightarrow> ScriptConstant" where
  "wire_constant c = (if sc_kind c = CK_ENUM then c\<lparr>sc_value := WInt 0\<rparr> else c\<lparr>sc_members := []\<rparr>)"

definition valid_constant :: "ScriptConstant \<Rightarrow> bool" where
  "valid_constant c \<longleftrightarrow> short (sc_name c) \<and> short (sc_members c) \<and> list_all (\<lambda>m. short (em_name m)) (sc_members c) \<and>
     (case sc_value c of WString s \<Rightarrow> short s | _ \<Rightarrow> True)"

interpretation member: record_codec "\<lambda>m. short (em_name m)" "\<lambda>m. Inr (encode_member m)" decode_member id
proof
  fix m bs assume "short (em_name m)" "Inr (encode_member m) = (Inr bs :: byte list res)"
  then show "reads decode_member bs (id m)"
    by (cases m) (auto simp: encode_member_def decode_member_def intro!: reads_bind[OF short_string] reads_map[OF reads_u64])
qed (auto simp: encode_member_def)

lemma const_code_round [simp]: "CONST_KINDS ! unat (const_code k) = k" "const_code k \<le> 4"
  by (cases k; simp add: CONST_KINDS_def)+

lemma reads_constant:
  assumes "write_constant c = Inr bs" "valid_constant c"
  shows "reads (read_constant (sc_kind c)) bs (sc_value (wire_constant c), sc_members (wire_constant c))"
proof (cases "sc_kind c = CK_ENUM")
  case True
  have v: "list_all (\<lambda>m. short (em_name m)) (sc_members c)" "length (sc_members c) < 2 ^ 32"
    using assms(2) by (simp_all add: valid_constant_def short_def)
  show ?thesis
    using assms(1) True reads_map[OF member.counted[OF v, of "map encode_member (sc_members c)"],
      of "\<lambda>ms. rd_return (WInt 0, ms)" "(WInt 0, sc_members c)"]
    by (simp add: write_constant_def read_constant_def wire_constant_def)
next
  case False
  then show ?thesis using assms
    by (cases "sc_kind c"; cases "sc_value c")
      (auto simp: write_constant_def read_constant_def wire_constant_def valid_constant_def get_wint_def get_wfloat_def
        get_wbool_def get_wstring_def write_double_def
        intro!: reads_map[OF reads_u64] reads_map[OF reads_flag] reads_map[OF short_string] split: if_splits)
qed

interpretation const_record: record_codec valid_constant encode_constant decode_constant wire_constant
proof
  fix c bs assume v: "valid_constant c" and "encode_constant c = Inr bs"
  then obtain w where w: "write_constant c = Inr w"
    "bs = write_string (sc_name c) @ write_u8 (const_code (sc_kind c)) @ w"
    by (auto simp: encode_constant_def res_simps)
  have s: "short (sc_name c)" using v by (simp add: valid_constant_def)
  show "reads decode_constant bs (wire_constant c)" unfolding decode_constant_def w(2)
    by (intro reads_bind[OF short_string] reads_bind[OF reads_u8] reads_bind_none[OF reads_check(1)] s)
      (auto intro!: reads_map[OF reads_constant[OF w(1) v]], cases c, simp add: wire_constant_def)
next
  fix c bs assume "encode_constant c = Inr bs"
  then show "bs \<noteq> []" by (auto simp: encode_constant_def res_simps)
qed

lemma script_constants_round:
  assumes "encode_script_constants cs = Inr bs" "list_all valid_constant cs" "short cs"
  shows "decode_script_constants bs = Some (map wire_constant cs)"
proof -
  obtain bss where b: "map_res encode_constant cs = Inr bss" "bs = write_count cs @ concat bss"
    using assms(1) by (auto simp: encode_script_constants_def res_simps)
  have "reads (rd_bind (rd_bind rd_u32 (\<lambda>n. rd_bind (rd_check (\<lambda>r. rd_ok r \<and> unat n \<le> rd_size r)) (\<lambda>_. rd_repeat (unat n) decode_constant)))
       (\<lambda>out. rd_bind (rd_check rd_ok) (\<lambda>_. rd_return out))) (bs @ []) (map wire_constant cs)"
    unfolding b(2)
    by (rule reads_bind[OF const_record.counted[OF assms(2) _ b(1)]], use assms(3) in \<open>simp add: short_def\<close>,
      rule reads_bind_none[OF reads_check(2)], rule reads_return)
  then show ?thesis unfolding decode_script_constants_def using reads_last_run[OF reads_imp_last] by simp
qed

end
