(* ===== verification/Class_Signatures.thy ===== *)
theory Class_Signatures
  imports Declarations
begin

text \<open>
  The class table of \<^verbatim>\<open>function_signature.cpp\<close>: a base record per class, then the sections for
  documentation (\<open>SDOC\<close>), traits (\<open>TRAT\<close>) and signals (\<open>CSIG\<close>), the last two with function
  tables inside. The decoder stops at the end of the blob after any of the earlier sections.
\<close>

section \<open>Records\<close>

record ClassField =
  cfl_name :: string
  cfl_type :: uint32
  cfl_class_name :: string
  cfl_description :: string

record ClassMethod =
  cme_name :: string
  cme_is_static :: bool

record ClassSignature =
  cs_name :: string
  cs_source_path :: string
  cs_base_name :: string
  cs_native_base :: string
  cs_fields :: "ClassField list"
  cs_methods :: "ClassMethod list"
  cs_line :: uint32
  cs_is_struct :: bool
  cs_description :: string
  cs_is_trait :: bool
  cs_uses :: "string list"
  cs_trait_methods :: "FunctionSignature list"
  cs_trait_fields :: "ClassField list"
  cs_trait_signals :: "FunctionSignature list"
  cs_signals :: "FunctionSignature list"

definition new_class :: ClassSignature where
  "new_class = \<lparr>cs_name = [], cs_source_path = [], cs_base_name = [], cs_native_base = [], cs_fields = [],
     cs_methods = [], cs_line = 0, cs_is_struct = False, cs_description = [], cs_is_trait = False, cs_uses = [],
     cs_trait_methods = [], cs_trait_fields = [], cs_trait_signals = [], cs_signals = []\<rparr>"

section \<open>Encoding\<close>

definition SDOC :: uint32 where "SDOC = 0x434F4453"

definition TRAT :: uint32 where "TRAT = 0x54415254"

definition CSIG :: uint32 where "CSIG = 0x47495343"

definition encode_field :: "ClassField \<Rightarrow> byte list" where
  "encode_field f = write_string (cfl_name f) @ write_u32 (cfl_type f)"

definition encode_method :: "ClassMethod \<Rightarrow> byte list" where
  "encode_method m = write_string (cme_name m) @ write_flag (cme_is_static m)"

definition encode_class :: "ClassSignature \<Rightarrow> byte list" where
  "encode_class c = write_string (cs_name c) @ write_string (cs_base_name c) @ write_string (cs_native_base c) @
     write_u32 (cs_line c) @ (write_count (cs_fields c) @ concat (map encode_field (cs_fields c))) @
     (write_count (cs_methods c) @ concat (map encode_method (cs_methods c)))"

definition encode_field_doc :: "ClassField \<Rightarrow> byte list" where
  "encode_field_doc f = write_string (cfl_class_name f) @ write_string (cfl_description f)"

definition encode_doc :: "ClassSignature \<Rightarrow> byte list" where
  "encode_doc c = write_flag (cs_is_struct c) @ write_string (cs_description c) @ write_count (cs_fields c) @
     concat (map encode_field_doc (cs_fields c))"

definition encode_trait_field :: "ClassField \<Rightarrow> byte list" where
  "encode_trait_field f = write_string (cfl_name f) @ write_u32 (cfl_type f) @ write_string (cfl_class_name f) @
     write_string (cfl_description f)"

definition encode_trait :: "ClassSignature \<Rightarrow> byte list res" where
  "encode_trait c =
     bind_res (encode_function_signatures (cs_trait_methods c)) (\<lambda>methods.
     bind_res (encode_function_signatures (cs_trait_signals c)) (\<lambda>signals.
       Inr (write_flag (cs_is_trait c) @ (write_count (cs_uses c) @ concat (map write_string (cs_uses c))) @
         write_blob methods @ (write_count (cs_trait_fields c) @ concat (map encode_trait_field (cs_trait_fields c))) @
         write_blob signals)))"

definition encode_class_signals :: "ClassSignature \<Rightarrow> byte list res" where
  "encode_class_signals c = bind_res (encode_function_signatures (cs_signals c)) (\<lambda>signals. Inr (write_blob signals))"

definition encode_class_signatures :: "ClassSignature list \<Rightarrow> byte list res" where
  "encode_class_signatures cs =
     bind_res (map_res encode_trait cs) (\<lambda>traits. bind_res (map_res encode_class_signals cs) (\<lambda>signals.
       Inr (write_count cs @ concat (map encode_class cs) @
         write_u32 SDOC @ write_count cs @ concat (map encode_doc cs) @
         write_u32 TRAT @ write_count cs @ concat traits @
         write_u32 CSIG @ write_count cs @ concat signals)))"

section \<open>Decoding\<close>

definition rd_counted :: "'a rd \<Rightarrow> 'a list rd" where
  "rd_counted g = rd_bind rd_u32 (\<lambda>n. rd_bind (rd_check (\<lambda>r. rd_ok r \<and> unat n \<le> rd_size r)) (\<lambda>_. rd_repeat (unat n) g))"

text \<open>A function table inside the blob, decoded in place and then skipped.\<close>

definition rd_function_table :: "FunctionSignature list rd" where
  "rd_function_table = rd_bind rd_u32 (\<lambda>n r.
     if rd_ok r \<and> rd_offset r + unat n \<le> rd_size r then
       (case decode_function_signatures (take (unat n) (drop (rd_offset r) (rd_data r))) of
          None \<Rightarrow> None
        | Some sigs \<Rightarrow> Some (sigs, r\<lparr>rd_offset := rd_offset r + unat n\<rparr>))
     else None)"

definition decode_field :: "ClassField rd" where
  "decode_field = rd_bind rd_string (\<lambda>name. rd_bind rd_u32 (\<lambda>type.
     rd_return \<lparr>cfl_name = name, cfl_type = type, cfl_class_name = [], cfl_description = []\<rparr>))"

definition decode_method :: "ClassMethod rd" where
  "decode_method = rd_bind rd_string (\<lambda>name. rd_bind rd_u8 (\<lambda>v.
     rd_return \<lparr>cme_name = name, cme_is_static = (v \<noteq> 0)\<rparr>))"

definition decode_class :: "ClassSignature rd" where
  "decode_class =
     rd_bind rd_string (\<lambda>name. rd_bind rd_string (\<lambda>base. rd_bind rd_string (\<lambda>native. rd_bind rd_u32 (\<lambda>line.
     rd_bind (rd_counted decode_field) (\<lambda>fields. rd_bind (rd_counted decode_method) (\<lambda>methods.
       rd_return (new_class\<lparr>cs_name := name, cs_base_name := base, cs_native_base := native, cs_line := line,
         cs_fields := fields, cs_methods := methods\<rparr>)))))))"

definition decode_field_doc :: "ClassField \<Rightarrow> ClassField rd" where
  "decode_field_doc f = rd_bind rd_string (\<lambda>class_name. rd_bind rd_string (\<lambda>description.
     rd_return (f\<lparr>cfl_class_name := class_name, cfl_description := description\<rparr>)))"

definition decode_doc :: "ClassSignature \<Rightarrow> ClassSignature rd" where
  "decode_doc c =
     rd_bind rd_u8 (\<lambda>kind. rd_bind (rd_check (\<lambda>_. kind \<le> 1)) (\<lambda>_. rd_bind rd_string (\<lambda>description.
     rd_bind (rd_expect_count (length (cs_fields c))) (\<lambda>_. rd_bind (rd_each decode_field_doc (cs_fields c)) (\<lambda>fields.
       rd_return (c\<lparr>cs_is_struct := (kind \<noteq> 0), cs_description := description, cs_fields := fields\<rparr>))))))"

definition decode_trait_field :: "ClassField rd" where
  "decode_trait_field =
     rd_bind rd_string (\<lambda>name. rd_bind rd_u32 (\<lambda>type. rd_bind rd_string (\<lambda>class_name. rd_bind rd_string (\<lambda>description.
       rd_return \<lparr>cfl_name = name, cfl_type = type, cfl_class_name = class_name, cfl_description = description\<rparr>))))"

text \<open>The kind byte and the number of uses are read before either is checked.\<close>

definition decode_trait :: "ClassSignature \<Rightarrow> ClassSignature rd" where
  "decode_trait c =
     rd_bind rd_u8 (\<lambda>kind. rd_bind rd_u32 (\<lambda>n. rd_bind (rd_check (\<lambda>_. kind \<le> 1)) (\<lambda>_.
     rd_bind (rd_check (\<lambda>r. rd_ok r \<and> unat n \<le> rd_size r)) (\<lambda>_.
     rd_bind (rd_repeat (unat n) rd_string) (\<lambda>uses. rd_bind rd_function_table (\<lambda>methods.
     rd_bind (rd_counted decode_trait_field) (\<lambda>fields. rd_bind rd_function_table (\<lambda>signals.
       rd_return (c\<lparr>cs_is_trait := (kind \<noteq> 0), cs_uses := uses, cs_trait_methods := methods,
         cs_trait_fields := fields, cs_trait_signals := signals\<rparr>)))))))))"

definition decode_class_signals :: "ClassSignature \<Rightarrow> ClassSignature rd" where
  "decode_class_signals c = rd_bind rd_function_table (\<lambda>signals. rd_return (c\<lparr>cs_signals := signals\<rparr>))"

definition decode_signal_section :: "ClassSignature list \<Rightarrow> ClassSignature list rd" where
  "decode_signal_section out =
     rd_bind (rd_expect CSIG) (\<lambda>_. rd_bind (rd_expect_size (length out)) (\<lambda>_.
     rd_bind (rd_each decode_class_signals out) (\<lambda>out.
     rd_bind (rd_check (\<lambda>r. rd_ok r \<and> rd_at_end r)) (\<lambda>_. rd_return out))))"

definition decode_trait_section :: "ClassSignature list \<Rightarrow> ClassSignature list rd" where
  "decode_trait_section out =
     rd_bind (rd_expect TRAT) (\<lambda>_. rd_bind (rd_expect_count (length out)) (\<lambda>_.
     rd_bind (rd_each decode_trait out) (\<lambda>out r.
       if rd_ok r \<and> rd_at_end r then Some (out, r) else decode_signal_section out r)))"

definition decode_doc_section :: "ClassSignature list \<Rightarrow> ClassSignature list rd" where
  "decode_doc_section out =
     rd_bind (rd_expect SDOC) (\<lambda>_. rd_bind (rd_expect_count (length out)) (\<lambda>_.
     rd_bind (rd_each decode_doc out) (\<lambda>out.
     rd_bind (rd_check rd_ok) (\<lambda>_. rd_if_end (rd_return out) (decode_trait_section out)))))"

definition decode_class_table :: "ClassSignature list rd" where
  "decode_class_table =
     rd_bind (rd_counted decode_class) (\<lambda>out.
     rd_bind (rd_check rd_ok) (\<lambda>_. rd_if_end (rd_return out) (decode_doc_section out)))"

definition decode_class_signatures :: "byte list \<Rightarrow> ClassSignature list option" where
  "decode_class_signatures data = rd_run decode_class_table data"

section \<open>Round trip\<close>

definition valid_field :: "ClassField \<Rightarrow> bool" where
  "valid_field f \<longleftrightarrow> short (cfl_name f) \<and> short (cfl_class_name f) \<and> short (cfl_description f)"

definition valid_table :: "FunctionSignature list \<Rightarrow> bool" where
  "valid_table sigs \<longleftrightarrow> short sigs \<and> list_all valid_signature sigs \<and>
     (case encode_function_signatures sigs of Inr bs \<Rightarrow> short bs | Inl _ \<Rightarrow> True)"

definition valid_class :: "ClassSignature \<Rightarrow> bool" where
  "valid_class c \<longleftrightarrow> short (cs_name c) \<and> short (cs_base_name c) \<and> short (cs_native_base c) \<and> short (cs_description c) \<and>
     short (cs_fields c) \<and> list_all valid_field (cs_fields c) \<and>
     short (cs_methods c) \<and> list_all (\<lambda>m. short (cme_name m)) (cs_methods c) \<and>
     short (cs_uses c) \<and> list_all short (cs_uses c) \<and>
     short (cs_trait_fields c) \<and> list_all valid_field (cs_trait_fields c) \<and>
     valid_table (cs_trait_methods c) \<and> valid_table (cs_trait_signals c) \<and> valid_table (cs_signals c)"

definition wire_class :: "ClassSignature \<Rightarrow> ClassSignature" where
  "wire_class c = c\<lparr>cs_source_path := [], cs_trait_methods := map wire_signature (cs_trait_methods c),
     cs_trait_signals := map wire_signature (cs_trait_signals c), cs_signals := map wire_signature (cs_signals c)\<rparr>"

definition field0 :: "ClassField \<Rightarrow> ClassField" where
  "field0 f = f\<lparr>cfl_class_name := [], cfl_description := []\<rparr>"

definition class0 :: "ClassSignature \<Rightarrow> ClassSignature" where
  "class0 c = new_class\<lparr>cs_name := cs_name c, cs_base_name := cs_base_name c, cs_native_base := cs_native_base c,
     cs_line := cs_line c, cs_fields := map field0 (cs_fields c), cs_methods := cs_methods c\<rparr>"

definition class1 :: "ClassSignature \<Rightarrow> ClassSignature" where
  "class1 c = (class0 c)\<lparr>cs_is_struct := cs_is_struct c, cs_description := cs_description c, cs_fields := cs_fields c\<rparr>"

definition class2 :: "ClassSignature \<Rightarrow> ClassSignature" where
  "class2 c = (wire_class c)\<lparr>cs_signals := []\<rparr>"

lemmas class_defs = class0_def class1_def class2_def wire_class_def new_class_def

interpretation field: record_codec valid_field "\<lambda>f. Inr (encode_field f)" decode_field field0
proof
  fix f bs assume "valid_field f" "Inr (encode_field f) = (Inr bs :: byte list res)"
  then show "reads decode_field bs (field0 f)"
    by (cases f) (auto simp: encode_field_def decode_field_def valid_field_def field0_def
      intro!: reads_bind[OF short_string] reads_map[OF reads_u32])
qed (auto simp: encode_field_def)

interpretation trait_field: record_codec valid_field "\<lambda>f. Inr (encode_trait_field f)" decode_trait_field id
proof
  fix f bs assume "valid_field f" "Inr (encode_trait_field f) = (Inr bs :: byte list res)"
  then show "reads decode_trait_field bs (id f)"
    by (cases f) (auto simp: encode_trait_field_def decode_trait_field_def valid_field_def
      intro!: reads_bind[OF short_string] reads_bind[OF reads_u32] reads_map[OF short_string])
qed (auto simp: encode_trait_field_def)

interpretation class_method: record_codec "\<lambda>m. short (cme_name m)" "\<lambda>m. Inr (encode_method m)" decode_method id
proof
  fix m bs assume "short (cme_name m)" "Inr (encode_method m) = (Inr bs :: byte list res)"
  then show "reads decode_method bs (id m)"
    by (cases m) (auto simp: encode_method_def decode_method_def intro!: reads_bind[OF short_string] reads_map[OF reads_flag])
qed (auto simp: encode_method_def)

interpretation text_record: record_codec short "\<lambda>s. Inr (write_string s)" rd_string id
  by unfold_locales (auto simp: short_string)

lemmas field_counted = field.counted[where bss = "map encode_field xs" for xs, folded rd_counted_def, unfolded map_res_total, OF _ _ refl]

lemmas method_counted = class_method.counted[where bss = "map encode_method xs" for xs, folded rd_counted_def, unfolded map_res_total, OF _ _ refl]

lemmas trait_field_counted =
  trait_field.counted[where bss = "map encode_trait_field xs" for xs, folded rd_counted_def, unfolded map_res_total, OF _ _ refl]

interpretation class_record: record_codec valid_class "\<lambda>c. Inr (encode_class c)" decode_class class0
proof
  fix c bs assume v: "valid_class c" and "Inr (encode_class c) = (Inr bs :: byte list res)"
  then have bs: "bs = encode_class c" by simp
  have s: "short (cs_name c)" "short (cs_base_name c)" "short (cs_native_base c)"
    "list_all valid_field (cs_fields c)" "length (cs_fields c) < 2 ^ 32"
    "list_all (\<lambda>m. short (cme_name m)) (cs_methods c)" "length (cs_methods c) < 2 ^ 32"
    using v by (auto simp: valid_class_def short_def)
  show "reads decode_class bs (class0 c)" unfolding decode_class_def bs encode_class_def
    by (intro reads_bind[OF short_string] reads_bind[OF reads_u32] reads_bind[OF field_counted[OF s(4,5)]]
        reads_map[OF method_counted[OF s(6,7)]] s(1-3)) (simp add: class0_def)
qed (auto simp: encode_class_def)

lemma reads_doc:
  assumes "valid_class c" shows "reads (decode_doc (class0 c)) (encode_doc c) (class1 c)"
proof -
  have s: "short (cs_description c)" "length (cs_fields c) < 2 ^ 32" "\<And>f. f \<in> set (cs_fields c) \<Longrightarrow> valid_field f"
    using assms by (auto simp: valid_class_def short_def list_all_iff)
  have f: "cs_fields (class0 c) = map field0 (cs_fields c)" by (simp add: class_defs)
  have "reads (decode_field_doc (field0 f)) (encode_field_doc f) f" if "valid_field f" for f
    using that unfolding decode_field_doc_def encode_field_doc_def
    by (cases f) (auto simp: valid_field_def field0_def intro!: reads_bind[OF short_string] reads_map[OF short_string])
  then have each: "reads (rd_each decode_field_doc (map field0 (cs_fields c))) (concat (map encode_field_doc (cs_fields c)))
      (map (\<lambda>f. f) (cs_fields c))"
    by (intro reads_each_map) (simp add: s(3))
  show ?thesis unfolding decode_doc_def encode_doc_def f
    by (intro reads_bind[OF reads_flag] reads_bind_none[OF reads_check(3)] reads_bind[OF short_string] s(1)
        reads_bind[OF reads_expect_count(1)[OF s(2)]] reads_map[OF each]) (auto simp: class_defs)
qed

lemma reads_function_table:
  assumes "valid_table sigs" "encode_function_signatures sigs = Inr bs"
  shows "reads rd_function_table (write_blob bs) (map wire_signature sigs)"
proof -
  have s: "length bs < 2 ^ 32" "decode_function_signatures bs = Some (map wire_signature sigs)"
    using assms function_signatures_round[OF assms(2)] by (auto simp: valid_table_def short_def)
  show ?thesis unfolding rd_function_table_def write_blob_def
    by (rule reads_bind[OF reads_count]) (use s in \<open>simp add: reads_def unat_count rd_size_def\<close>)
qed

lemma class2_eq:
  "(class1 c)\<lparr>cs_is_trait := cs_is_trait c, cs_uses := cs_uses c, cs_trait_methods := map wire_signature (cs_trait_methods c),
     cs_trait_fields := cs_trait_fields c, cs_trait_signals := map wire_signature (cs_trait_signals c)\<rparr> = class2 c"
  by (cases c) (simp add: class_defs)

lemma wire_class_eq: "(class2 c)\<lparr>cs_signals := map wire_signature (cs_signals c)\<rparr> = wire_class c"
  by (cases c) (simp add: class_defs)

lemma reads_trait:
  assumes v: "valid_class c" and e: "encode_trait c = Inr bs"
  shows "reads (decode_trait (class1 c)) bs (class2 c)"
proof -
  obtain ms ss where m: "encode_function_signatures (cs_trait_methods c) = Inr ms"
    "encode_function_signatures (cs_trait_signals c) = Inr ss"
    "bs = write_flag (cs_is_trait c) @ (write_count (cs_uses c) @ concat (map write_string (cs_uses c))) @
         write_blob ms @ (write_count (cs_trait_fields c) @ concat (map encode_trait_field (cs_trait_fields c))) @
         write_blob ss"
    using e by (auto simp: encode_trait_def res_simps)
  have s: "list_all short (cs_uses c)" "length (cs_uses c) < 2 ^ 32" "list_all valid_field (cs_trait_fields c)"
    "length (cs_trait_fields c) < 2 ^ 32" "valid_table (cs_trait_methods c)" "valid_table (cs_trait_signals c)"
    using v by (auto simp: valid_class_def short_def)
  have n: "unat (word_of_nat (length (cs_uses c)) :: uint32) = length (cs_uses c)" using s(2) by (rule unat_count)
  let ?rest = "write_blob ms @ (write_count (cs_trait_fields c) @ concat (map encode_trait_field (cs_trait_fields c))) @ write_blob ss"
  have uses: "reads (rd_repeat (length (cs_uses c)) rd_string) (concat (map write_string (cs_uses c))) (cs_uses c)"
    using text_record.list_round[OF s(1)] by simp
  have size: "length (cs_uses c) \<le> length (concat (map write_string (cs_uses c)) @ ?rest)"
    using text_record.list_size[of "cs_uses c"] by simp
  have bs: "bs = write_flag (cs_is_trait c) @ write_count (cs_uses c) @ concat (map write_string (cs_uses c)) @ ?rest"
    using m(3) by simp
  show ?thesis unfolding decode_trait_def bs
  proof (rule reads_bind[OF reads_flag], rule reads_bind[OF reads_count], rule reads_bind_none[OF reads_check(3)], simp,
      rule reads_checked_count, unfold n)
    show "length (cs_uses c) \<le> length (concat (map write_string (cs_uses c)) @ ?rest)" by (rule size)
    show "reads (rd_bind (rd_repeat (length (cs_uses c)) rd_string) (\<lambda>uses. rd_bind rd_function_table (\<lambda>methods.
        rd_bind (rd_counted decode_trait_field) (\<lambda>fields. rd_bind rd_function_table (\<lambda>signals.
        rd_return (class1 c\<lparr>cs_is_trait := ((if cs_is_trait c then 1 else 0 :: uint8) \<noteq> 0), cs_uses := uses,
          cs_trait_methods := methods, cs_trait_fields := fields, cs_trait_signals := signals\<rparr>)))))
        ) (concat (map write_string (cs_uses c)) @ ?rest) (class2 c)"
      by (rule reads_bind[OF uses], rule reads_bind[OF reads_function_table[OF s(5) m(1)]],
        rule reads_bind[OF trait_field_counted[OF s(3,4)]], rule reads_map[OF reads_function_table[OF s(6) m(2)]])
        (use class2_eq[of c] in \<open>cases "cs_is_trait c"; simp\<close>)
  qed
qed

lemma reads_class_signals:
  assumes "valid_class c" "encode_class_signals c = Inr bs"
  shows "reads (decode_class_signals (class2 c)) bs (wire_class c)"
proof -
  obtain ss where s: "encode_function_signatures (cs_signals c) = Inr ss" "bs = write_blob ss"
    using assms(2) by (auto simp: encode_class_signals_def res_simps)
  have "valid_table (cs_signals c)" using assms(1) by (simp add: valid_class_def)
  from reads_function_table[OF this s(1)] show ?thesis unfolding decode_class_signals_def s(2)
    by (rule reads_map) (simp add: wire_class_eq)
qed

lemma reads_each_res:
  assumes "map_res enc xs = Inr bss" "\<And>x bs. x \<in> set xs \<Longrightarrow> enc x = Inr bs \<Longrightarrow> reads (f (pre x)) bs (post x)"
  shows "reads (rd_each f (map pre xs)) (concat bss) (map post xs)"
  using assms
proof (induction xs arbitrary: bss)
  case (Cons x xs)
  then obtain bs bss' where bs: "enc x = Inr bs" "map_res enc xs = Inr bss'" "bss = bs # bss'" by (auto simp: res_simps)
  have "reads (rd_bind (rd_each f (map pre xs)) (\<lambda>ys. rd_return (post x # ys))) (concat bss') (map post (x # xs))"
    by (rule reads_map[OF Cons.IH[OF bs(2)]]) (use Cons.prems(2) in auto)
  then show ?case using reads_bind[OF Cons.prems(2)[OF _ bs(1)]] bs(3) by simp
qed (simp add: reads_return)

lemma class_signatures_round:
  assumes e: "encode_class_signatures cs = Inr bs" and v: "short cs" "list_all valid_class cs"
  shows "decode_class_signatures bs = Some (map wire_class cs)"
proof -
  obtain ts ss where t: "map_res encode_trait cs = Inr ts" "map_res encode_class_signals cs = Inr ss"
    "bs = (write_count cs @ concat (map encode_class cs)) @ write_u32 SDOC @ write_count cs @ concat (map encode_doc cs) @
      write_u32 TRAT @ write_count cs @ concat ts @ write_u32 CSIG @ write_count cs @ concat ss"
    using e by (auto simp: encode_class_signatures_def res_simps)
  have n: "length cs < 2 ^ 32" using v(1) by (simp add: short_def)
  have vc: "valid_class c" if "c \<in> set cs" for c using v(2) that by (simp add: list_all_iff)
  have signals: "reads_last (decode_signal_section (map class2 cs)) (write_u32 CSIG @ write_count cs @ concat ss) (map wire_class cs)"
    unfolding decode_signal_section_def
    by (rule reads_last_bind[OF reads_expect], rule reads_last_bind[OF reads_expect_count(2)[OF n]], simp,
      rule reads_last_then_end, rule reads_imp_last, rule reads_each_res[OF t(2)])
      (auto intro: reads_class_signals vc)
  have traits: "reads (rd_each decode_trait (map class1 cs)) (concat ts) (map class2 cs)"
    by (rule reads_each_res[OF t(1)]) (auto intro: reads_trait vc)
  have more: "reads_last (\<lambda>r. if rd_ok r \<and> rd_at_end r then Some (map class2 cs, r) else decode_signal_section (map class2 cs) r)
      (write_u32 CSIG @ write_count cs @ concat ss) (map wire_class cs)"
    using signals by (simp add: reads_last_def rd_at_end_def rd_size_def)
  have trait: "reads_last (decode_trait_section (map class1 cs))
      (write_u32 TRAT @ write_count cs @ concat ts @ write_u32 CSIG @ write_count cs @ concat ss) (map wire_class cs)"
    unfolding decode_trait_section_def
    by (rule reads_last_bind[OF reads_expect], rule reads_last_bind[OF reads_expect_count(1)[OF n]], simp,
      rule reads_last_bind[OF traits], rule more)
  have docs: "reads (rd_each decode_doc (map class0 cs)) (concat (map encode_doc cs)) (map class1 cs)"
    by (rule reads_each_map, rule reads_doc[OF vc])
  have doc: "reads_last (decode_doc_section (map class0 cs))
      (write_u32 SDOC @ write_count cs @ concat (map encode_doc cs) @
       write_u32 TRAT @ write_count cs @ concat ts @ write_u32 CSIG @ write_count cs @ concat ss) (map wire_class cs)"
    unfolding decode_doc_section_def
    by (rule reads_last_bind[OF reads_expect], rule reads_last_bind[OF reads_expect_count(1)[OF n]], simp,
      rule reads_last_bind[OF docs], rule reads_last_bind_none[OF reads_check(2)], rule reads_last_if_end[OF trait], simp)
  have base: "reads (rd_counted decode_class) (write_count cs @ concat (map encode_class cs)) (map class0 cs)"
    unfolding rd_counted_def by (rule class_record.counted[OF v(2) n]) simp
  have "reads_last decode_class_table bs (map wire_class cs)"
    unfolding decode_class_table_def t(3)
    by (rule reads_last_bind[OF base], rule reads_last_bind_none[OF reads_check(2)], rule reads_last_if_end[OF doc], simp)
  then show ?thesis unfolding decode_class_signatures_def by (rule reads_last_run)
qed

end
