(* ===== verification/Property_Signatures.thy ===== *)
theory Property_Signatures
  imports Signatures
begin

text \<open>
  The property table (\<^verbatim>\<open>property_signature.h\<close>, \<^verbatim>\<open>property_signature.cpp\<close>) and the table of
  variables for a debugger with its memory layout (\<^verbatim>\<open>debug_layout.h\<close>, \<^verbatim>\<open>debug_layout.cpp\<close>). Their
  decoders work on a copy, limit the sizes and check every record; the null pointer is \<open>None\<close>.
\<close>

section \<open>Properties\<close>

datatype PropertyDefaultKind =
    PK_NONE | PK_NIL | PK_INT | PK_FLOAT | PK_BOOL | PK_STRING | PK_EMPTY_ARRAY | PK_EMPTY_DICTIONARY

record ExportSection =
  xs_category :: string
  xs_group :: string
  xs_group_prefix :: string
  xs_subgroup :: string
  xs_subgroup_prefix :: string

definition no_section :: ExportSection where
  "no_section = \<lparr>xs_category = [], xs_group = [], xs_group_prefix = [], xs_subgroup = [], xs_subgroup_prefix = []\<rparr>"

definition section_is_default :: "ExportSection \<Rightarrow> bool" where
  "section_is_default s = (xs_category s = [] \<and> xs_group s = [] \<and> xs_subgroup s = [])"

record PropertySignature =
  ps_name :: string
  ps_type :: uint32
  ps_class_name :: string
  ps_hint :: uint32
  ps_hint_string :: string
  ps_usage :: uint32
  ps_declaration_line :: uint32
  ps_section :: ExportSection
  ps_is_member :: bool
  ps_is_static :: bool
  ps_default_kind :: PropertyDefaultKind
  ps_default_value :: wire_value

definition PROPERTY_MAGIC :: uint32 where "PROPERTY_MAGIC = 0x50524753"

definition PROPERTY_MAJOR :: uint16 where "PROPERTY_MAJOR = 1"

definition PROPERTY_MINOR :: uint16 where "PROPERTY_MINOR = 1"

definition MAX_BLOB_SIZE :: nat where "MAX_BLOB_SIZE = 16 * 1024 * 1024"

definition MAX_RECORDS :: nat where "MAX_RECORDS = 100000"

definition MAX_STRING_SIZE :: nat where "MAX_STRING_SIZE = 1024 * 1024"

definition PROPERTY_KINDS :: "PropertyDefaultKind list" where
  "PROPERTY_KINDS = [PK_NONE, PK_NIL, PK_INT, PK_FLOAT, PK_BOOL, PK_STRING, PK_EMPTY_ARRAY, PK_EMPTY_DICTIONARY]"

primrec property_code :: "PropertyDefaultKind \<Rightarrow> uint8" where
  "property_code PK_NONE = 0"
| "property_code PK_NIL = 1"
| "property_code PK_INT = 2"
| "property_code PK_FLOAT = 3"
| "property_code PK_BOOL = 4"
| "property_code PK_STRING = 5"
| "property_code PK_EMPTY_ARRAY = 6"
| "property_code PK_EMPTY_DICTIONARY = 7"

definition write_property_default :: "PropertyDefaultKind \<Rightarrow> wire_value \<Rightarrow> byte list res" where
  "write_property_default kind v = (case kind of
     PK_INT \<Rightarrow> bind_res (get_wint v) (\<lambda>i. Inr (write_u64 i))
   | PK_FLOAT \<Rightarrow> bind_res (get_wfloat v) (\<lambda>d. Inr (write_double d))
   | PK_BOOL \<Rightarrow> bind_res (get_wbool v) (\<lambda>b. Inr (write_flag b))
   | PK_STRING \<Rightarrow> bind_res (get_wstring v) (\<lambda>s. Inr (write_string s))
   | _ \<Rightarrow> Inr [])"

definition encode_section :: "ExportSection \<Rightarrow> byte list" where
  "encode_section s = write_string (xs_category s) @ write_string (xs_group s) @ write_string (xs_group_prefix s) @
     write_string (xs_subgroup s) @ write_string (xs_subgroup_prefix s)"

definition encode_property :: "PropertySignature \<Rightarrow> byte list res" where
  "encode_property p = bind_res (write_property_default (ps_default_kind p) (ps_default_value p)) (\<lambda>v.
     Inr (write_string (ps_name p) @ write_u32 (ps_type p) @ write_string (ps_class_name p) @ write_u32 (ps_hint p) @
       write_string (ps_hint_string p) @ write_u32 (ps_usage p) @ write_u32 (ps_declaration_line p) @
       encode_section (ps_section p) @ write_flag (ps_is_member p) @ write_flag (ps_is_static p) @
       write_u8 (property_code (ps_default_kind p)) @ v))"

definition encode_property_signatures :: "PropertySignature list \<Rightarrow> byte list res" where
  "encode_property_signatures ps = bind_res (map_res encode_property ps) (\<lambda>bss.
     Inr (write_u32 PROPERTY_MAGIC @ write_u16 PROPERTY_MAJOR @ write_u16 PROPERTY_MINOR @ write_count ps @ concat bss))"

abbreviation (input) rd_text :: "string rd" where
  "rd_text \<equiv> rd_string_upto MAX_STRING_SIZE"

definition read_property_default :: "PropertyDefaultKind \<Rightarrow> wire_value rd" where
  "read_property_default kind = (case kind of
     PK_INT \<Rightarrow> rd_bind rd_u64 (\<lambda>i. rd_return (WInt i))
   | PK_FLOAT \<Rightarrow> rd_bind rd_u64 (\<lambda>w. rd_return (WFloat (Double w)))
   | PK_BOOL \<Rightarrow> rd_bind rd_u8 (\<lambda>b. rd_bind (rd_check (\<lambda>_. b \<le> 1)) (\<lambda>_. rd_return (WBool (b \<noteq> 0))))
   | PK_STRING \<Rightarrow> rd_bind rd_text (\<lambda>s. rd_return (WString s))
   | _ \<Rightarrow> rd_return (WInt 0))"

definition decode_section :: "ExportSection rd" where
  "decode_section =
     rd_bind rd_text (\<lambda>category. rd_bind rd_text (\<lambda>group. rd_bind rd_text (\<lambda>group_prefix. rd_bind rd_text (\<lambda>subgroup.
     rd_bind rd_text (\<lambda>subgroup_prefix.
       rd_return \<lparr>xs_category = category, xs_group = group, xs_group_prefix = group_prefix, xs_subgroup = subgroup,
         xs_subgroup_prefix = subgroup_prefix\<rparr>)))))"

definition type_in_range :: "uint32 \<Rightarrow> bool" where
  "type_in_range t = (- 1 \<le> sint t \<and> sint t \<le> 64)"

definition decode_property :: "uint16 \<Rightarrow> PropertySignature rd" where
  "decode_property minor =
     rd_bind rd_text (\<lambda>name. rd_bind rd_u32 (\<lambda>type. rd_bind rd_text (\<lambda>class_name. rd_bind rd_u32 (\<lambda>hint.
     rd_bind rd_text (\<lambda>hint_string. rd_bind rd_u32 (\<lambda>usage. rd_bind rd_u32 (\<lambda>line.
     rd_bind (if 1 \<le> minor then decode_section else rd_return no_section) (\<lambda>sec.
     rd_bind rd_u8 (\<lambda>member. rd_bind rd_u8 (\<lambda>static. rd_bind rd_u8 (\<lambda>kind.
     rd_bind (rd_check (\<lambda>r. rd_ok r \<and> (name \<noteq> [] \<and> member \<le> 1 \<and> static \<le> 1 \<and> kind \<le> 7 \<and> type_in_range type))) (\<lambda>_.
     rd_bind (read_property_default (PROPERTY_KINDS ! unat kind)) (\<lambda>v. rd_bind (rd_check rd_ok) (\<lambda>_.
       rd_return \<lparr>ps_name = name, ps_type = type, ps_class_name = class_name, ps_hint = hint,
         ps_hint_string = hint_string, ps_usage = usage, ps_declaration_line = line, ps_section = sec,
         ps_is_member = (member \<noteq> 0), ps_is_static = (static \<noteq> 0),
         ps_default_kind = PROPERTY_KINDS ! unat kind, ps_default_value = v\<rparr>))))))))))))))"

text \<open>The number of records is limited on its own and by the size of the blob.\<close>

definition rd_limited :: "'a rd \<Rightarrow> 'a list rd" where
  "rd_limited g = rd_bind rd_u32 (\<lambda>n. rd_bind (rd_check (\<lambda>_. unat n \<le> MAX_RECORDS)) (\<lambda>_.
     rd_bind (rd_check (\<lambda>r. rd_ok r \<and> unat n \<le> rd_size r)) (\<lambda>_. rd_repeat (unat n) g)))"

definition decode_property_table :: "PropertySignature list rd" where
  "decode_property_table =
     rd_bind (rd_expect PROPERTY_MAGIC) (\<lambda>_. rd_bind rd_u16 (\<lambda>major. rd_bind (rd_check (\<lambda>_. major = PROPERTY_MAJOR)) (\<lambda>_.
     rd_bind rd_u16 (\<lambda>minor. rd_bind (rd_check (\<lambda>r. rd_ok r \<and> minor \<le> PROPERTY_MINOR)) (\<lambda>_.
     rd_bind (rd_limited (decode_property minor)) (\<lambda>staged.
     rd_bind (rd_check (\<lambda>r. rd_ok r \<and> rd_at_end r)) (\<lambda>_. rd_return staged)))))))"

definition decode_property_signatures :: "byte list option \<Rightarrow> PropertySignature list option" where
  "decode_property_signatures blob = (case blob of
     None \<Rightarrow> None
   | Some data \<Rightarrow> if MAX_BLOB_SIZE < length data then None else rd_run decode_property_table data)"

section \<open>Round trip of the properties\<close>

definition has_property_payload :: "PropertyDefaultKind \<Rightarrow> bool" where
  "has_property_payload k \<longleftrightarrow> k \<in> {PK_INT, PK_FLOAT, PK_BOOL, PK_STRING}"

definition wire_property :: "PropertySignature \<Rightarrow> PropertySignature" where
  "wire_property p = p\<lparr>ps_default_value := (if has_property_payload (ps_default_kind p) then ps_default_value p else WInt 0)\<rparr>"

definition small :: "string \<Rightarrow> bool" where
  "small s \<longleftrightarrow> length s \<le> MAX_STRING_SIZE"

definition valid_section :: "ExportSection \<Rightarrow> bool" where
  "valid_section s \<longleftrightarrow> small (xs_category s) \<and> small (xs_group s) \<and> small (xs_group_prefix s) \<and>
     small (xs_subgroup s) \<and> small (xs_subgroup_prefix s)"

definition valid_property :: "PropertySignature \<Rightarrow> bool" where
  "valid_property p \<longleftrightarrow> ps_name p \<noteq> [] \<and> type_in_range (ps_type p) \<and> small (ps_name p) \<and> small (ps_class_name p) \<and>
     small (ps_hint_string p) \<and> valid_section (ps_section p) \<and>
     (case ps_default_value p of WString s \<Rightarrow> small s | _ \<Rightarrow> True)"

lemma small_text: "small s \<Longrightarrow> reads rd_text (write_string s) s"
  by (simp add: small_def reads_string_upto MAX_STRING_SIZE_def)

lemma property_code_round [simp]: "PROPERTY_KINDS ! unat (property_code k) = k" "property_code k \<le> 7"
  by (cases k; simp add: PROPERTY_KINDS_def)+

lemma reads_checked_flag:
  "reads (rd_bind rd_u8 (\<lambda>b. rd_bind (rd_check (\<lambda>_. b \<le> 1)) (\<lambda>_. rd_return (WBool (b \<noteq> 0))))) (write_flag b) (WBool b)"
  by (rule reads_map[OF reads_flag]) (simp add: rd_bind_def rd_check_def rd_return_def fun_eq_iff)

lemma reads_property_default:
  assumes "write_property_default k v = Inr bs" "case v of WString s \<Rightarrow> small s | _ \<Rightarrow> True"
  shows "reads (read_property_default k) bs (if has_property_payload k then v else WInt 0)"
  using assms
  by (cases k; cases v)
    (auto simp: write_property_default_def read_property_default_def has_property_payload_def get_wint_def get_wfloat_def
      get_wbool_def get_wstring_def write_double_def reads_return reads_checked_flag
      intro!: reads_map[OF reads_u64] reads_map[OF small_text] split: wire_value.splits if_splits)

lemma reads_section: "valid_section s \<Longrightarrow> reads decode_section (encode_section s) s"
  unfolding decode_section_def encode_section_def
  by (cases s) (auto simp: valid_section_def intro!: reads_bind[OF small_text] reads_map[OF small_text])

interpretation property: record_codec valid_property encode_property "decode_property PROPERTY_MINOR" wire_property
proof
  fix p bs assume v: "valid_property p" and "encode_property p = Inr bs"
  then obtain d where d: "write_property_default (ps_default_kind p) (ps_default_value p) = Inr d"
    "bs = write_string (ps_name p) @ write_u32 (ps_type p) @ write_string (ps_class_name p) @ write_u32 (ps_hint p) @
       write_string (ps_hint_string p) @ write_u32 (ps_usage p) @ write_u32 (ps_declaration_line p) @
       encode_section (ps_section p) @ write_flag (ps_is_member p) @ write_flag (ps_is_static p) @
       write_u8 (property_code (ps_default_kind p)) @ d @ []"
    by (auto simp: encode_property_def res_simps)
  have s: "small (ps_name p)" "small (ps_class_name p)" "small (ps_hint_string p)" "valid_section (ps_section p)"
    "ps_name p \<noteq> []" "type_in_range (ps_type p)" "case ps_default_value p of WString s \<Rightarrow> small s | _ \<Rightarrow> True"
    using v by (auto simp: valid_property_def)
  have sec: "reads (if 1 \<le> PROPERTY_MINOR then decode_section else rd_return no_section) (encode_section (ps_section p)) (ps_section p)"
    by (simp add: PROPERTY_MINOR_def reads_section s(4))
  show "reads (decode_property PROPERTY_MINOR) bs (wire_property p)" unfolding decode_property_def d(2)
    by (intro reads_bind[OF small_text] reads_bind[OF reads_u32] reads_bind[OF sec] reads_bind[OF reads_flag]
        reads_bind[OF reads_u8] reads_bind_none[OF reads_check(1)] s(1-3), use s in simp, unfold property_code_round,
        rule reads_bind[OF reads_property_default[OF d(1) s(7)]], rule reads_bind_none[OF reads_check(2)])
      (cases p, simp add: wire_property_def reads_return)
next
  fix p bs assume "encode_property p = Inr bs"
  then show "bs \<noteq> []" by (auto simp: encode_property_def res_simps)
qed

lemma reads_limited:
  assumes "length xs \<le> MAX_RECORDS" "reads (rd_repeat (length xs) g) bs ys" "length xs \<le> length bs"
  shows "reads (rd_limited g) (write_count xs @ bs) ys"
proof -
  have "length xs < 2 ^ 32" using assms(1) by (simp add: MAX_RECORDS_def)
  then have n: "unat (word_of_nat (length xs) :: uint32) = length xs" by (rule unat_count)
  show ?thesis unfolding rd_limited_def
    by (rule reads_bind[OF reads_count], unfold n, rule reads_bind_none[OF reads_check(3)], rule assms(1))
      (use assms(2,3) n reads_checked_count[of "\<lambda>_. rd_repeat (length xs) g" bs ys "word_of_nat (length xs) :: uint32"] in simp)
qed

lemma property_signatures_round:
  assumes e: "encode_property_signatures ps = Inr bs" and v: "list_all valid_property ps" "length ps \<le> MAX_RECORDS"
    "length bs \<le> MAX_BLOB_SIZE"
  shows "decode_property_signatures (Some bs) = Some (map wire_property ps)"
proof -
  obtain bss where b: "map_res encode_property ps = Inr bss"
    "bs = write_u32 PROPERTY_MAGIC @ write_u16 PROPERTY_MAJOR @ write_u16 PROPERTY_MINOR @ (write_count ps @ concat bss) @ []"
    using e by (auto simp: encode_property_signatures_def res_simps)
  have rows: "reads (rd_limited (decode_property PROPERTY_MINOR)) (write_count ps @ concat bss) (map wire_property ps)"
    by (rule reads_limited[OF v(2) property.list_round[OF v(1) b(1)] property.list_size[OF b(1)]])
  have "reads_last decode_property_table bs (map wire_property ps)" unfolding decode_property_table_def b(2)
    by (rule reads_last_bind[OF reads_expect], rule reads_last_bind[OF reads_u16], rule reads_last_bind_none[OF reads_check(3)],
      rule refl, rule reads_last_bind[OF reads_u16], rule reads_last_bind_none[OF reads_check(1)], rule order_refl,
      rule reads_last_then_end[OF reads_imp_last], simp add: rows)
  then show ?thesis using v(3) by (simp add: decode_property_signatures_def reads_last_run)
qed

text \<open>Whatever the blob, an accepted table is within its limits and every record passes the checks.\<close>

lemma gives_limited:
  assumes "gives g P" shows "gives (rd_limited g) (\<lambda>xs. list_all P xs \<and> length xs \<le> MAX_RECORDS)"
proof -
  have "gives (rd_repeat (unat n) g) (\<lambda>xs. list_all P xs \<and> length xs \<le> MAX_RECORDS)" if "unat n \<le> MAX_RECORDS" for n :: uint32
    using gives_conj[OF gives_repeat[OF assms, of "unat n"] gives_repeat_length[of "unat n" g]] that
    by (auto simp: gives_def)
  then show ?thesis unfolding rd_limited_def by (intro gives_after gives_check(2)) simp
qed

lemma accepted_properties:
  assumes "decode_property_signatures blob = Some ps"
  shows "list_all (\<lambda>p. ps_name p \<noteq> [] \<and> type_in_range (ps_type p)) ps \<and> length ps \<le> MAX_RECORDS"
proof -
  obtain data where d: "rd_run decode_property_table data = Some ps"
    using assms by (auto simp: decode_property_signatures_def split: option.splits if_splits)
  have p: "gives (decode_property minor) (\<lambda>p. ps_name p \<noteq> [] \<and> type_in_range (ps_type p))" for minor
    unfolding decode_property_def
    by (rule gives_after, rule gives_after, rule gives_after, rule gives_after, rule gives_after, rule gives_after,
      rule gives_after, rule gives_after, rule gives_after, rule gives_after, rule gives_after, rule gives_check(1),
      rule gives_after, rule gives_after, rule gives_return) simp
  show ?thesis
    by (rule gives_run[OF _ d], unfold decode_property_table_def, rule gives_after, rule gives_after, rule gives_after,
      rule gives_after, rule gives_after, rule gives_bind[OF gives_limited[OF p]], rule gives_after, rule gives_return)
qed

section \<open>The debugger's memory\<close>

definition DEBUG_MAX_DEPTH :: uint32 where "DEBUG_MAX_DEPTH = 256"

definition DEBUG_HEADER_SIZE :: int where "DEBUG_HEADER_SIZE = 32"

definition DEBUG_FRAME_SIZE :: int where "DEBUG_FRAME_SIZE = 32"

definition frames_offset :: int where
  "frames_offset = DEBUG_HEADER_SIZE"

text \<open>
  \<open>int32_t(depth)\<close> reads the low 32 bits as signed. The product is taken in the integers; up to
  the maximal depth, which is all the guest records, it fits 32 bits.
\<close>

definition frame_offset :: "uint32 \<Rightarrow> int" where
  "frame_offset depth = frames_offset + sint depth * DEBUG_FRAME_SIZE"

definition area_size :: int where
  "area_size = frames_offset + sint DEBUG_MAX_DEPTH * DEBUG_FRAME_SIZE"

lemma sint_small: "uint (w :: uint32) < 2 ^ 31 \<Longrightarrow> sint w = uint w"
  unfolding sint_uint using order_trans[OF _ uint_nonnegative[of w], of "- (2 ^ 31)"]
  by (intro signed_take_bit_int_eq_self) simp_all

lemma frames_in_area:
  assumes "d < DEBUG_MAX_DEPTH"
  shows "DEBUG_HEADER_SIZE \<le> frame_offset d \<and> frame_offset d + DEBUG_FRAME_SIZE \<le> area_size \<and>
    (e < d \<longrightarrow> frame_offset e + DEBUG_FRAME_SIZE \<le> frame_offset d)"
proof -
  have d: "uint d < 256" using assms by (simp add: word_less_def DEBUG_MAX_DEPTH_def)
  have e: "uint e < uint d" if "e < d" using that by (simp add: word_less_def)
  have "sint d = uint d" "e < d \<Longrightarrow> sint e = uint e" using d e by (simp_all add: sint_small)
  then show ?thesis using d e uint_nonnegative[of d]
    by (auto simp: frame_offset_def area_size_def frames_offset_def DEBUG_HEADER_SIZE_def DEBUG_FRAME_SIZE_def DEBUG_MAX_DEPTH_def)
qed

section \<open>Debug variables\<close>

datatype DebugStorage = DS_FRAME | DS_MEMBER | DS_GLOBAL

record DebugVariableRecord =
  dv_function_index :: uint32
  dv_name :: string
  dv_type :: uint32
  dv_storage :: DebugStorage
  dv_offset :: uint32
  dv_pc_begin :: int64
  dv_pc_end :: int64

definition DVAR :: uint32 where "DVAR = 0x52415644"

definition DVAR_MAJOR :: uint16 where "DVAR_MAJOR = 1"

definition DEBUG_STORAGES :: "DebugStorage list" where
  "DEBUG_STORAGES = [DS_FRAME, DS_MEMBER, DS_GLOBAL]"

primrec storage_code :: "DebugStorage \<Rightarrow> uint8" where
  "storage_code DS_FRAME = 0"
| "storage_code DS_MEMBER = 1"
| "storage_code DS_GLOBAL = 2"

definition encode_debug_variable :: "DebugVariableRecord \<Rightarrow> byte list" where
  "encode_debug_variable v = write_u32 (dv_function_index v) @ write_string (dv_name v) @ write_u32 (dv_type v) @
     write_u8 (storage_code (dv_storage v)) @ write_u32 (dv_offset v) @ write_u64 (dv_pc_begin v) @ write_u64 (dv_pc_end v)"

definition encode_debug_variables :: "DebugVariableRecord list \<Rightarrow> byte list" where
  "encode_debug_variables vs = write_u32 DVAR @ write_u16 DVAR_MAJOR @ write_u16 0 @ write_count vs @
     concat (map encode_debug_variable vs)"

definition decode_debug_variable :: "DebugVariableRecord rd" where
  "decode_debug_variable =
     rd_bind rd_u32 (\<lambda>index. rd_bind rd_text (\<lambda>name. rd_bind rd_u32 (\<lambda>type. rd_bind rd_u8 (\<lambda>storage.
     rd_bind rd_u32 (\<lambda>offset. rd_bind rd_u64 (\<lambda>pc_begin. rd_bind rd_u64 (\<lambda>pc_end.
     rd_bind (rd_check (\<lambda>r. rd_ok r \<and> (name \<noteq> [] \<and> storage \<le> 2 \<and> type_in_range type \<and> 0 \<le> sint offset \<and> pc_begin \<le> pc_end))) (\<lambda>_.
       rd_return \<lparr>dv_function_index = index, dv_name = name, dv_type = type, dv_storage = DEBUG_STORAGES ! unat storage,
         dv_offset = offset, dv_pc_begin = pc_begin, dv_pc_end = pc_end\<rparr>))))))))"

definition decode_debug_table :: "DebugVariableRecord list rd" where
  "decode_debug_table =
     rd_bind (rd_expect DVAR) (\<lambda>_. rd_bind rd_u16 (\<lambda>major. rd_bind (rd_check (\<lambda>_. major = DVAR_MAJOR)) (\<lambda>_.
     rd_bind rd_u16 (\<lambda>_. rd_bind (rd_limited decode_debug_variable) (\<lambda>staged.
     rd_bind (rd_check (\<lambda>r. rd_ok r \<and> rd_at_end r)) (\<lambda>_. rd_return staged))))))"

definition decode_debug_variables :: "byte list option \<Rightarrow> DebugVariableRecord list option" where
  "decode_debug_variables blob = (case blob of
     None \<Rightarrow> None
   | Some data \<Rightarrow> if MAX_BLOB_SIZE < length data then None else rd_run decode_debug_table data)"

definition debug_acceptable :: "DebugVariableRecord \<Rightarrow> bool" where
  "debug_acceptable v \<longleftrightarrow> dv_name v \<noteq> [] \<and> type_in_range (dv_type v) \<and> 0 \<le> sint (dv_offset v) \<and> dv_pc_begin v \<le> dv_pc_end v"

definition valid_debug :: "DebugVariableRecord \<Rightarrow> bool" where
  "valid_debug v \<longleftrightarrow> small (dv_name v) \<and> debug_acceptable v"

lemma storage_code_round [simp]: "DEBUG_STORAGES ! unat (storage_code s) = s" "storage_code s \<le> 2"
  by (cases s; simp add: DEBUG_STORAGES_def)+

interpretation debug_variable: record_codec valid_debug "\<lambda>v. Inr (encode_debug_variable v)" decode_debug_variable id
proof
  fix v bs assume v: "valid_debug v" and "Inr (encode_debug_variable v) = (Inr bs :: byte list res)"
  then have bs: "bs = write_u32 (dv_function_index v) @ write_string (dv_name v) @ write_u32 (dv_type v) @
     write_u8 (storage_code (dv_storage v)) @ write_u32 (dv_offset v) @ write_u64 (dv_pc_begin v) @ write_u64 (dv_pc_end v) @ []"
    by (simp add: encode_debug_variable_def)
  have s: "small (dv_name v)" "debug_acceptable v" using v by (simp_all add: valid_debug_def)
  show "reads decode_debug_variable bs (id v)" unfolding decode_debug_variable_def bs
    by (intro reads_bind[OF small_text] reads_bind[OF reads_u32] reads_bind[OF reads_u8] reads_bind[OF reads_u64]
        reads_bind_none[OF reads_check(1)] s(1), use s(2) in \<open>simp add: debug_acceptable_def\<close>)
      (cases v, simp add: reads_return)
qed (auto simp: encode_debug_variable_def)

lemma debug_variables_round:
  assumes v: "list_all valid_debug vs" "length vs \<le> MAX_RECORDS" "length (encode_debug_variables vs) \<le> MAX_BLOB_SIZE"
  shows "decode_debug_variables (Some (encode_debug_variables vs)) = Some vs"
proof -
  have b: "encode_debug_variables vs = write_u32 DVAR @ write_u16 DVAR_MAJOR @ write_u16 0 @
     (write_count vs @ concat (map encode_debug_variable vs))" by (simp add: encode_debug_variables_def)
  have rows: "reads (rd_limited decode_debug_variable) (write_count vs @ concat (map encode_debug_variable vs)) vs"
    using reads_limited[OF v(2)] debug_variable.list_round[OF v(1)] debug_variable.list_size[of vs] by simp
  have "reads_last decode_debug_table (encode_debug_variables vs) vs" unfolding decode_debug_table_def b
    by (rule reads_last_bind[OF reads_expect], rule reads_last_bind[OF reads_u16], rule reads_last_bind_none[OF reads_check(3)],
      rule refl, rule reads_last_bind[OF reads_u16], rule reads_last_then_end[OF reads_imp_last[OF rows]])
  then show ?thesis using v(3) by (simp add: decode_debug_variables_def reads_last_run)
qed

lemma accepted_debug_variables:
  assumes "decode_debug_variables blob = Some vs"
  shows "list_all debug_acceptable vs \<and> length vs \<le> MAX_RECORDS"
proof -
  obtain data where d: "rd_run decode_debug_table data = Some vs"
    using assms by (auto simp: decode_debug_variables_def split: option.splits if_splits)
  have p: "gives decode_debug_variable debug_acceptable" unfolding decode_debug_variable_def
    by (rule gives_after, rule gives_after, rule gives_after, rule gives_after, rule gives_after, rule gives_after,
      rule gives_after, rule gives_check(1), rule gives_return) (simp add: debug_acceptable_def)
  show ?thesis
    by (rule gives_run[OF _ d], unfold decode_debug_table_def, rule gives_after, rule gives_after, rule gives_after,
      rule gives_after, rule gives_bind[OF gives_limited[OF p]], rule gives_after, rule gives_return)
qed

end
