(* ===== verification/Line_Table.thy ===== *)
theory Line_Table
  imports Byte_Stream
begin

text \<open>
  The table from addresses to source lines (\<^verbatim>\<open>line_table.h\<close>, \<^verbatim>\<open>line_table.cpp\<close>): the two
  lookups, the encoding and the decoder, which accepts exactly the encodings of tables in
  ascending order. \<open>upper_bound\<close> is the C++ library's binary search.
\<close>

section \<open>The table\<close>

record LineTableEntry =
  lte_address :: uint32
  lte_line :: uint32

record LineTable =
  lt_entries :: "LineTableEntry list"

text \<open>The first entry of the range from \<open>first\<close> whose address is above \<open>value\<close>, by halving.\<close>

function upper_bound :: "LineTableEntry list \<Rightarrow> uint32 \<Rightarrow> nat \<Rightarrow> nat \<Rightarrow> nat" where
  "upper_bound es value first len =
     (if len = 0 then first
      else let half = len div 2 in
        if value < lte_address (es ! (first + half)) then upper_bound es value first half
        else upper_bound es value (first + half + 1) (len - half - 1))"
  by pat_completeness auto
termination by (relation "measure (\<lambda>(es, value, first, len). len)") auto

declare upper_bound.simps [simp del]

definition line_for_address :: "LineTable \<Rightarrow> uint32 \<Rightarrow> uint32" where
  "line_for_address t address =
     (let es = lt_entries t; it = upper_bound es address 0 (length es)
      in if it = 0 then 0 else lte_line (es ! (it - 1)))"

definition address_scan :: "uint32 \<Rightarrow> uint32 \<times> bool \<Rightarrow> LineTableEntry \<Rightarrow> uint32 \<times> bool" where
  "address_scan line st entry =
     (let (best, found) = st in
      if lte_line entry \<noteq> line then st
      else if \<not> found \<or> lte_address entry < best then (lte_address entry, True)
      else st)"

definition address_for_line :: "LineTable \<Rightarrow> uint32 \<Rightarrow> uint32" where
  "address_for_line t line =
     (let (best, found) = foldl (address_scan line) (0, False) (lt_entries t) in if found then best else 0)"

definition is_normalized :: "LineTable \<Rightarrow> bool" where
  "is_normalized t =
     list_all (\<lambda>i. lte_address (lt_entries t ! (i - 1)) < lte_address (lt_entries t ! i) \<and>
       lte_line (lt_entries t ! i) \<noteq> lte_line (lt_entries t ! (i - 1))) [1..<length (lt_entries t)]"

section \<open>The encoding\<close>

definition LINE_TABLE_MAGIC :: uint32 where
  "LINE_TABLE_MAGIC = 0x4C534447"

definition LINE_TABLE_VERSION :: uint32 where
  "LINE_TABLE_VERSION = 1"

definition write_row :: "LineTableEntry \<Rightarrow> byte list" where
  "write_row entry = write_u32 (lte_address entry) @ write_u32 (lte_line entry)"

definition encode_line_table :: "LineTable \<Rightarrow> byte list" where
  "encode_line_table t =
     write_u32 LINE_TABLE_MAGIC @ write_u32 LINE_TABLE_VERSION @ write_count (lt_entries t) @
     concat (map write_row (lt_entries t))"

text \<open>\<open>memcpy\<close> of four bytes at an offset.\<close>

definition word_at :: "byte list \<Rightarrow> nat \<Rightarrow> uint32" where
  "word_at data i = le_word (take 4 (drop i data))"

definition read_row :: "byte list \<Rightarrow> nat \<Rightarrow> LineTableEntry" where
  "read_row data i = \<lparr>lte_address = word_at data (12 + i * 8), lte_line = word_at data (12 + i * 8 + 4)\<rparr>"

definition ascending :: "LineTableEntry list \<Rightarrow> bool" where
  "ascending es = list_all (\<lambda>i. lte_address (es ! (i - 1)) < lte_address (es ! i)) [1..<length es]"

text \<open>The null pointer is \<open>None\<close>; returning false is the answer \<open>None\<close>.\<close>

definition decode_line_table :: "byte list option \<Rightarrow> LineTable option" where
  "decode_line_table blob = (case blob of
     None \<Rightarrow> None
   | Some data \<Rightarrow>
       if length data < 12 then None
       else if word_at data 0 \<noteq> LINE_TABLE_MAGIC \<or> word_at data 4 \<noteq> LINE_TABLE_VERSION then None
       else
         let count = unat (word_at data 8) in
         if length data \<noteq> 12 + count * 8 then None
         else
           let es = map (read_row data) [0..<count] in
           if ascending es then Some \<lparr>lt_entries = es\<rparr> else None)"

section \<open>Lookups\<close>

lemma ascending_less:
  assumes "ascending es" "i < j" "j < length es" shows "lte_address (es ! i) < lte_address (es ! j)"
  using assms(2,3)
proof (induction j)
  case (Suc j)
  have "lte_address (es ! j) < lte_address (es ! Suc j)"
    using assms(1) Suc.prems(2) unfolding ascending_def list_all_iff by (auto dest: bspec[of _ _ "Suc j"])
  then show ?case using Suc by (cases "i = j") (auto intro: less_trans)
qed simp

lemma upper_bound_spec:
  assumes "ascending es" "first + len \<le> length es" "\<forall>i < first. lte_address (es ! i) \<le> v"
    "\<forall>i. first + len \<le> i \<longrightarrow> i < length es \<longrightarrow> v < lte_address (es ! i)"
  shows "upper_bound es v first len \<le> length es \<and>
    (\<forall>i < length es. i < upper_bound es v first len \<longleftrightarrow> lte_address (es ! i) \<le> v)"
  using assms
proof (induction es v first len rule: upper_bound.induct)
  case (1 es v first len)
  let ?h = "len div 2" and ?m = "first + len div 2"
  show ?case
  proof (cases "len = 0")
    case True
    then show ?thesis using 1(4-6) by (auto simp: not_le upper_bound.simps)
  next
    case False
    then have m: "?m < length es" "?h < len" using 1(4) by auto
    note asc = ascending_less[OF 1(3)]
    show ?thesis
    proof (cases "v < lte_address (es ! ?m)")
      case True
      have "\<forall>i. ?m \<le> i \<longrightarrow> i < length es \<longrightarrow> v < lte_address (es ! i)"
        using asc[of ?m] True by (auto simp: le_less intro: less_trans)
      then show ?thesis using 1(1)[OF False refl True 1(3)] 1(4,5) m False True
        by (subst (1 2) upper_bound.simps) (simp add: Let_def)
    next
      case F: False
      have "lte_address (es ! i) \<le> v" if "i < ?m + 1" for i
      proof (cases "i = ?m")
        case True
        then show ?thesis using F by (simp add: not_less)
      next
        case False
        then have "lte_address (es ! i) < lte_address (es ! ?m)" using asc[of i ?m] m(1) that by simp
        then show ?thesis using F by simp
      qed
      moreover have "?m + 1 + (len - ?h - 1) = first + len" using m(2) by simp
      ultimately show ?thesis using 1(2)[OF False refl F 1(3)] 1(4,6) False F by (subst (1 2) upper_bound.simps) (simp add: Let_def)
    qed
  qed
qed

text \<open>The line of an address is that of the last row at or below it.\<close>

lemma line_for_address_spec:
  assumes "ascending (lt_entries t)"
  shows "i < length (lt_entries t) \<Longrightarrow> lte_address (lt_entries t ! i) \<le> a \<Longrightarrow>
      (Suc i < length (lt_entries t) \<Longrightarrow> a < lte_address (lt_entries t ! Suc i)) \<Longrightarrow>
      line_for_address t a = lte_line (lt_entries t ! i)"
    "(\<And>e. e \<in> set (lt_entries t) \<Longrightarrow> a < lte_address e) \<Longrightarrow> line_for_address t a = 0"
proof -
  let ?es = "lt_entries t" and ?u = "upper_bound (lt_entries t) a 0 (length (lt_entries t))"
  have u: "?u \<le> length ?es" "\<forall>i < length ?es. i < ?u \<longleftrightarrow> lte_address (?es ! i) \<le> a"
    using upper_bound_spec[OF assms, of 0 "length ?es" a] by auto
  show "line_for_address t a = lte_line (?es ! i)"
    if i: "i < length ?es" "lte_address (?es ! i) \<le> a" "Suc i < length ?es \<Longrightarrow> a < lte_address (?es ! Suc i)"
  proof -
    have "i < ?u" using u(2)[rule_format, OF i(1)] i(2) by simp
    moreover have "\<not> Suc i < ?u"
    proof
      assume s: "Suc i < ?u"
      then have "Suc i < length ?es" using u(1) by simp
      then show False using u(2)[rule_format, of "Suc i"] i(3) s by simp
    qed
    ultimately have "?u = Suc i" by simp
    then show ?thesis unfolding line_for_address_def Let_def by simp
  qed
  show "line_for_address t a = 0" if e: "\<And>e. e \<in> set ?es \<Longrightarrow> a < lte_address e"
  proof -
    have "\<not> 0 < ?u"
    proof
      assume "0 < ?u"
      moreover from this have "0 < length ?es" using u(1) by linarith
      ultimately have "lte_address (?es ! 0) \<le> a" "?es ! 0 \<in> set ?es" using u(2) by auto
      then show False using e[of "?es ! 0"] by simp
    qed
    then show ?thesis unfolding line_for_address_def Let_def by simp
  qed
qed

lemma address_scan_found:
  "foldl (address_scan l) (b, f) es = (best, found) \<Longrightarrow>
   (found \<longleftrightarrow> f \<or> (\<exists>e \<in> set es. lte_line e = l)) \<and>
   (found \<longrightarrow> (f \<and> best = b \<or> (\<exists>e \<in> set es. lte_line e = l \<and> lte_address e = best)) \<and>
     (\<forall>e \<in> set es. lte_line e = l \<longrightarrow> best \<le> lte_address e) \<and> (f \<longrightarrow> best \<le> b))"
proof (induction es arbitrary: b f)
  case (Cons e es)
  obtain b' f' where s: "address_scan l (b, f) e = (b', f')" by fastforce
  then have "foldl (address_scan l) (b', f') es = (best, found)" using Cons.prems by simp
  from Cons.IH[OF this] s show ?case
    by (auto simp: address_scan_def not_less split: if_splits)
qed auto

lemma address_line_inverse:
  assumes "ascending (lt_entries t)" "e \<in> set (lt_entries t)" "lte_line e = l"
  shows "line_for_address t (address_for_line t l) = l"
    "address_for_line t l \<le> lte_address e"
proof -
  obtain best found where f: "foldl (address_scan l) (0, False) (lt_entries t) = (best, found)" by fastforce
  note s = address_scan_found[OF f]
  have found using s assms(2,3) by blast
  then have a: "address_for_line t l = best" by (simp add: address_for_line_def f)
  obtain e' where e': "e' \<in> set (lt_entries t)" "lte_line e' = l" "lte_address e' = best" using s \<open>found\<close> by blast
  then obtain i where i: "i < length (lt_entries t)" "lt_entries t ! i = e'" by (auto simp: in_set_conv_nth)
  then show "line_for_address t (address_for_line t l) = l"
    using line_for_address_spec(1)[OF assms(1), of i best] e' ascending_less[OF assms(1), of i "Suc i"] a by auto
  show "address_for_line t l \<le> lte_address e" using s \<open>found\<close> a assms(2,3) by auto
qed

section \<open>Round trip\<close>

lemma length_rows [simp]: "length (concat (map write_row es)) = 8 * length es"
  by (induction es) (simp_all add: write_row_def)

lemma word_at_append: "length pre = i \<Longrightarrow> word_at (pre @ write_u32 w @ rest) i = w"
  by (simp add: word_at_def write_u32_def)

lemma rows_split: "i < length es \<Longrightarrow>
  concat (map write_row es) = concat (map write_row (take i es)) @ write_row (es ! i) @ concat (map write_row (drop (Suc i) es))"
  by (metis concat_append concat.simps(2) id_take_nth_drop list.simps(9) map_append)

lemma row_at:
  assumes "i < length es" "length pre = 12"
  shows "word_at (pre @ concat (map write_row es)) (12 + i * 8) = lte_address (es ! i)"
    "word_at (pre @ concat (map write_row es)) (12 + i * 8 + 4) = lte_line (es ! i)"
proof -
  let ?a = "pre @ concat (map write_row (take i es))" and ?z = "concat (map write_row (drop (Suc i) es))"
  let ?e = "es ! i"
  have eq: "pre @ concat (map write_row es) = ?a @ write_u32 (lte_address ?e) @ write_u32 (lte_line ?e) @ ?z"
    using rows_split[OF assms(1)] by (simp add: write_row_def)
  have len: "length ?a = 12 + i * 8" using assms by simp
  show "word_at (pre @ concat (map write_row es)) (12 + i * 8) = lte_address ?e"
    unfolding eq by (rule word_at_append[OF len])
  have "word_at ((?a @ write_u32 (lte_address ?e)) @ write_u32 (lte_line ?e) @ ?z) (12 + i * 8 + 4) = lte_line ?e"
    by (rule word_at_append) (use len in simp)
  then show "word_at (pre @ concat (map write_row es)) (12 + i * 8 + 4) = lte_line ?e" unfolding eq by simp
qed

lemma decode_encode:
  assumes "ascending (lt_entries t)" "length (lt_entries t) < 2 ^ 32"
  shows "decode_line_table (Some (encode_line_table t)) = Some t"
proof -
  let ?es = "lt_entries t" and ?bs = "encode_line_table t"
  let ?h = "write_u32 LINE_TABLE_MAGIC @ write_u32 LINE_TABLE_VERSION @ write_count ?es"
  have bs: "?bs = ?h @ concat (map write_row ?es)" by (simp add: encode_line_table_def)
  have w: "word_at ?bs 0 = LINE_TABLE_MAGIC" "word_at ?bs 4 = LINE_TABLE_VERSION"
    "word_at ?bs 8 = word_of_nat (length ?es)"
    unfolding encode_line_table_def write_count_def
    using word_at_append[of "[]" 0] word_at_append[of "write_u32 LINE_TABLE_MAGIC" 4]
      word_at_append[of "write_u32 LINE_TABLE_MAGIC @ write_u32 LINE_TABLE_VERSION" 8] by simp_all
  have rows: "map (read_row ?bs) [0..<length ?es] = ?es"
    by (rule nth_equalityI) (use row_at[of _ ?es ?h] in \<open>simp_all add: read_row_def bs\<close>)
  have n: "unat (word_of_nat (length ?es) :: uint32) = length ?es" using assms(2) by (rule unat_count)
  have len: "length ?bs = 12 + length ?es * 8" unfolding bs by simp
  show ?thesis using assms(1) by (simp add: decode_line_table_def w n len rows Let_def)
qed

lemma write_word_at: "i + 4 \<le> length data \<Longrightarrow> write_u32 (word_at data i) = take 4 (drop i data)"
  using le_bytes_le_word[of "take 4 (drop i data)", where 'a = 32] by (simp add: write_u32_def word_at_def)

lemma chunks:
  "concat (map (\<lambda>i. take 8 (drop (12 + i * 8) data)) [0..<n]) = take (8 * n) (drop 12 data)"
proof (induction n)
  case (Suc n)
  then show ?case using take_add[of "8 * n" 8 "drop 12 data"] by (simp add: algebra_simps)
qed simp

lemma encode_decode:
  assumes "decode_line_table (Some data) = Some t"
  shows "encode_line_table t = data \<and> ascending (lt_entries t) \<and> length (lt_entries t) < 2 ^ 32"
proof -
  let ?n = "unat (word_at data 8)"
  let ?es = "map (read_row data) [0..<?n]"
  have a: "12 \<le> length data" "word_at data 0 = LINE_TABLE_MAGIC" "word_at data 4 = LINE_TABLE_VERSION"
    "length data = 12 + ?n * 8" "ascending ?es" "t = \<lparr>lt_entries = ?es\<rparr>"
    using assms by (auto simp: decode_line_table_def Let_def split: if_splits)
  have "?n < 2 ^ 32" using unsigned_less[of "word_at data 8"] by simp
  moreover have "write_row (?es ! i) = take 8 (drop (12 + i * 8) data)" if "i < ?n" for i
  proof -
    have "12 + i * 8 + 8 \<le> length data" using a(4) that by linarith
    then have "write_row (?es ! i) = take 4 (drop (12 + i * 8) data) @ take 4 (drop (12 + i * 8 + 4) data)"
      using that by (simp add: read_row_def write_row_def write_word_at)
    also have "\<dots> = take 8 (drop (12 + i * 8) data)" using take_add[of 4 4 "drop (12 + i * 8) data"] by (simp add: add.commute)
    finally show ?thesis .
  qed
  then have "map write_row ?es = map (\<lambda>i. take 8 (drop (12 + i * 8) data)) [0..<?n]" by simp
  then have "concat (map write_row ?es) = drop 12 data" unfolding \<open>map write_row ?es = _\<close> chunks using a(4) by simp
  moreover have "write_u32 LINE_TABLE_MAGIC @ write_u32 LINE_TABLE_VERSION @ write_count ?es = take 12 data"
    using a(1) write_word_at[of 0 data] write_word_at[of 4 data] write_word_at[of 8 data] a(2,3)
      take_add[of 4 4 data] take_add[of 8 4 data] by (simp add: write_count_def)
  then have "(write_u32 LINE_TABLE_MAGIC @ write_u32 LINE_TABLE_VERSION @ write_count ?es) @ drop 12 data = data"
    by (simp only: append_take_drop_id)
  ultimately show ?thesis using a(5,6) by (simp add: encode_line_table_def)
qed

end
