(* ===== verification/Script_Metadata.thy ===== *)
theory Script_Metadata
  imports Class_Signatures Property_Signatures Line_Table
begin

text \<open>
  The metadata section of a compiled script (\<^verbatim>\<open>gdsmeta.h\<close>, \<^verbatim>\<open>gdsmeta.cpp\<close>): a header with flags, the
  names of the class and its base, and the blobs of the function, signal, line, constant, class,
  property and remote procedure tables. Its round trip composes those of the tables.
\<close>

record ScriptMetadata =
  md_double_precision :: bool
  md_is_tool :: bool
  md_base_is_path :: bool
  md_class_name :: string
  md_base_class :: string
  md_functions :: "FunctionSignature list"
  md_signals :: "FunctionSignature list"
  md_line_table :: LineTable
  md_properties :: "PropertySignature list"
  md_rpc_configs :: "RPCConfig list"
  md_has_trait_metadata :: bool
  md_constants :: "ScriptConstant list"
  md_uses :: "string list"
  md_classes :: "ClassSignature list"

definition GDSMETA_MAGIC :: uint32 where "GDSMETA_MAGIC = 0x4D534447"

definition GDSMETA_VERSION :: uint16 where "GDSMETA_VERSION = 2"

definition FLAG_DOUBLE_PRECISION :: uint16 where "FLAG_DOUBLE_PRECISION = 1"

definition FLAG_IS_TOOL :: uint16 where "FLAG_IS_TOOL = 2"

definition FLAG_BASE_IS_PATH :: uint16 where "FLAG_BASE_IS_PATH = 4"

definition CNST :: uint32 where "CNST = 0x54534e43"

definition PRPC :: uint32 where "PRPC = 0x43505250"

definition metadata_flags :: "ScriptMetadata \<Rightarrow> uint16" where
  "metadata_flags m = (if md_double_precision m then FLAG_DOUBLE_PRECISION else 0) OR
     (if md_is_tool m then FLAG_IS_TOOL else 0) OR (if md_base_is_path m then FLAG_BASE_IS_PATH else 0)"

definition encode_script_metadata :: "ScriptMetadata \<Rightarrow> byte list res" where
  "encode_script_metadata m =
     bind_res (encode_function_signatures (md_functions m)) (\<lambda>functions.
     bind_res (encode_function_signatures (md_signals m)) (\<lambda>signals.
     bind_res (encode_script_constants (md_constants m)) (\<lambda>constants.
     bind_res (encode_class_signatures (md_classes m)) (\<lambda>classes.
     bind_res (encode_property_signatures (md_properties m)) (\<lambda>properties.
       Inr (write_u32 GDSMETA_MAGIC @ write_u16 GDSMETA_VERSION @ write_u16 (metadata_flags m) @
         write_string (md_class_name m) @ write_string (md_base_class m) @
         write_blob functions @ write_blob signals @ write_blob (encode_line_table (md_line_table m)) @
         write_u32 CNST @ write_blob constants @
         write_u32 TRAT @ (write_count (md_uses m) @ concat (map write_string (md_uses m))) @ write_blob classes @
         write_u32 PRPC @ write_blob properties @ write_blob (encode_rpc_configs (md_rpc_configs m))))))))"

text \<open>Decoding a blob that has been read; the decoder returns false when this one does.\<close>

definition rd_decode :: "'a option \<Rightarrow> 'a rd" where
  "rd_decode result = (\<lambda>r. map_option (\<lambda>v. (v, r)) result)"

text \<open>The number of traits used may not exceed the bytes left.\<close>

definition rd_uses :: "string list rd" where
  "rd_uses = rd_bind rd_u32 (\<lambda>n. rd_bind (rd_check (\<lambda>r. rd_ok r \<and> unat n \<le> rd_size r - rd_offset r))
     (\<lambda>_. rd_repeat (unat n) rd_string))"

definition decode_metadata :: "ScriptMetadata rd" where
  "decode_metadata =
     rd_bind rd_u32 (\<lambda>magic. rd_bind rd_u16 (\<lambda>version.
     rd_bind (rd_check (\<lambda>r. rd_ok r \<and> (magic = GDSMETA_MAGIC \<and> version = GDSMETA_VERSION))) (\<lambda>_.
     rd_bind rd_u16 (\<lambda>flags. rd_bind rd_string (\<lambda>class_name. rd_bind rd_string (\<lambda>base_class.
     rd_bind rd_blob (\<lambda>functions_blob. rd_bind rd_blob (\<lambda>signals_blob. rd_bind rd_blob (\<lambda>line_blob.
     rd_bind (rd_check rd_ok) (\<lambda>_.
     rd_bind (rd_decode (decode_function_signatures functions_blob)) (\<lambda>functions.
     rd_bind (rd_decode (decode_function_signatures signals_blob)) (\<lambda>signals.
     rd_bind (rd_decode (decode_line_table (Some line_blob))) (\<lambda>lines.
     rd_bind (rd_expect CNST) (\<lambda>_. rd_bind rd_blob (\<lambda>constants_blob. rd_bind (rd_check rd_ok) (\<lambda>_.
     rd_bind (rd_decode (decode_script_constants constants_blob)) (\<lambda>constants.
     rd_bind (rd_expect TRAT) (\<lambda>_. rd_bind rd_uses (\<lambda>uses. rd_bind rd_blob (\<lambda>classes_blob. rd_bind (rd_check rd_ok) (\<lambda>_.
     rd_bind (rd_decode (decode_class_signatures classes_blob)) (\<lambda>classes.
     rd_bind (rd_expect PRPC) (\<lambda>_. rd_bind rd_blob (\<lambda>properties_blob. rd_bind rd_blob (\<lambda>rpc_blob. rd_bind (rd_check rd_ok) (\<lambda>_.
     rd_bind (rd_decode (decode_property_signatures (Some properties_blob))) (\<lambda>properties.
     rd_bind (rd_decode (decode_rpc_configs rpc_blob)) (\<lambda>rpcs.
     rd_bind (rd_check rd_at_end) (\<lambda>_.
       rd_return \<lparr>md_double_precision = (flags AND FLAG_DOUBLE_PRECISION \<noteq> 0),
         md_is_tool = (flags AND FLAG_IS_TOOL \<noteq> 0), md_base_is_path = (flags AND FLAG_BASE_IS_PATH \<noteq> 0),
         md_class_name = class_name, md_base_class = base_class, md_functions = functions, md_signals = signals,
         md_line_table = lines, md_properties = properties, md_rpc_configs = rpcs, md_has_trait_metadata = True,
         md_constants = constants, md_uses = uses, md_classes = classes\<rparr>)))))))))))))))))))))))))))))"

definition decode_script_metadata :: "byte list \<Rightarrow> ScriptMetadata option" where
  "decode_script_metadata data = rd_run decode_metadata data"

section \<open>Round trip\<close>

definition wire_metadata :: "ScriptMetadata \<Rightarrow> ScriptMetadata" where
  "wire_metadata m = m\<lparr>md_functions := map wire_signature (md_functions m), md_signals := map wire_signature (md_signals m),
     md_properties := map wire_property (md_properties m), md_constants := map wire_constant (md_constants m),
     md_classes := map wire_class (md_classes m), md_has_trait_metadata := True\<rparr>"

definition valid_metadata :: "ScriptMetadata \<Rightarrow> bool" where
  "valid_metadata m \<longleftrightarrow> short (md_class_name m) \<and> short (md_base_class m) \<and>
     short (md_functions m) \<and> list_all valid_signature (md_functions m) \<and>
     short (md_signals m) \<and> list_all valid_signature (md_signals m) \<and>
     ascending (lt_entries (md_line_table m)) \<and> short (lt_entries (md_line_table m)) \<and>
     list_all valid_property (md_properties m) \<and> length (md_properties m) \<le> MAX_RECORDS \<and>
     list_all valid_rpc (md_rpc_configs m) \<and> short (md_rpc_configs m) \<and>
     list_all valid_constant (md_constants m) \<and> short (md_constants m) \<and>
     short (md_uses m) \<and> list_all short (md_uses m) \<and>
     short (md_classes m) \<and> list_all valid_class (md_classes m)"

lemma flag_bits:
  "metadata_flags m AND FLAG_DOUBLE_PRECISION \<noteq> 0 \<longleftrightarrow> md_double_precision m"
  "metadata_flags m AND FLAG_IS_TOOL \<noteq> 0 \<longleftrightarrow> md_is_tool m"
  "metadata_flags m AND FLAG_BASE_IS_PATH \<noteq> 0 \<longleftrightarrow> md_base_is_path m"
  by (simp_all add: metadata_flags_def FLAG_DOUBLE_PRECISION_def FLAG_IS_TOOL_def FLAG_BASE_IS_PATH_def)

lemma reads_decode: "result = Some v \<Longrightarrow> reads (rd_decode result) [] v"
  by (simp add: reads_def rd_decode_def)

lemma reads_uses:
  assumes "short us" "list_all short us"
  shows "reads rd_uses (write_count us @ concat (map write_string us)) us"
proof -
  have n: "unat (word_of_nat (length us) :: uint32) = length us" using assms(1) by (intro unat_count) (simp add: short_def)
  have u: "reads (rd_repeat (length us) rd_string) (concat (map write_string us)) us" "length us \<le> length (concat (map write_string us))"
    using text_record.list_round[OF assms(2)] text_record.list_size[of us] by simp_all
  show ?thesis unfolding rd_uses_def
    by (rule reads_bind[OF reads_count]) (use u n in \<open>simp add: reads_def rd_bind_def rd_check_def rd_size_def\<close>)
qed

text \<open>Every blob inside must have a size that fits its length field, and the property blob its own limit.\<close>

lemma script_metadata_round:
  assumes e: "encode_script_metadata m = Inr bs" and v: "valid_metadata m" and small: "length bs < MAX_BLOB_SIZE"
  shows "decode_script_metadata bs = Some (wire_metadata m)"
proof -
  obtain fb sb cb clb pb where b: "encode_function_signatures (md_functions m) = Inr fb"
    "encode_function_signatures (md_signals m) = Inr sb" "encode_script_constants (md_constants m) = Inr cb"
    "encode_class_signatures (md_classes m) = Inr clb" "encode_property_signatures (md_properties m) = Inr pb"
    "bs = write_u32 GDSMETA_MAGIC @ write_u16 GDSMETA_VERSION @ write_u16 (metadata_flags m) @
         write_string (md_class_name m) @ write_string (md_base_class m) @
         write_blob fb @ write_blob sb @ write_blob (encode_line_table (md_line_table m)) @
         write_u32 CNST @ write_blob cb @
         write_u32 TRAT @ (write_count (md_uses m) @ concat (map write_string (md_uses m))) @ write_blob clb @
         write_u32 PRPC @ write_blob pb @ write_blob (encode_rpc_configs (md_rpc_configs m)) @ []"
    using e by (auto simp: encode_script_metadata_def res_simps)
  let ?lb = "encode_line_table (md_line_table m)" and ?rb = "encode_rpc_configs (md_rpc_configs m)"
  have len: "length fb < 2 ^ 32" "length sb < 2 ^ 32" "length ?lb < 2 ^ 32" "length cb < 2 ^ 32" "length clb < 2 ^ 32"
    "length pb < 2 ^ 32" "length ?rb < 2 ^ 32" "length pb \<le> MAX_BLOB_SIZE"
    using small unfolding b(6) MAX_BLOB_SIZE_def by simp_all
  have s: "short (md_class_name m)" "short (md_base_class m)" "short (md_uses m)" "list_all short (md_uses m)"
    using v by (simp_all add: valid_metadata_def)
  have d: "decode_function_signatures fb = Some (map wire_signature (md_functions m))"
    "decode_function_signatures sb = Some (map wire_signature (md_signals m))"
    "decode_line_table (Some ?lb) = Some (md_line_table m)"
    "decode_script_constants cb = Some (map wire_constant (md_constants m))"
    "decode_class_signatures clb = Some (map wire_class (md_classes m))"
    "decode_property_signatures (Some pb) = Some (map wire_property (md_properties m))"
    "decode_rpc_configs ?rb = Some (md_rpc_configs m)"
    using v function_signatures_round[OF b(1)] function_signatures_round[OF b(2)] decode_encode[of "md_line_table m"]
      script_constants_round[OF b(3)] class_signatures_round[OF b(4)] property_signatures_round[OF b(5) _ _ len(8)]
      rpc_configs_round[of "md_rpc_configs m"]
    by (simp_all add: valid_metadata_def short_def)
  have "reads_last decode_metadata bs (wire_metadata m)" unfolding decode_metadata_def b(6)
    by (intro reads_last_bind[OF reads_u32] reads_last_bind[OF reads_u16] reads_last_bind[OF reads_expect]
        reads_last_bind_none[OF reads_check(1)] conjI refl reads_last_bind_none[OF reads_check(2)]
        reads_last_bind[OF short_string[OF s(1)]] reads_last_bind[OF short_string[OF s(2)]]
        reads_last_bind[OF reads_blob[OF len(1)]] reads_last_bind[OF reads_blob[OF len(2)]]
        reads_last_bind[OF reads_blob[OF len(3)]] reads_last_bind[OF reads_blob[OF len(4)]]
        reads_last_bind[OF reads_blob[OF len(5)]] reads_last_bind[OF reads_blob[OF len(6)]]
        reads_last_bind[OF reads_blob[OF len(7)]] reads_last_bind[OF reads_uses[OF s(3,4)]]
        reads_last_bind_none[OF reads_decode[OF d(1)]] reads_last_bind_none[OF reads_decode[OF d(2)]]
        reads_last_bind_none[OF reads_decode[OF d(3)]] reads_last_bind_none[OF reads_decode[OF d(4)]]
        reads_last_bind_none[OF reads_decode[OF d(5)]] reads_last_bind_none[OF reads_decode[OF d(6)]]
        reads_last_bind_none[OF reads_decode[OF d(7)]])
      (cases m, simp add: reads_last_def rd_bind_def rd_check_def rd_return_def rd_at_end_def rd_size_def flag_bits wire_metadata_def)
  then show ?thesis unfolding decode_script_metadata_def by (rule reads_last_run)
qed

end
