(* ===== verification/Metadata_Example.thy ===== *)
theory Metadata_Example
  imports Script_Metadata
begin

text \<open>A small script's metadata, with a function, a line table, a property and a constant.\<close>

definition sample_lines :: LineTable where
  "sample_lines = \<lparr>lt_entries = [\<lparr>lte_address = 0x10, lte_line = 3\<rparr>, \<lparr>lte_address = 0x18, lte_line = 4\<rparr>]\<rparr>"

definition sample_function :: FunctionSignature where
  "sample_function = new_signature\<lparr>fs_name := ''f'', fs_line := 3, fs_is_static := True,
     fs_parameters := [new_parameter\<lparr>fp_name := ''x'', fp_default_kind := DK_INT, fp_default_value := WInt 7\<rparr>]\<rparr>"

definition sample_properties :: "PropertySignature list" where
  "sample_properties = [\<lparr>ps_name = ''speed'', ps_type = 2, ps_class_name = [], ps_hint = 0, ps_hint_string = [], ps_usage = 6,
     ps_declaration_line = 1, ps_section = no_section, ps_is_member = True, ps_is_static = False,
     ps_default_kind = PK_STRING, ps_default_value = WString ''hi''\<rparr>]"

definition sample_metadata :: ScriptMetadata where
  "sample_metadata = \<lparr>md_double_precision = False, md_is_tool = True, md_base_is_path = False, md_class_name = ''A'',
     md_base_class = ''Node'', md_functions = [sample_function], md_signals = [], md_line_table = sample_lines,
     md_properties = sample_properties, md_rpc_configs = [], md_has_trait_metadata = True,
     md_constants = [\<lparr>sc_name = ''K'', sc_kind = CK_BOOL, sc_value = WBool True, sc_members = []\<rparr>],
     md_uses = [''T''], md_classes = []\<rparr>"

definition sample_variables :: "DebugVariableRecord list" where
  "sample_variables = [\<lparr>dv_function_index = 0, dv_name = ''x'', dv_type = 2, dv_storage = DS_FRAME, dv_offset = 16,
     dv_pc_begin = 0x10, dv_pc_end = 0x18\<rparr>]"

lemmas sample_defs = sample_metadata_def sample_function_def sample_properties_def sample_lines_def
  new_signature_def new_parameter_def no_declared_type_def no_section_def

lemma sample_valid: "valid_metadata sample_metadata"
  by (simp add: valid_metadata_def sample_defs short_def valid_signature_def valid_parameter_def valid_type_def
    ascending_def valid_property_def small_def valid_section_def type_in_range_def MAX_RECORDS_def MAX_STRING_SIZE_def
    valid_constant_def)

lemma sample_wire: "wire_metadata sample_metadata = sample_metadata"
  by (simp add: wire_metadata_def sample_defs wire_signature_def wire_parameter_def has_payload_def wire_property_def
    has_property_payload_def wire_constant_def)

lemma sample_encoded: "\<exists>bs. encode_script_metadata sample_metadata = Inr bs \<and> length bs < MAX_BLOB_SIZE"
  by (simp add: encode_script_metadata_def sample_defs encode_function_signatures_def encode_record_def
    encode_parameter_def write_default_def get_wint_def encode_script_constants_def encode_constant_def write_constant_def
    get_wbool_def encode_class_signatures_def encode_property_signatures_def encode_property_def
    write_property_default_def get_wstring_def encode_section_def encode_class_names_def encode_declaration_def
    encode_type_def encode_hooks_def encode_line_table_def write_row_def encode_rpc_configs_def MAX_BLOB_SIZE_def)

lemma sample_properties_decode:
  "\<exists>bs. encode_property_signatures sample_properties = Inr bs \<and> decode_property_signatures (Some bs) = Some sample_properties"
proof -
  obtain bs where b: "encode_property_signatures sample_properties = Inr bs" "length bs \<le> MAX_BLOB_SIZE"
    by (simp add: sample_properties_def encode_property_signatures_def encode_property_def
      write_property_default_def get_wstring_def encode_section_def no_section_def MAX_BLOB_SIZE_def)
  have v: "list_all valid_property sample_properties" "length sample_properties \<le> MAX_RECORDS"
    by (simp_all add: sample_properties_def valid_property_def small_def valid_section_def type_in_range_def MAX_RECORDS_def
      MAX_STRING_SIZE_def no_section_def)
  have "map wire_property sample_properties = sample_properties"
    by (simp add: sample_properties_def wire_property_def has_property_payload_def)
  with property_signatures_round[OF b(1) v b(2)] b(1) show ?thesis by auto
qed

lemma sample_variables_valid:
  "list_all valid_debug sample_variables" "length sample_variables \<le> MAX_RECORDS"
  "length (encode_debug_variables sample_variables) \<le> MAX_BLOB_SIZE"
  by (simp_all add: sample_variables_def valid_debug_def small_def debug_acceptable_def type_in_range_def MAX_RECORDS_def
    MAX_STRING_SIZE_def MAX_BLOB_SIZE_def encode_debug_variables_def encode_debug_variable_def)

text \<open>A table whose one function claims to need nine arguments and has no parameter.\<close>

definition overstated_blob :: "byte list" where
  "overstated_blob = write_u32 1 @ write_string ''f'' @ write_u32 0 @ write_u32 0 @ write_string [] @ write_u32 9 @
     write_flag False @ write_u32 0"

lemma overstated_function: "\<exists>s. decode_function_signatures overstated_blob = Some [s] \<and> fs_parameters s = []"
proof -
  have "case decode_function_signatures overstated_blob of Some [s] \<Rightarrow> fs_parameters s = [] | _ \<Rightarrow> False" by code_simp
  then show ?thesis by (auto split: option.splits list.splits)
qed

end
