(* ===== verification/Register_Allocator.thy ===== *)
theory Register_Allocator
  imports IR
begin

text \<open>
  The register allocator of the machine code generator (\<^verbatim>\<open>register_allocator.h\<close>,
  \<^verbatim>\<open>register_allocator.cpp\<close>). The two hash maps are maps; where the code walks one of them, the
  order of the walk is an argument, since the language leaves it open. \<open>lower_bound\<close> is the C++
  library's binary search.

  \<open>alloc_step\<close> is one call of a public operation. The invariant \<open>ra_ok\<close> says that the two maps
  are inverse to each other and that no register is both free and in use.
\<close>

section \<open>State\<close>

record RegisterAllocator =
  ra_vreg_to_preg :: "int \<Rightarrow> uint8 option"
  ra_preg_to_vreg :: "uint8 \<Rightarrow> int option"
  ra_free_registers :: "uint8 list"
  ra_vreg_all_uses :: "int \<Rightarrow> int list option"

text \<open>t0--t2, s1--s11 and t3--t5; t6 is the scratch register for wide offsets.\<close>

definition POOL :: "uint8 list" where
  "POOL = [5, 6, 7, 9, 18, 19, 20, 21, 22, 23, 24, 25, 26, 27, 28, 29, 30]"

section \<open>Uses\<close>

definition record_use :: "int \<Rightarrow> (int \<Rightarrow> int list option) \<Rightarrow> IRValue \<Rightarrow> (int \<Rightarrow> int list option)" where
  "record_use i uses v = (case v of
     Reg r \<Rightarrow> uses(r \<mapsto> (case uses r of None \<Rightarrow> [] | Some is \<Rightarrow> is) @ [i])
   | _ \<Rightarrow> uses)"

definition collect_uses :: "IRInstruction list \<Rightarrow> int \<Rightarrow> int list option" where
  "collect_uses is = foldl (\<lambda>uses (i, instr). foldl (record_use (int i)) uses (operands instr)) Map.empty (enumerate 0 is)"

definition compute_next_use :: "IRFunction \<Rightarrow> int \<Rightarrow> int list option" where
  "compute_next_use func r = map_option (\<lambda>uses. remdups_adj (sort uses)) (collect_uses (instructions func) r)"

function lower_bound :: "int list \<Rightarrow> int \<Rightarrow> nat \<Rightarrow> nat \<Rightarrow> nat" where
  "lower_bound xs v first len =
     (if len = 0 then first
      else let half = len div 2 in
        if xs ! (first + half) < v then lower_bound xs v (first + half + 1) (len - half - 1)
        else lower_bound xs v first half)"
  by pat_completeness auto
termination by (relation "measure (\<lambda>(xs, v, first, len). len)") auto

declare lower_bound.simps [simp del]

definition get_next_use :: "RegisterAllocator \<Rightarrow> int \<Rightarrow> int \<Rightarrow> int" where
  "get_next_use ra vreg current = (case ra_vreg_all_uses ra vreg of
     None \<Rightarrow> - 1
   | Some uses \<Rightarrow>
       let it = lower_bound uses (current + 1) 0 (length uses)
       in if it < length uses then uses ! it else - 1)"

section \<open>Operations\<close>

definition new_allocator :: RegisterAllocator where
  "new_allocator = \<lparr>ra_vreg_to_preg = Map.empty, ra_preg_to_vreg = Map.empty, ra_free_registers = POOL,
     ra_vreg_all_uses = Map.empty\<rparr>"

definition ra_init :: "IRFunction \<Rightarrow> RegisterAllocator \<Rightarrow> RegisterAllocator" where
  "ra_init func ra = new_allocator\<lparr>ra_vreg_all_uses := compute_next_use func\<rparr>"

text \<open>The walk over the mapped registers, ending early at one that is not used again.\<close>

primrec spill_scan :: "RegisterAllocator \<Rightarrow> int \<Rightarrow> int list \<Rightarrow> int \<Rightarrow> int \<Rightarrow> int" where
  "spill_scan ra current [] best_vreg best_next_use = best_vreg"
| "spill_scan ra current (vreg # order) best_vreg best_next_use =
     (let next_use = get_next_use ra vreg current in
      if next_use = - 1 then vreg
      else if best_next_use < next_use then spill_scan ra current order vreg next_use
      else spill_scan ra current order best_vreg best_next_use)"

definition find_spill_candidate :: "RegisterAllocator \<Rightarrow> int list \<Rightarrow> int \<Rightarrow> int" where
  "find_spill_candidate ra order current = spill_scan ra current order (- 1) (- 1)"

definition spill_register :: "int \<Rightarrow> RegisterAllocator \<Rightarrow> RegisterAllocator" where
  "spill_register vreg ra = (case ra_vreg_to_preg ra vreg of
     None \<Rightarrow> ra
   | Some preg \<Rightarrow> ra\<lparr>ra_free_registers := ra_free_registers ra @ [preg],
       ra_preg_to_vreg := (ra_preg_to_vreg ra)(preg := None),
       ra_vreg_to_preg := (ra_vreg_to_preg ra)(vreg := None)\<rparr>)"

text \<open>With no register free, the candidate's is freed, if there is a candidate.\<close>

definition make_room :: "int list \<Rightarrow> int \<Rightarrow> RegisterAllocator \<Rightarrow> RegisterAllocator" where
  "make_room order current ra =
     (if ra_free_registers ra = [] then
        (let candidate = find_spill_candidate ra order current
         in if candidate \<noteq> - 1 then spill_register candidate ra else ra)
      else ra)"

text \<open>The last free register is taken off the pool and bound in both maps.\<close>

definition take_free :: "int \<Rightarrow> RegisterAllocator \<Rightarrow> uint8 \<times> RegisterAllocator" where
  "take_free vreg ra =
     (let preg = last (ra_free_registers ra) in
      (preg, ra\<lparr>ra_free_registers := butlast (ra_free_registers ra),
         ra_vreg_to_preg := (ra_vreg_to_preg ra)(vreg \<mapsto> preg),
         ra_preg_to_vreg := (ra_preg_to_vreg ra)(preg \<mapsto> vreg)\<rparr>))"

text \<open>The result is the register, or -1.\<close>

definition allocate_register :: "int list \<Rightarrow> int \<Rightarrow> int \<Rightarrow> RegisterAllocator \<Rightarrow> int \<times> RegisterAllocator" where
  "allocate_register order vreg current ra = (case ra_vreg_to_preg ra vreg of
     Some preg \<Rightarrow> (uint preg, ra)
   | None \<Rightarrow>
       let ra1 = make_room order current ra in
       if ra_free_registers ra1 = [] then (- 1, ra1)
       else let (preg, ra2) = take_free vreg ra1 in (uint preg, ra2))"

definition get_physical_register :: "RegisterAllocator \<Rightarrow> int \<Rightarrow> int" where
  "get_physical_register ra vreg = (case ra_vreg_to_preg ra vreg of Some preg \<Rightarrow> uint preg | None \<Rightarrow> - 1)"

definition get_stack_offset :: "RegisterAllocator \<Rightarrow> int \<Rightarrow> int" where
  "get_stack_offset ra vreg = - 1"

definition get_vreg_for_preg :: "RegisterAllocator \<Rightarrow> uint8 \<Rightarrow> int" where
  "get_vreg_for_preg ra preg = (case ra_preg_to_vreg ra preg of Some vreg \<Rightarrow> vreg | None \<Rightarrow> - 1)"

definition is_register_available :: "RegisterAllocator \<Rightarrow> uint8 \<Rightarrow> bool" where
  "is_register_available ra preg = (preg \<in> set (ra_free_registers ra))"

definition clobber :: "(uint8 \<times> uint8) list \<times> RegisterAllocator \<Rightarrow> uint8 \<Rightarrow> (uint8 \<times> uint8) list \<times> RegisterAllocator" where
  "clobber st clobbered = (let (moves, ra) = st in
     case ra_preg_to_vreg ra clobbered of
       None \<Rightarrow> st
     | Some vreg \<Rightarrow>
         if ra_free_registers ra \<noteq> [] then
           let new_preg = last (ra_free_registers ra) in
           (moves @ [(clobbered, new_preg)],
            ra\<lparr>ra_free_registers := butlast (ra_free_registers ra),
              ra_vreg_to_preg := (ra_vreg_to_preg ra)(vreg \<mapsto> new_preg),
              ra_preg_to_vreg := (ra_preg_to_vreg ra)(clobbered := None, new_preg \<mapsto> vreg)\<rparr>)
         else (moves, spill_register vreg ra))"

definition handle_syscall_clobbering ::
  "uint8 list \<Rightarrow> RegisterAllocator \<Rightarrow> (uint8 \<times> uint8) list \<times> RegisterAllocator" where
  "handle_syscall_clobbering clobbered ra = foldl clobber ([], ra) clobbered"

definition free_register :: "int \<Rightarrow> RegisterAllocator \<Rightarrow> RegisterAllocator" where
  "free_register vreg ra = (case ra_vreg_to_preg ra vreg of
     None \<Rightarrow> ra
   | Some preg \<Rightarrow> ra\<lparr>ra_free_registers := ra_free_registers ra @ [preg],
       ra_preg_to_vreg := (ra_preg_to_vreg ra)(preg := None),
       ra_vreg_to_preg := (ra_vreg_to_preg ra)(vreg := None)\<rparr>)"

text \<open>\<open>invalidate_register\<close> has the body of \<open>free_register\<close>.\<close>

definition invalidate_register :: "int \<Rightarrow> RegisterAllocator \<Rightarrow> RegisterAllocator" where
  "invalidate_register vreg ra = (case ra_vreg_to_preg ra vreg of
     None \<Rightarrow> ra
   | Some preg \<Rightarrow> ra\<lparr>ra_free_registers := ra_free_registers ra @ [preg],
       ra_preg_to_vreg := (ra_preg_to_vreg ra)(preg := None),
       ra_vreg_to_preg := (ra_vreg_to_preg ra)(vreg := None)\<rparr>)"

definition evict :: "int \<Rightarrow> uint8 \<Rightarrow> RegisterAllocator \<Rightarrow> RegisterAllocator" where
  "evict vreg preg ra = (case ra_preg_to_vreg ra preg of
     Some other \<Rightarrow> if other \<noteq> vreg then ra\<lparr>ra_vreg_to_preg := (ra_vreg_to_preg ra)(other := None)\<rparr> else ra
   | None \<Rightarrow> ra)"

definition release_old :: "int \<Rightarrow> uint8 \<Rightarrow> RegisterAllocator \<Rightarrow> RegisterAllocator" where
  "release_old vreg preg ra = (case ra_vreg_to_preg ra vreg of
     Some old \<Rightarrow>
       if old \<noteq> preg then ra\<lparr>ra_preg_to_vreg := (ra_preg_to_vreg ra)(old := None),
         ra_free_registers := ra_free_registers ra @ [old]\<rparr> else ra
   | None \<Rightarrow> ra)"

definition force_register_mapping :: "int \<Rightarrow> uint8 \<Rightarrow> RegisterAllocator \<Rightarrow> RegisterAllocator" where
  "force_register_mapping vreg preg ra =
     (let ra1 = release_old vreg preg (evict vreg preg ra) in
      ra1\<lparr>ra_free_registers := remove1 preg (ra_free_registers ra1),
        ra_vreg_to_preg := (ra_vreg_to_preg ra1)(vreg \<mapsto> preg),
        ra_preg_to_vreg := (ra_preg_to_vreg ra1)(preg \<mapsto> vreg)\<rparr>)"

definition reserve_register :: "uint8 \<Rightarrow> RegisterAllocator \<Rightarrow> RegisterAllocator" where
  "reserve_register preg ra = ra\<lparr>ra_free_registers := remove1 preg (ra_free_registers ra)\<rparr>"

section \<open>The invariant\<close>

definition inverse_maps :: "('a \<Rightarrow> 'b option) \<Rightarrow> ('b \<Rightarrow> 'a option) \<Rightarrow> bool" where
  "inverse_maps f g \<longleftrightarrow> (\<forall>v p. f v = Some p \<longleftrightarrow> g p = Some v)"

definition ra_ok :: "RegisterAllocator \<Rightarrow> bool" where
  "ra_ok ra \<longleftrightarrow> inverse_maps (ra_vreg_to_preg ra) (ra_preg_to_vreg ra) \<and>
     distinct (ra_free_registers ra) \<and> (\<forall>p \<in> set (ra_free_registers ra). ra_preg_to_vreg ra p = None)"

text \<open>One call of a public operation, at any instruction and with any order of the walk.\<close>

inductive alloc_step :: "RegisterAllocator \<Rightarrow> RegisterAllocator \<Rightarrow> bool" where
  step_init: "alloc_step ra (ra_init func ra)"
| step_uses: "alloc_step ra (ra\<lparr>ra_vreg_all_uses := compute_next_use func\<rparr>)"
| step_allocate: "alloc_step ra (snd (allocate_register order vreg current ra))"
| step_spill: "alloc_step ra (spill_register vreg ra)"
| step_clobber: "alloc_step ra (snd (handle_syscall_clobbering clobbered ra))"
| step_free: "alloc_step ra (free_register vreg ra)"
| step_invalidate: "alloc_step ra (invalidate_register vreg ra)"
| step_force: "alloc_step ra (force_register_mapping vreg preg ra)"
| step_reserve: "alloc_step ra (reserve_register preg ra)"

inductive_cases alloc_stepE: "alloc_step ra ra'"

abbreviation alloc_reachable :: "RegisterAllocator \<Rightarrow> bool" where
  "alloc_reachable ra \<equiv> alloc_step\<^sup>*\<^sup>* new_allocator ra"

lemma inverse_mapsD: "inverse_maps f g \<Longrightarrow> f v = Some p \<longleftrightarrow> g p = Some v"
  by (simp add: inverse_maps_def)

lemma inverse_drop:
  assumes "inverse_maps f g" "f v = Some p" shows "inverse_maps (f(v := None)) (g(p := None))"
proof -
  have "(f(v := None)) w = Some q \<longleftrightarrow> (g(p := None)) q = Some w" for w q
    using inverse_mapsD[OF assms(1), of w q] inverse_mapsD[OF assms(1), of v q] inverse_mapsD[OF assms(1), of v p] assms(2)
    by auto
  then show ?thesis unfolding inverse_maps_def by blast
qed

lemma inverse_add:
  assumes "inverse_maps f g" "f v = None" "g p = None" shows "inverse_maps (f(v \<mapsto> p)) (g(p \<mapsto> v))"
proof -
  have "(f(v \<mapsto> p)) w = Some q \<longleftrightarrow> (g(p \<mapsto> v)) q = Some w" for w q
    using inverse_mapsD[OF assms(1), of w q] inverse_mapsD[OF assms(1), of v q] inverse_mapsD[OF assms(1), of w p] assms(2,3)
    by auto
  then show ?thesis unfolding inverse_maps_def by blast
qed

lemma new_allocator_ok: "ra_ok new_allocator"
  by (simp add: ra_ok_def inverse_maps_def new_allocator_def POOL_def)

lemma init_ok: "ra_ok (ra_init func ra)"
  using new_allocator_ok by (simp add: ra_ok_def ra_init_def)

lemma uses_ok: "ra_ok ra \<Longrightarrow> ra_ok (ra\<lparr>ra_vreg_all_uses := uses\<rparr>)"
  by (simp add: ra_ok_def)

lemma ra_ok_free: "ra_ok ra \<Longrightarrow> ra_preg_to_vreg ra p = Some v \<Longrightarrow> p \<notin> set (ra_free_registers ra)"
  by (auto simp: ra_ok_def)

lemma ra_ok_maps: "ra_ok ra \<Longrightarrow> ra_vreg_to_preg ra v = Some p \<longleftrightarrow> ra_preg_to_vreg ra p = Some v"
  by (simp add: ra_ok_def inverse_maps_def)

lemma spill_ok:
  assumes "ra_ok ra" shows "ra_ok (spill_register v ra)"
proof (cases "ra_vreg_to_preg ra v")
  case (Some p)
  have inv: "inverse_maps ((ra_vreg_to_preg ra)(v := None)) ((ra_preg_to_vreg ra)(p := None))"
    using assms Some by (simp add: ra_ok_def inverse_drop)
  have "p \<notin> set (ra_free_registers ra)" using ra_ok_free[OF assms] ra_ok_maps[OF assms] Some by blast
  then show ?thesis using assms inv Some unfolding ra_ok_def by (auto simp: spill_register_def)
qed (simp add: assms spill_register_def)

lemma free_is_spill: "free_register v ra = spill_register v ra" "invalidate_register v ra = spill_register v ra"
  by (simp_all add: free_register_def invalidate_register_def spill_register_def)

lemma butlast_free:
  assumes "ra_ok ra" "ra_free_registers ra \<noteq> []"
  shows "distinct (butlast (ra_free_registers ra))" "last (ra_free_registers ra) \<notin> set (butlast (ra_free_registers ra))"
    "\<forall>q \<in> set (butlast (ra_free_registers ra)). ra_preg_to_vreg ra q = None"
    "ra_preg_to_vreg ra (last (ra_free_registers ra)) = None"
proof -
  have eq: "ra_free_registers ra = butlast (ra_free_registers ra) @ [last (ra_free_registers ra)]" using assms(2) by simp
  have "distinct (butlast (ra_free_registers ra) @ [last (ra_free_registers ra)])"
    "\<forall>q \<in> set (butlast (ra_free_registers ra) @ [last (ra_free_registers ra)]). ra_preg_to_vreg ra q = None"
    using assms(1) unfolding ra_ok_def eq[symmetric] by blast+
  then show "distinct (butlast (ra_free_registers ra))" "last (ra_free_registers ra) \<notin> set (butlast (ra_free_registers ra))"
    "\<forall>q \<in> set (butlast (ra_free_registers ra)). ra_preg_to_vreg ra q = None"
    "ra_preg_to_vreg ra (last (ra_free_registers ra)) = None" by auto
qed

lemma take_free_ok:
  assumes ok: "ra_ok ra" and v: "ra_vreg_to_preg ra v = None" and ne: "ra_free_registers ra \<noteq> []"
  shows "ra_ok (snd (take_free v ra))"
proof -
  have "inverse_maps ((ra_vreg_to_preg ra)(v \<mapsto> last (ra_free_registers ra))) ((ra_preg_to_vreg ra)(last (ra_free_registers ra) \<mapsto> v))"
    using ok v butlast_free(4)[OF ok ne] by (simp add: ra_ok_def inverse_add)
  then show ?thesis using butlast_free[OF ok ne] by (auto simp: ra_ok_def take_free_def Let_def)
qed

lemma make_room_ok: "ra_ok ra \<Longrightarrow> ra_ok (make_room order i ra)"
  by (simp add: make_room_def Let_def spill_ok)

lemma make_room_unmapped: "ra_vreg_to_preg ra v = None \<Longrightarrow> ra_vreg_to_preg (make_room order i ra) v = None"
  by (auto simp: make_room_def Let_def spill_register_def split: option.split)

lemma allocate_ok:
  assumes "ra_ok ra" shows "ra_ok (snd (allocate_register order v i ra))"
  using take_free_ok[OF make_room_ok[OF assms, of order i] make_room_unmapped[of ra v order i]] assms make_room_ok[OF assms]
  by (simp add: allocate_register_def Let_def case_prod_unfold split: option.split)

lemma clobber_ok:
  assumes ok: "ra_ok ra" shows "ra_ok (snd (clobber (moves, ra) c))"
proof (cases "ra_preg_to_vreg ra c")
  case (Some v)
  show ?thesis
  proof (cases "ra_free_registers ra = []")
    case True
    then show ?thesis using Some ok by (simp add: clobber_def spill_ok)
  next
    case False
    let ?p = "last (ra_free_registers ra)"
    have "ra_vreg_to_preg ra v = Some c" using ra_ok_maps[OF ok] Some by blast
    then have "inverse_maps ((ra_vreg_to_preg ra)(v := None)) ((ra_preg_to_vreg ra)(c := None))"
      using ok by (simp add: ra_ok_def inverse_drop)
    from inverse_add[OF this, of v ?p] have "inverse_maps ((ra_vreg_to_preg ra)(v \<mapsto> ?p)) ((ra_preg_to_vreg ra)(c := None, ?p \<mapsto> v))"
      using butlast_free(4)[OF ok False] by simp
    then show ?thesis using butlast_free[OF ok False] False Some by (auto simp: ra_ok_def clobber_def Let_def)
  qed
qed (simp add: ok clobber_def)

lemma clobbers_ok: "ra_ok ra \<Longrightarrow> ra_ok (snd (foldl clobber (moves, ra) cs))"
proof (induction cs arbitrary: moves ra)
  case (Cons c cs)
  then show ?case using clobber_ok[of ra moves c] by (cases "clobber (moves, ra) c") auto
qed simp

lemma handle_ok: "ra_ok ra \<Longrightarrow> ra_ok (snd (handle_syscall_clobbering cs ra))"
  by (simp add: handle_syscall_clobbering_def clobbers_ok)

lemma evict_facts:
  assumes "ra_ok ra"
  shows "inverse_maps (ra_vreg_to_preg (evict v p ra)) ((ra_preg_to_vreg ra)(p := (if ra_preg_to_vreg ra p = Some v then Some v else None)))"
    "ra_preg_to_vreg (evict v p ra) = ra_preg_to_vreg ra" "ra_free_registers (evict v p ra) = ra_free_registers ra"
proof -
  show "ra_preg_to_vreg (evict v p ra) = ra_preg_to_vreg ra" "ra_free_registers (evict v p ra) = ra_free_registers ra"
    by (simp_all add: evict_def split: option.split)
  have inv: "inverse_maps (ra_vreg_to_preg ra) (ra_preg_to_vreg ra)" using assms by (simp add: ra_ok_def)
  consider "ra_preg_to_vreg ra p = None" | "ra_preg_to_vreg ra p = Some v" | w where "ra_preg_to_vreg ra p = Some w" "w \<noteq> v"
    by (cases "ra_preg_to_vreg ra p") auto
  then show "inverse_maps (ra_vreg_to_preg (evict v p ra)) ((ra_preg_to_vreg ra)(p := (if ra_preg_to_vreg ra p = Some v then Some v else None)))"
  proof cases
    case 1
    then have "(ra_preg_to_vreg ra)(p := None) = ra_preg_to_vreg ra" by auto
    then show ?thesis using 1 inv by (simp add: evict_def)
  next
    case 2
    then have "(ra_preg_to_vreg ra)(p \<mapsto> v) = ra_preg_to_vreg ra" by auto
    then show ?thesis using 2 inv by (simp add: evict_def)
  next
    case 3
    then show ?thesis using inverse_drop[OF inv, of w p] ra_ok_maps[OF assms, of w p] by (simp add: evict_def)
  qed
qed

text \<open>What was in \<open>preg\<close> is evicted, what \<open>vreg\<close> held is freed, and the two are bound to each other.\<close>

lemma force_facts:
  assumes ok: "ra_ok ra" and ra'_def: "ra' = force_register_mapping v p ra"
  shows "ra_vreg_to_preg ra' v = Some p" "ra_ok ra'"
proof -
  let ?e = "evict v p ra"
  let ?g = "(ra_preg_to_vreg ra)(p := (if ra_preg_to_vreg ra p = Some v then Some v else None))"
  note e = evict_facts[OF ok, of v p]
  show "ra_vreg_to_preg ra' v = Some p" by (simp add: ra'_def force_register_mapping_def Let_def)
  have free: "distinct (ra_free_registers ra)" "\<forall>q \<in> set (ra_free_registers ra). ra_preg_to_vreg ra q = None"
    using ok by (simp_all add: ra_ok_def)
  show "ra_ok ra'"
  proof (cases "ra_vreg_to_preg ?e v")
    case None
    have "?g p = None" using inverse_mapsD[OF e(1), of v p] None by auto
    then have "inverse_maps ((ra_vreg_to_preg ?e)(v \<mapsto> p)) (?g(p \<mapsto> v))" by (rule inverse_add[OF e(1) None])
    then show ?thesis using free None e(2,3)
      by (auto simp: ra'_def ra_ok_def force_register_mapping_def release_old_def Let_def dest: subsetD[OF set_remove1_subset])
  next
    case (Some q)
    then have q: "?g q = Some v" using inverse_mapsD[OF e(1)] by blast
    show ?thesis
    proof (cases "q = p")
      case True
      then have "ra_preg_to_vreg ra p = Some v" using q by (auto split: if_splits)
      moreover from this have "?g(p \<mapsto> v) = ?g" "(ra_vreg_to_preg ?e)(v \<mapsto> p) = ra_vreg_to_preg ?e" "(ra_preg_to_vreg ra)(p \<mapsto> v) = ra_preg_to_vreg ra"
        using True Some by auto
      ultimately show ?thesis using free Some True e
        by (auto simp: ra'_def ra_ok_def force_register_mapping_def release_old_def Let_def dest: subsetD[OF set_remove1_subset])
    next
      case False
      have d: "inverse_maps ((ra_vreg_to_preg ?e)(v := None)) (?g(q := None))" by (rule inverse_drop[OF e(1) Some])
      have "?g p = None"
      proof (rule ccontr)
        assume "?g p \<noteq> None"
        then have "?g p = Some v" by (auto split: if_splits)
        then have "ra_vreg_to_preg ?e v = Some p" using inverse_mapsD[OF e(1)] by blast
        then show False using Some False by simp
      qed
      then have "(?g(q := None)) p = None" using False by simp
      from inverse_add[OF d fun_upd_same this]
      have "inverse_maps ((ra_vreg_to_preg ?e)(v \<mapsto> p)) (?g(q := None, p \<mapsto> v))" unfolding fun_upd_upd .
      moreover have "?g(q := None, p \<mapsto> v) = (ra_preg_to_vreg ra)(q := None, p \<mapsto> v)" using False by auto
      ultimately have "inverse_maps ((ra_vreg_to_preg ?e)(v \<mapsto> p)) ((ra_preg_to_vreg ra)(q := None, p \<mapsto> v))" by simp
      moreover have "q \<notin> set (ra_free_registers ra)" using q free(2) False by (auto split: if_splits)
      ultimately show ?thesis using free Some False e(2,3)
        by (auto simp: ra'_def ra_ok_def force_register_mapping_def release_old_def Let_def dest: subsetD[OF set_remove1_subset])
    qed
  qed
qed

lemma reserve_ok: "ra_ok ra \<Longrightarrow> ra_ok (reserve_register p ra)"
  by (auto simp: ra_ok_def reserve_register_def dest: subsetD[OF set_remove1_subset])

lemma reachable_ok: "alloc_reachable ra \<Longrightarrow> ra_ok ra"
proof (induction rule: rtranclp_induct)
  case (step ra ra')
  from step.hyps(2) show ?case
    by (rule alloc_stepE)
      (use step.IH in \<open>auto simp: init_ok uses_ok allocate_ok spill_ok handle_ok free_is_spill force_facts[OF _ refl] reserve_ok\<close>)
qed (rule new_allocator_ok)

section \<open>Next uses\<close>

definition mentions :: "IRFunction \<Rightarrow> int \<Rightarrow> nat \<Rightarrow> bool" where
  "mentions func vreg k = (k < length (instructions func) \<and> Reg vreg \<in> set (operands (instructions func ! k)))"

definition use_set :: "(int \<Rightarrow> int list option) \<Rightarrow> int \<Rightarrow> int set" where
  "use_set uses r = (case uses r of None \<Rightarrow> {} | Some is \<Rightarrow> set is)"

lemma use_set_record: "use_set (record_use i uses v) r = use_set uses r \<union> (if v = Reg r then {i} else {})"
  by (auto simp: use_set_def record_use_def split: IRValue.split option.split)

lemma use_set_operands: "use_set (foldl (record_use i) uses vs) r = use_set uses r \<union> (if Reg r \<in> set vs then {i} else {})"
  by (induction vs arbitrary: uses) (auto simp: use_set_record)

lemma use_set_instructions:
  "use_set (foldl (\<lambda>uses (i, instr). foldl (record_use (int i)) uses (operands instr)) uses (enumerate k is)) r =
   use_set uses r \<union> {int (k + j) |j. j < length is \<and> Reg r \<in> set (operands (is ! j))}"
proof (induction "is" arbitrary: uses k)
  case (Cons x xs)
  have "{int (k + j) |j. j < length (x # xs) \<and> Reg r \<in> set (operands ((x # xs) ! j))} =
      (if Reg r \<in> set (operands x) then {int k} else {}) \<union>
      {int (Suc k + j) |j. j < length xs \<and> Reg r \<in> set (operands (xs ! j))}" (is "?L = ?A \<union> ?B")
  proof (intro equalityI subsetI)
    fix y assume "y \<in> ?L"
    then obtain j where "y = int (k + j)" "j < length (x # xs)" "Reg r \<in> set (operands ((x # xs) ! j))" by blast
    then show "y \<in> ?A \<union> ?B" by (cases j) auto
  next
    fix y assume "y \<in> ?A \<union> ?B"
    then consider "y = int k" "Reg r \<in> set (operands x)" | j where "y = int (Suc k + j)" "j < length xs" "Reg r \<in> set (operands (xs ! j))"
      by (auto split: if_splits)
    then show "y \<in> ?L"
    proof cases
      case 1
      then show ?thesis by (intro CollectI exI[of _ 0]) simp
    next
      case 2
      then show ?thesis by (intro CollectI exI[of _ "Suc j"]) simp
    qed
  qed
  then show ?case using Cons[of _ "Suc k"] by (auto simp: use_set_operands)
qed simp

lemma compute_next_use_set: "use_set (compute_next_use func) r = {int k |k. mentions func r k}"
proof -
  have "use_set (compute_next_use func) r = use_set (collect_uses (instructions func)) r"
    by (simp add: use_set_def compute_next_use_def split: option.split)
  then show ?thesis using use_set_instructions[of Map.empty 0 "instructions func" r]
    by (simp add: collect_uses_def mentions_def use_set_def[of Map.empty])
qed

lemma compute_next_use_sorted: "compute_next_use func r = Some us \<Longrightarrow> sorted us"
  by (auto simp: compute_next_use_def)

lemma lower_bound_spec:
  assumes "sorted xs" "first + len \<le> length xs"
    "\<forall>j < first. xs ! j < v" "\<forall>j. first + len \<le> j \<longrightarrow> j < length xs \<longrightarrow> v \<le> xs ! j"
  shows "lower_bound xs v first len \<le> length xs \<and> (\<forall>j < lower_bound xs v first len. xs ! j < v) \<and>
    (\<forall>j. lower_bound xs v first len \<le> j \<longrightarrow> j < length xs \<longrightarrow> v \<le> xs ! j)"
  using assms
proof (induction xs v first len rule: lower_bound.induct)
  case (1 xs v first len)
  show ?case
  proof (cases "len = 0")
    case True
    then show ?thesis using "1.prems" by (subst (1 2 3) lower_bound.simps) simp
  next
    case False
    define m where "m = first + len div 2"
    have m: "m < first + len" using False by (simp add: m_def)
    show ?thesis
    proof (cases "xs ! m < v")
      case True
      have "xs ! j < v" if "j < m + 1" for j
        using sorted_nth_mono[OF "1.prems"(1), of j m] that m "1.prems"(2) True by simp
      moreover have "m + 1 + (len - len div 2 - 1) = first + len" using False by (simp add: m_def)
      moreover have "lower_bound xs v first len = lower_bound xs v (m + 1) (len - len div 2 - 1)"
        using True False by (subst lower_bound.simps) (simp add: Let_def m_def)
      ultimately show ?thesis using "1.IH"(1)[OF False refl] True "1.prems" by (simp add: m_def)
    next
      case nlt: False
      have "v \<le> xs ! j" if "m \<le> j" "j < length xs" for j
        using sorted_nth_mono[OF "1.prems"(1) that] nlt by simp
      moreover have "lower_bound xs v first len = lower_bound xs v first (len div 2)"
        using nlt False by (subst lower_bound.simps) (simp add: Let_def m_def)
      moreover have "first + len div 2 \<le> length xs" using m "1.prems"(2) by (simp add: m_def)
      ultimately show ?thesis using "1.IH"(2)[OF False refl] nlt "1.prems" by (simp add: m_def)
    qed
  qed
qed

lemma lower_bound_sorted:
  assumes "sorted xs"
  shows "lower_bound xs v 0 (length xs) \<le> length xs" "j < lower_bound xs v 0 (length xs) \<Longrightarrow> xs ! j < v"
    "lower_bound xs v 0 (length xs) \<le> j \<Longrightarrow> j < length xs \<Longrightarrow> v \<le> xs ! j"
  using lower_bound_spec[of xs 0 "length xs" v] assms by simp_all

text \<open>The binary search gives the first mention after the instruction, and -1 exactly when there is none.\<close>

definition next_mention :: "IRFunction \<Rightarrow> int \<Rightarrow> int \<Rightarrow> int" where
  "next_mention func vreg i =
     (if \<exists>k. mentions func vreg k \<and> i < int k then int (LEAST k. mentions func vreg k \<and> i < int k) else - 1)"

lemma get_next_use_spec:
  assumes "ra_vreg_all_uses ra = compute_next_use func"
  shows "get_next_use ra v i = next_mention func v i"
proof (cases "compute_next_use func v")
  case None
  then have "\<not> mentions func v k" for k using compute_next_use_set[of func v] by (auto simp: use_set_def)
  then show ?thesis using None assms by (simp add: next_mention_def get_next_use_def)
next
  case (Some us)
  have set: "set us = {int k |k. mentions func v k}" using compute_next_use_set[of func v] Some by (simp add: use_set_def)
  define it where "it = lower_bound us (i + 1) 0 (length us)"
  note lb = lower_bound_sorted[OF compute_next_use_sorted[OF Some], where v = "i + 1", folded it_def]
  have get: "get_next_use ra v i = (if it < length us then us ! it else - 1)"
    using assms Some by (simp add: get_next_use_def Let_def it_def)
  have least: "\<exists>j < length us. it \<le> j \<and> us ! j = int l" if "mentions func v l" "i < int l" for l
  proof -
    have "int l \<in> set us" using that(1) set by blast
    then obtain j where "j < length us" "us ! j = int l" by (auto simp: in_set_conv_nth)
    moreover have "it \<le> j" using lb(2)[of j] calculation that(2) by (cases "it \<le> j") auto
    ultimately show ?thesis by blast
  qed
  show ?thesis
  proof (cases "it < length us")
    case True
    then obtain k where k: "us ! it = int k" "mentions func v k" using set nth_mem[OF True] by auto
    have i: "i < int k" using lb(3)[of it] True k by simp
    have "k \<le> l" if "mentions func v l \<and> i < int l" for l
    proof -
      from least[of l] that obtain j where "j < length us" "it \<le> j" "us ! j = int l" by blast
      then show ?thesis using sorted_nth_mono[OF compute_next_use_sorted[OF Some], of it j] k by simp
    qed
    then have "(LEAST k. mentions func v k \<and> i < int k) = k" using k(2) i by (intro Least_equality) auto
    then show ?thesis using k i True get by (auto simp: next_mention_def)
  next
    case False
    then have "\<not> (\<exists>k. mentions func v k \<and> i < int k)" using least by fastforce
    then show ?thesis using False get by (simp add: next_mention_def)
  qed
qed

lemma next_mention_bound: "next_mention func v i = - 1 \<or> 0 \<le> next_mention func v i"
  by (simp add: next_mention_def)

text \<open>The walk ends with the first register that is not used again, and else with one used last.\<close>

lemma spill_scan_spec:
  assumes "\<forall>w \<in> set order. get_next_use ra w i \<noteq> - 1 \<longrightarrow> 0 \<le> get_next_use ra w i"
    and "best = - 1 \<and> b = - 1 \<or> b \<noteq> -1 \<and> get_next_use ra best i = b" and "order = [] \<longrightarrow> b \<noteq> - 1"
  defines "c \<equiv> spill_scan ra i order best b"
  shows "(c \<in> set order \<or> b \<noteq> - 1 \<and> c = best) \<and>
    (get_next_use ra c i = - 1 \<or> b \<le> get_next_use ra c i \<and> (\<forall>w \<in> set order. get_next_use ra w i \<noteq> -1 \<and> get_next_use ra w i \<le> get_next_use ra c i))"
  using assms(1-3) unfolding c_def
proof (induction order arbitrary: best b)
  case (Cons w order)
  show ?case
  proof (cases "get_next_use ra w i = - 1 \<or> \<not> b < get_next_use ra w i")
    case True
    then consider "get_next_use ra w i = - 1" | "get_next_use ra w i \<noteq> - 1" "get_next_use ra w i \<le> b" by linarith
    then show ?thesis
    proof cases
      case 2
      then have "b \<noteq> - 1" using Cons.prems(1) by auto
      then show ?thesis using Cons.IH[of best b] Cons.prems 2 by (auto simp: Let_def)
    qed (simp add: Let_def)
  next
    case False
    then show ?thesis using Cons.IH[of w "get_next_use ra w i"] Cons.prems by (auto simp: Let_def)
  qed
qed auto

lemma find_spill_spec:
  assumes u: "ra_vreg_all_uses ra = compute_next_use func" and "order \<noteq> []" and c_def: "c = find_spill_candidate ra order i"
  shows "c \<in> set order" "next_mention func c i = - 1 \<or>
    (\<forall>w \<in> set order. next_mention func w i \<noteq> - 1 \<and> next_mention func w i \<le> next_mention func c i)"
proof -
  have "\<forall>w \<in> set order. get_next_use ra w i \<noteq> - 1 \<longrightarrow> 0 \<le> get_next_use ra w i"
    using next_mention_bound by (auto simp: get_next_use_spec[OF u])
  from spill_scan_spec[OF this, of "-1" "-1"] show "c \<in> set order" "next_mention func c i = - 1 \<or>
    (\<forall>w \<in> set order. next_mention func w i \<noteq> - 1 \<and> next_mention func w i \<le> next_mention func c i)"
    using assms(2) by (auto simp: c_def find_spill_candidate_def get_next_use_spec[OF u])
qed

text \<open>With no register free, the new register is the one the candidate had.\<close>

lemma allocate_spills:
  assumes "ra_free_registers ra = []" "ra_vreg_to_preg ra v = None" "find_spill_candidate ra order i = w" "w \<noteq> - 1"
    "ra_vreg_to_preg ra w = Some p"
  shows "fst (allocate_register order v i ra) = uint p"
    "ra_vreg_to_preg (snd (allocate_register order v i ra)) = (ra_vreg_to_preg ra)(w := None, v \<mapsto> p)"
  using assms by (simp_all add: allocate_register_def make_room_def take_free_def spill_register_def Let_def)

section \<open>Clobbering\<close>

text \<open>With registers to spare, a clobbered value moves to the last free register.\<close>

lemma clobber_cases:
  assumes "clobber (moves, ra) c = (moves', ra')" "ra_free_registers ra \<noteq> []"
  obtains (idle) "ra_preg_to_vreg ra c = None" "moves' = moves" "ra' = ra"
  | (moved) w q where "ra_preg_to_vreg ra c = Some w" "q = last (ra_free_registers ra)" "q \<in> set (ra_free_registers ra)"
      "moves' = moves @ [(c, q)]" "ra_free_registers ra' = butlast (ra_free_registers ra)"
      "ra_vreg_to_preg ra' = (ra_vreg_to_preg ra)(w \<mapsto> q)" "ra_preg_to_vreg ra' = (ra_preg_to_vreg ra)(c := None, q \<mapsto> w)"
proof (cases "ra_preg_to_vreg ra c")
  case None
  then show thesis using idle assms by (simp add: clobber_def)
next
  case (Some w)
  then show thesis using moved[of w "last (ra_free_registers ra)"] assms by (auto simp: clobber_def Let_def)
qed

lemma clobber_moves:
  assumes ok: "ra_ok ra" and free: "ra_free_registers ra \<noteq> []" "c \<notin> set (ra_free_registers ra)"
    and r: "clobber (moves, ra) c = (moves', ra')"
  shows "ra_preg_to_vreg ra' c = None" "set moves \<subseteq> set moves'"
    "set (ra_free_registers ra') \<subseteq> set (ra_free_registers ra)" "length (ra_free_registers ra) \<le> Suc (length (ra_free_registers ra'))"
    "ra_vreg_to_preg ra v = Some p \<Longrightarrow> p \<noteq> c \<Longrightarrow> ra_vreg_to_preg ra' v = Some p"
    "ra_vreg_to_preg ra v = Some c \<Longrightarrow> \<exists>q \<in> set (ra_free_registers ra). ra_vreg_to_preg ra' v = Some q \<and> (c, q) \<in> set moves'"
    "ra_preg_to_vreg ra q = None \<Longrightarrow> q \<notin> set (ra_free_registers ra) \<Longrightarrow> ra_preg_to_vreg ra' q = None"
proof -
  note m = ra_ok_maps[OF ok]
  have "set (butlast (ra_free_registers ra)) \<subseteq> set (ra_free_registers ra)" by (auto dest: in_set_butlastD)
  with r free(1) show "ra_preg_to_vreg ra' c = None" "set moves \<subseteq> set moves'" "set (ra_free_registers ra') \<subseteq> set (ra_free_registers ra)"
    "length (ra_free_registers ra) \<le> Suc (length (ra_free_registers ra'))"
    by (cases rule: clobber_cases; use free in auto)+
  show "ra_vreg_to_preg ra' v = Some p" if "ra_vreg_to_preg ra v = Some p" "p \<noteq> c"
    using r free(1) by (cases rule: clobber_cases) (use that m[of v p] m[of v c] in auto)
  show "\<exists>q \<in> set (ra_free_registers ra). ra_vreg_to_preg ra' v = Some q \<and> (c, q) \<in> set moves'" if "ra_vreg_to_preg ra v = Some c"
    using r free(1) by (cases rule: clobber_cases) (use that m[of v c] in auto)
  show "ra_preg_to_vreg ra' q = None" if "ra_preg_to_vreg ra q = None" "q \<notin> set (ra_free_registers ra)"
    using r free(1) by (cases rule: clobber_cases) (use that in auto)
qed

lemma clobbered_values_move:
  assumes "ra_ok ra" "set (ra_free_registers ra) \<inter> set cs = {}" "length cs \<le> length (ra_free_registers ra)"
    "foldl clobber (moves, ra) cs = (moves', ra')"
  shows "(\<forall>c \<in> set cs. ra_preg_to_vreg ra' c = None) \<and> set moves \<subseteq> set moves' \<and>
    (\<forall>q. ra_preg_to_vreg ra q = None \<longrightarrow> q \<notin> set (ra_free_registers ra) \<longrightarrow> ra_preg_to_vreg ra' q = None) \<and>
    (\<forall>v p. ra_vreg_to_preg ra v = Some p \<longrightarrow>
      (if p \<in> set cs then \<exists>q. q \<notin> set cs \<and> ra_vreg_to_preg ra' v = Some q \<and> (p, q) \<in> set moves'
       else ra_vreg_to_preg ra' v = Some p))"
  using assms
proof (induction cs arbitrary: moves ra)
  case (Cons c cs)
  obtain m1 r1 where r: "clobber (moves, ra) c = (m1, r1)" by fastforce
  have ne: "ra_free_registers ra \<noteq> []" "c \<notin> set (ra_free_registers ra)" using Cons.prems(2,3) by auto
  note s = clobber_moves[OF Cons.prems(1) ne r]
  have ok: "ra_ok r1" using clobber_ok[OF Cons.prems(1), of moves c] r by simp
  have "set (ra_free_registers r1) \<inter> set cs = {}" "length cs \<le> length (ra_free_registers r1)" "foldl clobber (m1, r1) cs = (moves', ra')"
    using s(3,4) Cons.prems(2-4) r by auto
  note ih = Cons.IH[OF ok this]
  have c: "ra_preg_to_vreg ra' c = None" using ih s(1,3) ne(2) by blast
  have q: "ra_preg_to_vreg ra' q = None" if "ra_preg_to_vreg ra q = None" "q \<notin> set (ra_free_registers ra)" for q
    using ih s(3) s(7)[OF that] that(2) by blast
  have v: "if p \<in> set (c # cs) then \<exists>q. q \<notin> set (c # cs) \<and> ra_vreg_to_preg ra' v = Some q \<and> (p, q) \<in> set moves'
      else ra_vreg_to_preg ra' v = Some p" if vp: "ra_vreg_to_preg ra v = Some p" for v p
  proof (cases "p = c")
    case True
    then obtain q where q: "q \<in> set (ra_free_registers ra)" "ra_vreg_to_preg r1 v = Some q" "(c, q) \<in> set m1" using s(6)[of v] vp by blast
    then have "q \<notin> set (c # cs)" using Cons.prems(2) by auto
    moreover from this have "ra_vreg_to_preg ra' v = Some q" using ih q(2) by auto
    ultimately show ?thesis using q(3) ih True by auto
  next
    case False
    have r1: "ra_vreg_to_preg r1 v = Some p" by (rule s(5)[OF vp False])
    show ?thesis
    proof (cases "p \<in> set cs")
      case True
      then obtain q where q: "q \<notin> set cs" "ra_vreg_to_preg ra' v = Some q" "(p, q) \<in> set moves'" using ih r1 by force
      have "ra_ok ra'" using clobbers_ok[OF ok, of m1 cs] \<open>foldl clobber (m1, r1) cs = (moves', ra')\<close> by simp
      then have "q \<noteq> c" using ra_ok_maps[of ra' v q] q(2) c by auto
      then show ?thesis using q True by auto
    qed (use ih r1 False in auto)
  qed
  have "set moves \<subseteq> set moves'" "\<forall>x \<in> set (c # cs). ra_preg_to_vreg ra' x = None" using c ih s(2) by auto
  then show ?case using q v by blast
qed auto

section \<open>An example\<close>

text \<open>Two virtual registers in the only two registers; the second is used later than the first.\<close>

definition full_function :: IRFunction where
  "full_function = empty_function\<lparr>instructions := [mk_instr OP_LOAD_IMM [Reg 9, Imm 0], mk_instr OP_MOVE [Reg 9, Reg 1],
     mk_instr OP_MOVE [Reg 9, Reg 2]]\<rparr>"

definition full_allocator :: RegisterAllocator where
  "full_allocator = \<lparr>ra_vreg_to_preg = [1 \<mapsto> 5, 2 \<mapsto> 6], ra_preg_to_vreg = [5 \<mapsto> 1, 6 \<mapsto> 2], ra_free_registers = [],
     ra_vreg_all_uses = compute_next_use full_function\<rparr>"

lemma full_uses: "get_next_use full_allocator 1 0 = 1" "get_next_use full_allocator 2 0 = 2"
  by code_simp+

end
