(* ===== verification/Spec2Isabelle.thy ===== *)
theory Spec2Isabelle
  imports Register_Set String_Table Pipeline_Example Scope_Flow Pipeline_Ends Unsound_Passes Folding_Sound Pass_Selection Metadata_Example Register_Allocator
begin

text \<open>
  A verification library for the GDScript compiler under \<^verbatim>\<open>src/src/gdscript/compiler\<close>. File names
  below are relative to that directory.

  \<^bold>\<open>The program.\<close> The compiler reads a script, builds a syntax tree and translates it to an
  intermediate representation (IR): functions of three-address instructions over numbered virtual
  registers, with an interned string table. A verifier checks a function's IR, an optimiser runs
  a pipeline of thirteen passes over it with the verifier between them, and an interpreter defines what the IR
  computes. A code generator then emits RISC-V, taking registers from an allocator, and a builder
  writes an ELF file with a metadata section that describes the script to its host. The library
  models everything from the IR to the optimised IR, the register allocator, and the metadata.

  \<^bold>\<open>Common vocabulary.\<close> \<open>GD_Prelude\<close> has the error type (\<open>fault\<close>: a compiler exception with its class
  and reason, a standard library exception, undefined behaviour, or a loop that does not end), the
  result type \<open>res\<close> with its sequencing, and the integer types as words. \<open>Double\<close> is binary64
  arithmetic with rounding to nearest, computed on bit patterns.

  \<^bold>\<open>IR.\<close> \<open>IR\<close> (\<^verbatim>\<open>ir.h\<close>, \<^verbatim>\<open>ir.cpp\<close>, \<^verbatim>\<open>ir_opcodes.def\<close>): the opcode table with operand kinds and effects,
  values, instructions, functions, programs and the queries on them. \<open>Register_Set\<close>: the packed sets
  implement sets of numbers. \<open>String_Table\<close>: interning. \<open>Globals\<close> (\<^verbatim>\<open>globals.h\<close>, \<^verbatim>\<open>globals.cpp\<close>): the table
  of global functions and their integer and float evaluators; the functions of libm are a parameter.

  \<^bold>\<open>Interpreter.\<close> \<open>Interpreter\<close> (\<^verbatim>\<open>ir_interpreter.cpp\<close>): \<open>execute_instruction\<close> case by case, \<open>execute_steps\<close>
  the loop of \<open>execute_function\<close>, \<open>call_at\<close> the recursion, \<open>interp_call\<close> and \<open>initialize_globals\<close> the
  entry points. \<open>Semantics\<close> restates an instruction's effect apart from its position.

  \<^bold>\<open>Verifier.\<close> \<open>Verifier\<close> (\<^verbatim>\<open>ir_verifier.cpp\<close>): \<open>ir_verify\<close> and its checks. \<open>Flow\<close> has the contract of a
  forward must-analysis by worklist (locale \<open>must_analysis\<close>): it ends, and its fixed point holds on
  every path. \<open>Verifier_Sound\<close> interprets it for registers, \<open>Scope_Flow\<close> for scope marks.
  \<open>Verified_Run\<close> and \<open>Label_Safety\<close> carry the result to runs of the interpreter.

  \<^bold>\<open>Optimiser.\<close> \<open>Optimizer\<close>, \<open>Constant_Folding\<close>, \<open>Peephole\<close>, \<open>Dead_Code\<close>, \<open>Licm\<close> and \<open>Scalar_Replacement\<close> are
  the passes of \<^verbatim>\<open>ir_optimizer.cpp\<close> and the cached analysis; \<open>Pipeline\<close> is their selection and the run
  over a program. \<open>Simulation\<close> defines what it means to keep a program's meaning and has the contract
  of a pass (locale \<open>preserving_pass\<close>). Two kinds of pass give that contract: \<open>In_Place_Passes\<close> for
  passes that rewrite instructions where they stand (locale \<open>pointwise_pass\<close>, interpreted in
  \<open>Copy_Propagation\<close>) and \<open>Deleting_Passes\<close> for those that only delete (locale \<open>deleting_pass\<close>,
  interpreted in \<open>Unreachable_Sound\<close> and \<open>Dead_Code_Sound\<close>); \<open>Compact_Registers\<close> interprets it for
  register renumbering, and \<open>Licm_Sound\<close> shows that loop-invariant code motion is the identity.
  \<open>Analysis_Cache\<close> shows that the cache is never stale, \<open>Pipeline_Sound\<close> composes the passes,
  \<open>Scalar_Ends\<close> and \<open>Pipeline_Ends\<close> show that the optimiser ends, \<open>Folding_Sound\<close> compares compile-time with
  run-time evaluation, and \<open>Pass_Selection\<close> treats the choice of passes. \<open>Unsound_Passes\<close> has accepted
  functions whose result three other passes change: the peephole pass, the removal of redundant
  stores and constant folding across a call. Scalar replacement, scope mark tightening and the rest of
  those three are shown to end but not to keep the meaning.

  \<^bold>\<open>Metadata.\<close> \<open>Byte_Stream\<close> is the encoding the tables share and the bounds-checked cursor; its locale
  \<open>record_codec\<close> is the contract between a record's encoder and decoder, interpreted once for each of
  twelve record types in the theories of the tables: \<open>Signatures\<close>, \<open>Declarations\<close> and \<open>Class_Signatures\<close>
  (\<^verbatim>\<open>function_signature.cpp\<close>), \<open>Property_Signatures\<close> (\<^verbatim>\<open>property_signature.cpp\<close>, \<^verbatim>\<open>debug_layout.cpp\<close>),
  \<open>Line_Table\<close> (\<^verbatim>\<open>line_table.cpp\<close>) and \<open>Script_Metadata\<close> (\<^verbatim>\<open>gdsmeta.cpp\<close>), which puts them together.
  Each shows that decoding an encoding gives the record back, and some that nothing else is accepted.

  \<^bold>\<open>Registers.\<close> \<open>Register_Allocator\<close> (\<^verbatim>\<open>register_allocator.cpp\<close>) has the operations as functions on the
  allocator's state and \<open>alloc_step\<close>, one call of any of them; its invariant holds in every state a
  sequence of calls reaches.

  \<open>Worked_Example\<close>, \<open>Pipeline_Example\<close> and \<open>Metadata_Example\<close> have the concrete programs and tables the
  theorems are applied to.

  \<^bold>\<open>Bounds.\<close> The interpreter's own limits are in the model: 20,000,000 steps in an activation and 256
  nested calls; reaching one is an error, not a cut-off of the model. The open-ended loops (the
  verifier's two worklists, the search for reachable blocks, the dead code worklist, the rounds of
  hoisting and of collecting aliases) are \<open>while_option\<close>, whose \<open>None\<close> is the fault \<open>Diverges\<close>; on
  verified functions each is shown never to give it. There is no other fuel.

  \<^bold>\<open>Conditions.\<close> The theorems on passes ask that functions are verified, that a label's text is interned
  under one number, and that a call gives its callee every parameter; the code generator emits
  such programs. Preservation is for runs that complete: a call that ends in an error in the
  original is not covered.

  \<^bold>\<open>Choices.\<close> Immediate indices and register numbers inside IR values are integers and naturals where
  the code has 32 bits, and so are the use counts of dead code elimination. Reading an operand an
  instruction does not have gives the immediate zero in the model and is undefined in the code; the
  verifier rejects such instructions. A call from outside starts at depth zero, as it does on a
  fresh interpreter; after an exception the code's depth counter stays raised. The cached analysis
  is matched by the length of the function only, without the code's test of the function's address.
  Error messages are not built. A rejected selection of passes gives the error without the state the
  code leaves half filled. The interpreter's \<open>std::unordered_map\<close> of registers is a map whose absent
  entries read as null, as \<open>get_register\<close> makes them.

  \<^bold>\<open>Not modelled.\<close> The lexer, the parser and the IR generator (there is no semantics of the source
  language to compare them with), the RISC-V and C back ends (they need a model of the machine and
  of the host), the ELF builder, the export annotations, and the drivers and printers. The tables of
  named constants in \<^verbatim>\<open>globals.cpp\<close> and the printing of IR are left out too.
\<close>

section \<open>The whole optimiser\<close>

text \<open>
  C1: the optimiser as a whole keeps the meaning of a program. Whatever sound passes are
  enabled, and however many of the pipeline run, when \<open>optimize\<close> with verification returns a
  program, every call the interpreter answers on the original is answered the same on the
  result. Labels are interned and the calls pass enough arguments, as the code generator
  emits them.
\<close>

theorem optimize_preserves_calls:
  assumes "sound_settings opt"
    "\<forall>f \<in> set (all_functions P). named_once P f \<and> calls_covered P f"
    "optimize lm True opt P = Inr (opt', Q)"
    "covered P name (length args)" "interp_call lm' P name args gs = Inr r"
  shows "interp_call lm' Q name args gs = Inr r"
proof -
  have n: "\<forall>f \<in> set (all_functions P). named_once P f" using assms(2) by blast
  note q = optimize_refines[OF assms(1) n assms(3)]
  have "\<forall>f \<in> set (prog_functions P). calls_covered P f" using assms(2) by (simp add: all_functions_def)
  from program_refined[OF q(1,2) this assms(4,5)] show ?thesis .
qed

theorem optimize_preserves_calls_witness:
  "\<exists>opt'. optimize example_libm True sound_optimizer small_program =
       Inr (opt', small_program\<lparr>prog_functions := [small_result]\<rparr>) \<and>
     interp_call example_libm (small_program\<lparr>prog_functions := [small_result]\<rparr>) ''f'' [VInt 7] [] =
       Inr (VInt 14, [])"
proof -
  obtain opt' where o: "optimize example_libm True sound_optimizer small_program =
      Inr (opt', small_program\<lparr>prog_functions := [small_result]\<rparr>)" using small_optimized by blast
  have "\<forall>f \<in> set (all_functions small_program). named_once small_program f \<and> calls_covered small_program f"
    using small_named small_covered by (auto simp: all_functions_def small_program_def)
  from optimize_preserves_calls[OF sound_optimizer_settings this o, of "''f''" "[VInt 7]" example_libm "[]"]
  show ?thesis using o small_covered small_run by simp
qed

text \<open>
  C2: the optimiser keeps the initial values of the globals. With only sound passes enabled and
  verification on, labels interned once, calls that pass enough arguments and initialisers
  without parameters: where the initialisers of the original program run to their end, those of
  the optimised one leave the same globals.
\<close>

theorem optimize_preserves_globals:
  assumes "sound_settings opt"
    "\<forall>f \<in> set (all_functions P). named_once P f \<and> calls_covered P f"
    "parameters (member_init P) = []" "parameters (global_init P) = []"
    "optimize lm True opt P = Inr (opt', Q)" "initialize_globals lm' P = Inr gs"
  shows "initialize_globals lm' Q = Inr gs"
proof -
  have n: "\<forall>f \<in> set (all_functions P). named_once P f" "\<forall>f \<in> set (all_functions P). calls_covered P f"
    using assms(2) by blast+
  note q = optimize_refines[OF assms(1) n(1) assms(5)]
  from initialize_globals_refined[OF q(1-7) n(2) assms(3,4,6)] show ?thesis .
qed

theorem optimize_preserves_globals_witness:
  "\<exists>opt'. optimize example_libm True setup_optimizer setup_program =
       Inr (opt', setup_program\<lparr>global_init := setup_result\<rparr>) \<and> setup_result \<noteq> setup_function \<and>
     initialize_globals example_libm (setup_program\<lparr>global_init := setup_result\<rparr>) = Inr [VInt 5]"
proof -
  obtain opt' where o: "optimize example_libm True setup_optimizer setup_program =
      Inr (opt', setup_program\<lparr>global_init := setup_result\<rparr>)" using setup_optimized by blast
  have n: "\<forall>f \<in> set (all_functions setup_program). named_once setup_program f \<and> calls_covered setup_program f"
    using setup_named setup_covered by (auto simp: all_functions_def setup_program_def small_program_def)
  have p: "parameters (member_init setup_program) = []" "parameters (global_init setup_program) = []"
    by (simp_all add: setup_program_def small_program_def setup_function_def empty_function_def)
  have "setup_result \<noteq> setup_function" by (auto simp: setup_result_def setup_function_def dest: arg_cong[of _ _ max_registers])
  with optimize_preserves_globals[OF setup_optimizer_settings n p o setup_run] o show ?thesis by blast
qed

section \<open>Passes that keep the meaning of a program\<close>

lemma copy_pass_result: "pass_function copy_propagation opt f = copy_pass P f"
  by (simp add: pass_function_def copy_propagation_def replace_instructions_def copy_pass_def Let_def)

lemma enhanced_pass_result: "pass_function enhanced_copy_propagation opt f = enhanced_pass P f"
  by (simp add: pass_function_def enhanced_copy_propagation_def replace_instructions_def enhanced_pass_def Let_def)

lemma unreachable_pass_result:
  assumes "\<not> an_valid (m_analysis opt)"
  shows "pass_function eliminate_unreachable_code opt = unreachable_pass P"
proof -
  have "coherent opt f" for f using assms by (simp add: coherent_def)
  then show ?thesis using unreachable_pass_eq[of opt _ P] unreachable_pass_code[of P] by (simp add: fun_eq_iff)
qed

lemma dead_code_pass_result: "pass_function eliminate_dead_code opt = dead_code_pass P"
  using dead_code_pass_eq[of opt _ P] dead_code_pass_code[of P] by (simp add: fun_eq_iff)

lemma compact_pass_result: "pass_function reduce_register_pressure opt = compact_pass P"
  by (simp add: fun_eq_iff compact_pass_def compact_pass_eq)

text \<open>
  C6: dead code elimination keeps the meaning of a program. When every function is accepted
  by the verifier and calls pass enough arguments, a call that the interpreter answers on the
  original program is answered the same on the program whose functions went through the pass,
  globals included.
\<close>

theorem dead_code_preserves:
  assumes "\<forall>f \<in> set (prog_functions P). verified P f \<and> calls_covered P f"
    "covered P name (length args)" "interp_call lm P name args gs = Inr r"
  shows "interp_call lm (map_functions (pass_function eliminate_dead_code opt) P) name args gs = Inr r"
  using dead_code.program[OF assms] by (simp add: dead_code_pass_result[of opt P])

theorem dead_code_preserves_witness:
  "interp_call example_libm (map_functions (pass_function eliminate_dead_code new_optimizer) example_program)
     ''f'' [VInt 7] [] = Inr (VInt 12, [])"
  using dead_code_preserves[of example_program "''f''" "[VInt 7]" example_libm "[]" _ new_optimizer]
  by (simp add: example_run example_verified example_covered example_functions)

text \<open>
  C7: removal of unreachable code keeps the meaning of a program whose functions are verified
  and whose labels are interned, where calls pass enough arguments, starting from an empty
  analysis cache.
\<close>

theorem unreachable_code_preserves:
  assumes "\<forall>f \<in> set (prog_functions P). verified P f \<and> named_once P f \<and> calls_covered P f"
    "\<not> an_valid (m_analysis opt)"
    "covered P name (length args)" "interp_call lm P name args gs = Inr r"
  shows "interp_call lm (map_functions (pass_function eliminate_unreachable_code opt) P) name args gs = Inr r"
  using unreachable.program[OF _ assms(3,4)] assms(1)
  by (simp add: named_pre_def unreachable_pass_result[OF assms(2), of P])

theorem unreachable_code_preserves_witness:
  "interp_call example_libm (map_functions (pass_function eliminate_unreachable_code new_optimizer) example_program)
     ''f'' [VInt 7] [] = Inr (VInt 12, [])"
  using unreachable_code_preserves[of example_program new_optimizer "''f''" "[VInt 7]" example_libm "[]"]
  by (simp add: example_run example_verified example_covered example_functions example_named
    new_optimizer_def no_analysis_def)

text \<open>
  C8: copy propagation, which replaces a copy of a loaded constant by a second load, keeps the
  meaning of a program of verified functions whose calls pass enough arguments.
\<close>

theorem copy_propagation_preserves:
  assumes "\<forall>f \<in> set (prog_functions P). verified P f \<and> calls_covered P f"
    "covered P name (length args)" "interp_call lm P name args gs = Inr r"
  shows "interp_call lm (map_functions (pass_function copy_propagation opt) P) name args gs = Inr r"
  using copy_const.program[OF assms] by (simp only: copy_pass_result[of opt _ P, abs_def, symmetric])

theorem copy_propagation_preserves_witness:
  "interp_call example_libm (map_functions (pass_function copy_propagation new_optimizer) example_program)
     ''f'' [VInt 7] [] = Inr (VInt 12, [])"
  using copy_propagation_preserves[of example_program "''f''" "[VInt 7]" example_libm "[]" _ new_optimizer]
  by (simp add: example_run example_verified example_covered example_functions)

text \<open>
  C9: enhanced copy propagation, which reads the source of a copy instead of the copy, keeps
  the meaning of a program of verified functions whose calls pass enough arguments, provided its
  output still passes the verifier's operand check. The proviso excludes the calls that the pass makes read their own
  destination.
\<close>

theorem enhanced_copy_preserves:
  assumes "\<forall>f \<in> set (prog_functions P). verified P f \<and> calls_covered P f \<and>
      check_operands (pass_function enhanced_copy_propagation opt f) = Inr ()"
    "covered P name (length args)" "interp_call lm P name args gs = Inr r"
  shows "interp_call lm (map_functions (pass_function enhanced_copy_propagation opt) P) name args gs = Inr r"
  using copy_regs.program[OF _ assms(2,3)] assms(1)
  by (simp add: enhanced_pre_def enhanced_pass_result[of opt _ P, abs_def])

theorem enhanced_copy_preserves_witness:
  "interp_call example_libm (map_functions (pass_function enhanced_copy_propagation new_optimizer) example_program)
     ''f'' [VInt 7] [] = Inr (VInt 12, [])"
  using enhanced_copy_preserves[of example_program new_optimizer "''f''" "[VInt 7]" example_libm "[]"]
  by (simp add: example_run example_verified example_covered example_functions enhanced_pass_result[of _ _ example_program] example_enhanced)

text \<open>
  C10: renumbering registers keeps the meaning of a program of verified functions whose calls pass
  enough arguments.
\<close>

theorem compact_registers_preserves:
  assumes "\<forall>f \<in> set (prog_functions P). verified P f \<and> calls_covered P f"
    "covered P name (length args)" "interp_call lm P name args gs = Inr r"
  shows "interp_call lm (map_functions (pass_function reduce_register_pressure opt) P) name args gs = Inr r"
  using compact.program[OF assms] by (simp add: compact_pass_result[of opt P])

theorem compact_registers_preserves_witness:
  "interp_call example_libm (map_functions (pass_function reduce_register_pressure new_optimizer) example_program)
     ''f'' [VInt 7] [] = Inr (VInt 12, [])"
  using compact_registers_preserves[of example_program "''f''" "[VInt 7]" example_libm "[]" _ new_optimizer]
  by (simp add: example_run example_verified example_covered example_functions)

section \<open>What the verifier promises\<close>

text \<open>
  C3: an accepted function reads only registers that have been written, but for \<open>RETURN\<close>. At every
  state an activation called with enough arguments passes through, each register the next
  instruction reads holds a value, so the interpreter's rule that an absent register reads as
  null is never used. The read of the return register by \<open>RETURN\<close> is left out, since the verifier
  does not check it (a function without a result never writes that register).
\<close>

theorem verified_reads_defined:
  assumes "reaches call lm P f args gs st" "ir_verify (Some (strings P)) f = Inr ()"
    "length (parameters f) \<le> length args" "running (instructions f) (fst st)"
    "opcode (instructions f ! pc (fst st)) \<noteq> OP_RETURN"
    "x \<in> set (ir_collect_read_registers (instructions f ! pc (fst st)))"
  shows "registers (fst st) x \<noteq> None"
proof -
  have v: "verified P f" using assms(2) by (simp add: verified_def)
  from reaches_inv[OF assms(1) v assms(3)] show ?thesis
    by (rule run_inv_reads[OF v _ assms(4-6)])
qed

theorem verified_reads_defined_witness:
  "registers (fst (start_context small_program small_function [VInt 7], [] :: Value list)) 0 \<noteq> None"
proof -
  let ?c = "start_context small_program small_function [VInt 7]"
  have r: "reaches (\<lambda>_ _ _. Inl UndefinedBehaviour) example_libm small_program small_function [VInt 7] [] (?c, [])"
    by (rule reaches_start)
  have c: "running (instructions small_function) (fst (?c, [] :: Value list))"
    "opcode (instructions small_function ! pc (fst (?c, [] :: Value list))) \<noteq> OP_RETURN"
    "0 \<in> set (ir_collect_read_registers (instructions small_function ! pc (fst (?c, [] :: Value list))))"
    "length (parameters small_function) \<le> length [VInt 7]" by code_simp+
  show ?thesis
    by (rule verified_reads_defined[OF r small_verified[unfolded verified_def] c(4,1-3)])
qed

text \<open>
  C4: in a program of accepted functions no jump misses its label: whatever call is made, and
  however deep, the interpreter does not stop with the complaint that a label is missing.
\<close>

theorem verified_jumps_land:
  assumes "\<forall>f \<in> set (prog_functions P). ir_verify (Some (strings P)) f = Inr () \<and> calls_covered P f"
    "covered P name (length args)"
  shows "interp_call lm P name args gs \<noteq> Inl (CompilerException OPTIMIZER_ERROR MissingLabel)"
proof -
  have "regular (call_at lm P MAX_CALL_DEPTH name args gs)"
    using call_regular[OF _ assms(2)] assms(1) by (simp add: verified_def)
  then show ?thesis by (auto simp: interp_call_def regular_def split: option.splits)
qed

theorem verified_jumps_land_witness:
  "interp_call example_libm example_program ''f'' [VInt 7] [] \<noteq>
     Inl (CompilerException OPTIMIZER_ERROR MissingLabel)"
  using verified_jumps_land[of example_program "''f''" "[VInt 7]" example_libm "[]"]
    example_verified[unfolded verified_def] example_covered example_functions by simp

text \<open>
  C13: every control-flow path of an accepted function that arrives at the release of a scope has
  passed a mark of that scope.
\<close>

theorem releases_are_marked:
  assumes "ir_verify t f = Inr ()"
    "cfg_path t (verified_labels t f) (instructions f) (ps @ [i])"
    "i < length (instructions f)" "opcode (instructions f ! i) = OP_SCOPE_RELEASE"
  shows "\<exists>j \<in> set ps. opcode (instructions f ! j) = OP_SCOPE_MARK \<and>
    immediate (operand (instructions f ! j) 0) = immediate (operand (instructions f ! i) 0)"
  by (rule released_scope_marked[OF assms])

theorem releases_are_marked_witness:
  "\<exists>j \<in> set [0]. opcode (instructions scope_example ! j) = OP_SCOPE_MARK \<and>
     immediate (operand (instructions scope_example ! j) 0) = immediate (operand (instructions scope_example ! 1) 0)"
proof (rule releases_are_marked)
  show v: "ir_verify (Some example_strings) scope_example = Inr ()" by code_simp
  have "cfg_path (Some example_strings) m (instructions scope_example) ([] @ [0, 1])" for m
    by (rule path_step) (auto intro: path_start simp: scope_example_def instr_succs_def)
  then show "cfg_path (Some example_strings) (verified_labels (Some example_strings) scope_example)
      (instructions scope_example) ([0] @ [1])" by simp
qed (simp_all add: scope_example_def)

text \<open>
  C14: every register an accepted function names lies in the frame its \<open>max_registers\<close> gives it.
\<close>

theorem verified_registers_in_frame:
  assumes "ir_verify (Some t) f = Inr ()" "i \<in> set (instructions f)" "Reg r \<in> set (operands i)"
  shows "0 \<le> r \<and> r < max_registers f"
proof -
  have "verified (small_program\<lparr>strings := t\<rparr>) f" using assms(1) by (simp add: verified_def)
  from register_range[OF this assms(2,3)] show ?thesis by (auto simp: register_count_def)
qed

theorem verified_registers_in_frame_witness: "0 \<le> (7 :: int) \<and> 7 < max_registers small_function"
proof (rule verified_registers_in_frame)
  show "ir_verify (Some example_strings) small_function = Inr ()"
    using small_verified by (simp add: verified_def small_program_def)
  show "mk_instr OP_LOAD_IMM [Reg 7, Imm 1] \<in> set (instructions small_function)" by (simp add: small_function_def)
qed simp

text \<open>C15: verification ends on every function, accepted or not: both worklists run empty.\<close>

theorem verification_ends: "ir_verify t f \<noteq> Inl Diverges"
  by (rule ir_verify_ends)

section \<open>What the passes compute\<close>

text \<open>
  C5: the optimiser, verifying between its passes, ends on every program: none of its loops and
  worklists runs forever, whatever passes are enabled.
\<close>

theorem optimizer_ends: "optimize lm True opt P \<noteq> Inl Diverges"
  using optimize_ends[of lm opt P] by (simp add: ends_def)

text \<open>
  C12: when the verifying optimiser returns a program, the verifier accepts every function of it,
  the two initialisers that are present included.
\<close>

theorem optimizer_output_accepted:
  assumes "optimize lm True opt P = Inr (opt', P')"
  shows "strings P' = strings P \<and>
    (\<forall>f \<in> set (prog_functions P') \<union> (if has_member_init P' then {member_init P'} else {}) \<union>
        (if has_global_init P' then {global_init P'} else {}). ir_verify (Some (strings P')) f = Inr ())"
proof -
  have one: "ir_verify t g = Inr ()" if "optimize_function lm True t o1 f = Inr (o2, g)" for t o1 f o2 g
    using that by (auto simp: optimize_function_def verify_if_def Let_def bind_res_eq_Inr split: prod.splits)
  have all: "\<forall>g \<in> set gs. ir_verify t g = Inr ()" if "optimize_functions lm True t o1 fs = Inr (o2, gs)" for t o1 fs o2 gs
    using that
  proof (induction fs arbitrary: o1 gs)
    case (Cons f fs)
    then obtain o3 g gs1 where "optimize_function lm True t o1 f = Inr (o3, g)"
      "optimize_functions lm True t o3 fs = Inr (o2, gs1)" "gs = g # gs1" by (auto simp: bind_res_eq_Inr)
    then show ?case using Cons.IH[of o3 gs1] one by auto
  qed simp
  show ?thesis using assms one all by (auto simp: optimize_def optimize_optional_def Let_def bind_res_eq_Inr)
qed

theorem optimizer_output_accepted_witness:
  "\<exists>opt'. optimize example_libm True sound_optimizer small_program =
       Inr (opt', small_program\<lparr>prog_functions := [small_result]\<rparr>) \<and>
     ir_verify (Some (strings small_program)) small_result = Inr ()"
proof -
  obtain opt' where o: "optimize example_libm True sound_optimizer small_program =
      Inr (opt', small_program\<lparr>prog_functions := [small_result]\<rparr>)"
    using small_optimized by blast
  from optimizer_output_accepted[OF o] o show ?thesis by auto
qed

text \<open>
  C11: the cached analysis is never stale. If the cache describes an accepted function, then after any
  pass of the pipeline it describes the function the pass returns, or is marked invalid.
\<close>

theorem cache_stays_coherent:
  assumes "ir_verify (Some t) f = Inr ()" "coherent opt f" "p \<in> set (pipeline lm)"
    "snd p opt f = Inr (opt', f', changed)"
  shows "fst (analysis opt' f') = build_analysis f'"
proof -
  have "verified (example_program\<lparr>strings := t\<rparr>) f" using assms(1) by (simp add: verified_def)
  then show ?thesis using pipeline_coherent[OF _ assms(2-4)] analysis_coherent by blast
qed

theorem cache_stays_coherent_witness:
  "\<exists>opt' changed. peephole_optimization new_optimizer counting_loop = Inr (opt', counting_folded, changed) \<and>
     fst (analysis opt' counting_folded) = build_analysis counting_folded"
proof -
  obtain opt' c where r: "peephole_optimization new_optimizer counting_loop = Inr (opt', counting_folded, c)"
    using counting_pass by blast
  have "fst (analysis opt' counting_folded) = build_analysis counting_folded"
  proof (rule cache_stays_coherent)
    show "ir_verify (Some (strings (program_of [counting_loop]))) counting_loop = Inr ()"
      using counting_verified by (simp add: verified_def)
    show "(''peephole'', peephole_optimization) \<in> set (pipeline example_libm)" by (simp add: pipeline_def)
    show "snd (''peephole'', peephole_optimization) new_optimizer counting_loop = Inr (opt', counting_folded, c)"
      using r by simp
  qed (rule coherent_new)
  then show ?thesis using r by blast
qed

text \<open>
  C16: dead code elimination deletes exactly what it may: an instruction goes if and only if it is
  pure, writes a register, and no instruction that stays reads that register.
\<close>

theorem dead_code_exact:
  assumes "dce_solve is = Inr del" "i < length is"
  shows "length del = length is \<and> (del ! i \<longleftrightarrow>
    0 \<le> ir_destination_register (is ! i) \<and> ir_instruction_is_pure (is ! i) = Inr True \<and>
    (\<forall>j < length is. \<not> del ! j \<longrightarrow> ir_destination_register (is ! i) \<notin> set (ir_collect_read_registers (is ! j))))"
  using dce_solution[OF assms] by simp

theorem dead_code_exact_witness:
  "\<exists>del. dce_solve (instructions example_function) = Inr del \<and> length del = 8 \<and> del ! 6 \<and>
     ir_instruction_is_pure (instructions example_function ! 6) = Inr True"
proof -
  let ?is = "instructions example_function"
  have d: "dce_solve ?is = Inr [False, False, False, False, True, False, True, False]" by code_simp
  have n: "6 < length ?is" by (simp add: example_function_def)
  from dead_code_exact[OF d n] d show ?thesis by (simp add: example_function_def)
qed

text \<open>
  C17: the block search marks exactly the blocks a path from the entry block reaches, and always ends.
\<close>

theorem reachable_blocks_are_reached:
  assumes "instructions f \<noteq> []"
  shows "\<exists>seen. reachable_blocks (an_blocks (build_analysis f)) = Inr seen \<and>
    (\<forall>b < length (an_blocks (build_analysis f)). seen ! b \<longleftrightarrow>
      (0, b) \<in> {(a, b). a < length (an_blocks (build_analysis f)) \<and> b \<in> set (blk_successors (an_blocks (build_analysis f) ! a))}\<^sup>*)"
  by (rule reachable_blocks_exact[OF build_analysis_closed]) (use assms blocks_empty in auto)

theorem reachable_blocks_are_reached_witness:
  "\<exists>seen. reachable_blocks (an_blocks (build_analysis example_function)) = Inr seen \<and>
    (\<forall>b < length (an_blocks (build_analysis example_function)). seen ! b \<longleftrightarrow>
      (0, b) \<in> {(a, b). a < length (an_blocks (build_analysis example_function)) \<and>
        b \<in> set (blk_successors (an_blocks (build_analysis example_function) ! a))}\<^sup>*)"
  by (rule reachable_blocks_are_reached) (simp add: example_function_def)

text \<open>
  C18: loop-invariant code motion moves nothing. The loop search takes the \<open>LABEL\<close> that names
  itself for a back edge, so every loop it finds is one instruction long, and an accepted function
  comes back as it went in, reported as unchanged.
\<close>

theorem licm_moves_nothing:
  assumes "ir_verify (Some t) f = Inr ()"
  shows "\<exists>opt'. loop_invariant_code_motion new_optimizer f = Inr (opt', f, False)"
proof -
  have "verified (example_program\<lparr>strings := t\<rparr>) f" using assms by (simp add: verified_def)
  from licm_result[OF this coherent_new] show ?thesis by blast
qed

theorem licm_moves_nothing_witness:
  "\<exists>opt'. loop_invariant_code_motion new_optimizer counting_loop = Inr (opt', counting_loop, False)"
  by (rule licm_moves_nothing[of "strings (program_of [counting_loop])"])
    (use counting_verified in \<open>simp add: verified_def\<close>)

section \<open>Folding at compile time\<close>

text \<open>
  C19: constant folding computes what the interpreter computes. For two numeric constants and any
  operator the folder handles, a folded arithmetic result is the interpreter's value, and a folded
  comparison is as true as the interpreter's (which answers an integer where the folder answers a
  boolean). Two integers under a FLOAT hint are the exception: there the folder gives what the
  interpreter has for the two numbers as floats, not for the integers themselves.
\<close>

theorem folding_agrees:
  assumes "numeric l" "numeric r" "try_fold_binary_op op hint l r = Some c" "op \<in> set INT_FOLDS \<union> set COMPARE_OPS"
  shows "if op \<in> set COMPARE_OPS
    then compare_op (constant_value l) (constant_value r) op = Inr (int_of_bool (cv_bool_value c))
    else if hint = Variant_FLOAT \<and> cv_type l = CV_INT \<and> cv_type r = CV_INT
    then binary_op (VFloat (of_int64 (cv_int_value l))) (VFloat (of_int64 (cv_int_value r))) op = Inr (constant_value c)
    else binary_op (constant_value l) (constant_value r) op = Inr (constant_value c)"
proof (cases "op \<in> set COMPARE_OPS")
  case True
  then show ?thesis using fold_comparison_agrees[OF assms(1,2) True assms(3)] by simp
next
  case False
  then have op: "op \<in> set INT_FOLDS" using assms(4) by blast
  show ?thesis
  proof (cases "hint = Variant_FLOAT \<and> cv_type l = CV_INT \<and> cv_type r = CV_INT")
    case True
    then show ?thesis using fold_promoted_agrees[of l r op c] op False assms(3) by simp
  next
    case h: False
    then have "hint = Variant_FLOAT \<Longrightarrow> cv_type l = CV_FLOAT \<or> cv_type r = CV_FLOAT"
      using assms(1,2) by (auto simp: numeric_def)
    from fold_arithmetic_agrees[OF assms(1,2) op this assms(3)] show ?thesis using False h by (simp only: simp_thms if_False)
  qed
qed

theorem folding_agrees_witness:
  "binary_op (VInt (- 7)) (VInt 2) OP_DIV = Inr (VInt (- 3)) \<and> compare_op (VInt (- 7)) (VInt 2) OP_CMP_LT = Inr (VInt 1) \<and>
   (\<exists>c. try_fold_binary_op OP_ADD Variant_FLOAT (int_constant 7) (int_constant 2) = Some c \<and>
      binary_op (VFloat (of_int64 7)) (VFloat (of_int64 2)) OP_ADD = Inr (constant_value c))"
proof -
  have n: "numeric (int_constant i)" for i by (simp add: numeric_def)
  have d: "try_fold_binary_op OP_DIV Variant_INT (int_constant (- 7)) (int_constant 2) = Some (int_constant (- 3))"
    "try_fold_binary_op OP_CMP_LT Variant_INT (int_constant (- 7)) (int_constant 2) = Some (bool_constant True)"
    by code_simp+
  obtain c where c: "try_fold_binary_op OP_ADD Variant_FLOAT (int_constant 7) (int_constant 2) = Some c"
    by (simp add: try_fold_binary_op_def fold_float_op_def FLOAT_FOLDS_def)
  have m: "OP_DIV \<in> set INT_FOLDS \<union> set COMPARE_OPS" "OP_CMP_LT \<in> set INT_FOLDS \<union> set COMPARE_OPS"
    "OP_ADD \<in> set INT_FOLDS \<union> set COMPARE_OPS" "OP_ADD \<notin> set COMPARE_OPS"
    "OP_DIV \<notin> set COMPARE_OPS" "OP_CMP_LT \<in> set COMPARE_OPS" "Variant_INT \<noteq> Variant_FLOAT" by code_simp+
  have i: "cv_int_value (int_constant k) = k" for k by (simp add: int_constant_def)
  from folding_agrees[OF n n d(1) m(1)] folding_agrees[OF n n d(2) m(2)] folding_agrees[OF n n c m(3)] m(4-7) c show ?thesis
    by (simp add: int_of_bool_def i)
qed

text \<open>
  C20: the branch that replaces a comparison and a test of its result is taken exactly when the
  original branch is, for a test of falsehood provided neither side is a NaN.
\<close>

theorem fused_branch_agrees:
  assumes "op \<in> set COMPARE_OPS" "fused_opcode op invert = Some br" "compare_op v w op = Inr x"
    "invert \<longrightarrow> \<not> has_nan v \<and> \<not> has_nan w"
  shows "fused_branch_taken v w br = Inr (get_bool x \<noteq> invert)"
  using fused_same[OF assms(1) _ assms(3)] fused_inverse[OF assms(1) _ assms(3)] assms(2,4)
  by (cases invert) auto

theorem fused_branch_agrees_witness: "fused_branch_taken (VString ''a'') (VString ''b'') OP_BRANCH_GTE = Inr False"
proof -
  have "\<not> has_nan (VString s)" for s
    by (simp add: has_nan_def get_double_def is_nan_def fp_decode_def d_exp_def d_mant_def)
  moreover have "compare_op (VString ''a'') (VString ''b'') OP_CMP_LT = Inr (VInt 1)"
    by (simp add: compare_op_def is_string_def select_compare_def int_of_bool_def get_string_def)
  moreover have "OP_CMP_LT \<in> set COMPARE_OPS" "fused_opcode OP_CMP_LT True = Some OP_BRANCH_GTE" "get_bool (VInt 1)"
    by (simp_all add: COMPARE_OPS_def fused_opcode_def get_bool_def)
  ultimately show ?thesis
    using fused_branch_agrees[of OP_CMP_LT True OP_BRANCH_GTE "VString ''a''" "VString ''b''" "VInt 1"] by simp
qed

text \<open>
  C21: with a NaN the replacement of a branch on a false ordering is wrong. For every ordering
  comparison of a NaN with any value that is neither null nor a string, on either side, the
  comparison is false, so the original branch is taken, and the fused branch is not.
\<close>

theorem fused_branch_drops_nan:
  assumes "op \<in> {OP_CMP_LT, OP_CMP_LTE, OP_CMP_GT, OP_CMP_GTE}" "fused_opcode op True = Some br" "is_nan d"
    "v = VFloat d \<or> w = VFloat d" "\<not> is_string v" "\<not> is_string w" "v \<noteq> VNil" "w \<noteq> VNil"
  shows "compare_op v w op = Inr (VInt 0) \<and> get_bool (VInt 0) = False \<and> fused_branch_taken v w br = Inr False"
  using fused_inverse_nan[OF assms] by (simp add: get_bool_def)

theorem fused_branch_drops_nan_witness:
  "compare_op (VInt 1) (VFloat (Double 0x7FF8000000000000)) OP_CMP_LTE = Inr (VInt 0) \<and>
   fused_branch_taken (VInt 1) (VFloat (Double 0x7FF8000000000000)) OP_BRANCH_GT = Inr False"
proof -
  have n: "is_nan (Double 0x7FF8000000000000)" by (simp add: is_nan_def fp_decode_def d_exp_def d_mant_def)
  from fused_branch_drops_nan[OF _ _ this, of OP_CMP_LTE OP_BRANCH_GT "VInt 1" "VFloat (Double 0x7FF8000000000000)"] show ?thesis
    by (simp add: fused_opcode_def is_string_def)
qed

section \<open>Tables and sets\<close>

text \<open>
  C22: the packed register sets are sets of register numbers: each operation keeps the
  representation valid and does to the set what its name says, and the tests that look at whole
  words answer the questions about sets.
\<close>

theorem register_set_refines:
  assumes "rs_wf s" "rs_wf t" "rs_bits s = rs_bits t" "b < rs_bits s"
  shows "rs_wf (rs_resize n) \<and> rs_abs (rs_resize n) = {} \<and>
    rs_wf (rs_set s b) \<and> rs_abs (rs_set s b) = insert b (rs_abs s) \<and>
    rs_wf (rs_reset s b) \<and> rs_abs (rs_reset s b) = rs_abs s - {b} \<and>
    rs_wf (rs_union s t) \<and> rs_abs (rs_union s t) = rs_abs s \<union> rs_abs t \<and>
    rs_wf (rs_clear s) \<and> rs_abs (rs_clear s) = {} \<and>
    rs_wf (rs_set_all s) \<and> rs_abs (rs_set_all s) = {..<rs_bits s} \<and>
    (rs_any s \<longleftrightarrow> rs_abs s \<noteq> {}) \<and> (rs_equal s t \<longleftrightarrow> rs_abs s = rs_abs t)"
  using assms
  by (simp add: rs_wf_resize rs_abs_resize rs_wf_set rs_abs_set rs_wf_reset rs_abs_reset rs_wf_union rs_abs_union
    rs_wf_clear rs_abs_clear rs_wf_set_all rs_abs_set_all rs_any_iff rs_equal_iff)

theorem register_set_refines_witness:
  "rs_abs (rs_set (rs_resize 70) 65) = {65} \<and> \<not> rs_any (rs_resize 70)"
  using register_set_refines[of "rs_resize 70" "rs_resize 70" 65 70] rs_wf_resize[of 70]
  by (simp add: rs_abs_resize rset.ins_width)

text \<open>
  C23: interning keeps the table consistent, gives back the text for the number it returns, and
  never changes the text of a number given before, as long as the numbers fit 32 bits.
\<close>

theorem intern_round_trip:
  assumes "table_ok t" "length (m_strings t) < 2 ^ 32" "intern t s = (i, t')"
  shows "table_ok t' \<and> string_at t' i = s \<and> (\<forall>j < length (m_strings t). string_at t' j = string_at t j) \<and>
    intern t' s = (i, t')"
  using intern_facts[OF assms(1,2), where s = s] assms(3) by (auto simp: intern_known)

theorem intern_round_trip_witness:
  "string_at (snd (intern empty_table ''a'')) (fst (intern empty_table ''a'')) = ''a''"
  using intern_round_trip[of empty_table "''a''" "fst (intern empty_table ''a'')" "snd (intern empty_table ''a'')"]
    empty_table_ok by (simp add: empty_table_def)

text \<open>
  C24: the table of global functions is a table: looking a row up by its name or by its
  identifier finds that row, and every identifier of the enumeration has one.
\<close>

theorem global_table_lookup:
  "(\<forall>row \<in> set GLOBAL_FUNCTIONS. find_global_function (gf_name row) = Some row \<and> global_function (gf_fn row) = Inr row) \<and>
   (\<forall>k. 0 \<le> k \<longrightarrow> k \<le> 116 \<longrightarrow> (\<exists>row \<in> set GLOBAL_FUNCTIONS. gf_fn row = GlobalFn k))"
proof -
  have "\<exists>row \<in> set GLOBAL_FUNCTIONS. gf_fn row = GlobalFn k" if "0 \<le> k" "k \<le> 116" for k
  proof -
    have "GlobalFn k \<in> gf_fn ` set GLOBAL_FUNCTIONS" unfolding global_ids_set using that by simp
    then show ?thesis by auto
  qed
  then show ?thesis using global_row_by_name global_row_by_id by blast
qed

theorem global_table_lookup_witness:
  "\<exists>row. find_global_function (gf_name row) = Some row \<and> global_function (GlobalFn 5) = Inr row"
proof -
  obtain row where "row \<in> set GLOBAL_FUNCTIONS" "gf_fn row = GlobalFn 5"
    using conjunct2[OF global_table_lookup, rule_format, of 5] by auto
  then show ?thesis using conjunct1[OF global_table_lookup, rule_format, of row] by (intro exI[of _ row]) simp
qed

text \<open>
  C26: what \<open>wrapi\<close> computes, in every case. An empty range gives its bound. Otherwise the result is
  the number congruent to the argument modulo the size of the range that lies in the half-open
  range from the lower bound to the upper, or above the upper and up to the lower when they are
  given in that order. The behaviour is undefined exactly when the size of the range, the offset
  of the argument, the remainder of that offset, or the remainder plus the size leaves 64 bits.
\<close>

theorem wrapi_in_range:
  "eval_wrapi v lo hi =
     (let n = sint hi - sint lo; d = sint v - sint lo in
      if \<not> fits64 n then Inl UndefinedBehaviour
      else if n = 0 then Inr lo
      else if \<not> fits64 d \<or> (d = - (2 ^ 63) \<and> n = - 1) \<or> \<not> fits64 (d smod n + n) then Inl UndefinedBehaviour
      else Inr (word_of_int (sint lo + d mod n))) \<and>
   (\<forall>r. eval_wrapi v lo hi = Inr r \<longrightarrow>
      (sint lo < sint hi \<longrightarrow> sint lo \<le> sint r \<and> sint r < sint hi) \<and>
      (sint hi < sint lo \<longrightarrow> sint hi < sint r \<and> sint r \<le> sint lo) \<and>
      (sint lo \<noteq> sint hi \<longrightarrow> (sint hi - sint lo) dvd (sint r - sint v)))"
  using wrapi_bounds[of v lo hi] by (simp add: eval_wrapi_spec Let_def)

theorem wrapi_in_range_witness:
  "eval_wrapi (- 3) 3 7 = Inr 5 \<and> sint (3 :: int64) \<le> sint (5 :: int64) \<and> sint (5 :: int64) < sint (7 :: int64) \<and>
   (sint (7 :: int64) - sint (3 :: int64)) dvd (sint (5 :: int64) - sint (- 3 :: int64))"
proof -
  have e: "eval_wrapi (- 3) 3 7 = Inr 5" by code_simp
  moreover have l: "sint (3 :: int64) < sint (7 :: int64)" by simp
  ultimately show ?thesis using conjunct2[OF wrapi_in_range[of "- 3" 3 7], rule_format, OF e] by simp
qed

section \<open>Choosing passes\<close>

text \<open>
  C27: asking for a pass is an error exactly if a name before any \<open>all\<close> is neither a pass nor
  \<open>none\<close>, which is accepted and enables nothing.
\<close>

theorem unknown_pass_rejected:
  "set_enabled_passes opt names = Inl (CompilerException OPTIMIZER_ERROR UnknownPass) \<longleftrightarrow>
   \<not> list_all (\<lambda>n. n \<in> set PASS_NAMES \<or> n = ''none'') (takeWhile (\<lambda>n. n \<noteq> ''all'') names)"
  using set_enabled_error[of opt names] collect_passes_unknown[of names "[]"]
  by (auto simp: set_enabled_passes_def known_pass_def[abs_def])

text \<open>
  C28: after a request that succeeds, a pass is enabled exactly if it was named or everything was
  asked for.
\<close>

theorem enabled_passes_exact:
  assumes "set_enabled_passes opt names = Inr opt'" "p \<in> set PASS_NAMES"
  shows "is_pass_enabled opt' p \<longleftrightarrow> ''all'' \<in> set names \<or> p \<in> set names"
  by (rule enabled_after[OF assms])

theorem enabled_passes_exact_witness:
  "\<exists>opt'. set_enabled_passes new_optimizer [''licm''] = Inr opt' \<and> is_pass_enabled opt' ''licm'' \<and>
     \<not> is_pass_enabled opt' ''peephole''"
proof -
  obtain opt' where o: "set_enabled_passes new_optimizer [''licm''] = Inr opt'"
    by (simp add: set_enabled_passes_def PASS_NAMES_def)
  from enabled_passes_exact[OF o, of "''licm''"] enabled_passes_exact[OF o, of "''peephole''"] o
  show ?thesis by (simp add: PASS_NAMES_def)
qed

text \<open>
  C29: the list of passes an environment variable spells reads back as the names it was written
  from, for names without commas and blanks.
\<close>

theorem pass_list_round_trip:
  assumes "list_all plain_name names" shows "split_passes (join_passes names) [] = names"
  by (rule split_join[OF assms])

theorem pass_list_round_trip_witness: "split_passes ''licm,peephole'' [] = [''licm'', ''peephole'']"
  using pass_list_round_trip[of "[''licm'', ''peephole'']"] by (simp add: plain_name_def)

section \<open>Modulus\<close>

text \<open>
  C25: \<open>posmod\<close> in every case: zero for a zero divisor, undefined for the smallest integer and -1,
  whose remainder the language leaves undefined, and otherwise the mathematical modulus, whose
  sign follows the divisor.
\<close>

theorem posmod_is_mod:
  "eval_posmod a b =
     (if b = 0 then Inr 0
      else if a = 0x8000000000000000 \<and> b = - 1 then Inl UndefinedBehaviour
      else Inr (word_of_int (sint a mod sint b)))"
  by (rule eval_posmod_spec)

section \<open>What a compiled script says about itself\<close>

text \<open>
  C30: the metadata of a script survives its encoding. For metadata whose strings and tables fit
  their length fields and whose records pass the decoders' checks, decoding the encoded bytes
  gives the metadata back, except for what the format does not carry: the payload of a default
  of a kind without one, and the name of a native default.
\<close>

theorem script_metadata_round_trip:
  assumes "encode_script_metadata m = Inr bs" "valid_metadata m" "length bs < MAX_BLOB_SIZE"
  shows "decode_script_metadata bs = Some (wire_metadata m)"
  by (rule script_metadata_round[OF assms])

theorem script_metadata_round_trip_witness:
  "\<exists>bs. encode_script_metadata sample_metadata = Inr bs \<and> decode_script_metadata bs = Some sample_metadata"
proof -
  obtain bs where b: "encode_script_metadata sample_metadata = Inr bs" "length bs < MAX_BLOB_SIZE"
    using sample_encoded by blast
  from script_metadata_round_trip[OF b(1) sample_valid b(2)] b(1) show ?thesis by (simp add: sample_wire)
qed

text \<open>
  C35: the decoder of the line table accepts exactly the encodings of tables in ascending order of
  address, and gives the encoded table back.
\<close>

theorem line_table_codec:
  "decode_line_table (Some data) = Some t \<longleftrightarrow>
   data = encode_line_table t \<and> ascending (lt_entries t) \<and> length (lt_entries t) < 2 ^ 32"
  using encode_decode[of data t] decode_encode[of t] by auto

text \<open>
  C36: in a table the decoder accepts, the line of an address is that of the last row at or below
  it, and zero below the first row; the address of a line that has a row is the lowest with that
  line, and looking that address up gives the line.
\<close>

theorem line_lookup:
  assumes "decode_line_table blob = Some t"
  shows "(\<forall>i a. i < length (lt_entries t) \<longrightarrow> lte_address (lt_entries t ! i) \<le> a \<longrightarrow>
        (Suc i < length (lt_entries t) \<longrightarrow> a < lte_address (lt_entries t ! Suc i)) \<longrightarrow>
        line_for_address t a = lte_line (lt_entries t ! i)) \<and>
    (\<forall>a. (\<forall>e \<in> set (lt_entries t). a < lte_address e) \<longrightarrow> line_for_address t a = 0) \<and>
    (\<forall>e \<in> set (lt_entries t). line_for_address t (address_for_line t (lte_line e)) = lte_line e \<and>
        address_for_line t (lte_line e) \<le> lte_address e)"
proof -
  have a: "ascending (lt_entries t)"
    using assms by (cases blob) (auto simp: decode_line_table_def Let_def split: if_splits)
  show ?thesis
    using line_for_address_spec[OF a] address_line_inverse[OF a _ refl] by blast
qed

theorem line_lookup_witness: "line_for_address sample_lines 0x14 = 3 \<and> line_for_address sample_lines 4 = 0"
proof -
  have d: "decode_line_table (Some (encode_line_table sample_lines)) = Some sample_lines"
    by (rule decode_encode) (simp_all add: sample_lines_def ascending_def)
  note l = line_lookup[OF d]
  show ?thesis using conjunct1[OF l, rule_format, of 0 "0x14"] spec[OF conjunct1[OF conjunct2[OF l]], of 4]
    by (simp add: sample_lines_def)
qed

text \<open>
  C37: a function table the decoder accepts is safe to call by: whatever the bytes, no function
  requires more arguments than it declares parameters.
\<close>

theorem decoded_functions_callable:
  assumes "decode_function_signatures data = Some sigs"
  shows "\<forall>s \<in> set sigs. fs_required_arguments s \<le> length (fs_parameters s)"
  using function_table_callable[OF assms] by (auto simp: list_all_iff callable_def)

theorem decoded_functions_callable_witness:
  "\<exists>s. decode_function_signatures overstated_blob = Some [s] \<and> fs_required_arguments s = 0"
proof -
  obtain s where d: "decode_function_signatures overstated_blob = Some [s]" "fs_parameters s = []"
    using overstated_function by blast
  from decoded_functions_callable[OF d(1)] d show ?thesis by auto
qed

text \<open>
  C38: the decoders of the property and debug variable tables let only checked records through:
  whatever the bytes, an accepted table is within the record limit, every property has a name and
  a type in range, and every variable has a name, a type in range, an offset that is not negative
  and a range of addresses in order.
\<close>

theorem decoded_records_checked:
  "(decode_property_signatures blob = Some ps \<longrightarrow> length ps \<le> MAX_RECORDS \<and>
      (\<forall>p \<in> set ps. ps_name p \<noteq> [] \<and> - 1 \<le> sint (ps_type p) \<and> sint (ps_type p) \<le> 64)) \<and>
   (decode_debug_variables blob = Some vs \<longrightarrow> length vs \<le> MAX_RECORDS \<and>
      (\<forall>v \<in> set vs. dv_name v \<noteq> [] \<and> - 1 \<le> sint (dv_type v) \<and> sint (dv_type v) \<le> 64 \<and>
        0 \<le> sint (dv_offset v) \<and> dv_pc_begin v \<le> dv_pc_end v))"
  using accepted_properties[of blob ps] accepted_debug_variables[of blob vs]
  by (auto simp: list_all_iff type_in_range_def debug_acceptable_def)

theorem decoded_records_checked_witness:
  "\<exists>bs. decode_property_signatures (Some bs) = Some sample_properties \<and> sample_properties \<noteq> [] \<and>
     (\<forall>p \<in> set sample_properties. ps_name p \<noteq> []) \<and>
     decode_debug_variables (Some (encode_debug_variables sample_variables)) = Some sample_variables \<and>
     sample_variables \<noteq> [] \<and> (\<forall>v \<in> set sample_variables. dv_pc_begin v \<le> dv_pc_end v)"
proof -
  obtain bs where p: "decode_property_signatures (Some bs) = Some sample_properties" using sample_properties_decode by blast
  have v: "decode_debug_variables (Some (encode_debug_variables sample_variables)) = Some sample_variables"
    by (rule debug_variables_round[OF sample_variables_valid])
  have "sample_properties \<noteq> []" "sample_variables \<noteq> []" by (simp_all add: sample_properties_def sample_variables_def)
  then show ?thesis
    using p v conjunct1[OF decoded_records_checked[of "Some bs" sample_properties], rule_format, OF p]
      conjunct2[OF decoded_records_checked, rule_format, OF v] by blast
qed

text \<open>
  C39: the debug variable table round-trips: decoding the encoding of acceptable records within
  the limits gives them back.
\<close>

theorem debug_variables_round_trip:
  assumes "list_all valid_debug vs" "length vs \<le> MAX_RECORDS" "length (encode_debug_variables vs) \<le> MAX_BLOB_SIZE"
  shows "decode_debug_variables (Some (encode_debug_variables vs)) = Some vs"
  by (rule debug_variables_round[OF assms])

theorem debug_variables_round_trip_witness:
  "decode_debug_variables (Some (encode_debug_variables sample_variables)) = Some sample_variables"
  by (rule debug_variables_round_trip[OF sample_variables_valid])



section \<open>Registers of the machine code\<close>

text \<open>
  C31: the allocator's two maps stay inverse to each other under every sequence of its operations,
  so no two virtual registers share a machine register, and no register is both free and in use
  or free twice.
\<close>

theorem allocator_consistent:
  assumes "alloc_step\<^sup>*\<^sup>* new_allocator ra"
  shows "(\<forall>v p. ra_vreg_to_preg ra v = Some p \<longleftrightarrow> ra_preg_to_vreg ra p = Some v) \<and>
    distinct (ra_free_registers ra) \<and> (\<forall>p \<in> set (ra_free_registers ra). ra_preg_to_vreg ra p = None)"
  using reachable_ok[OF assms] by (simp add: ra_ok_def inverse_maps_def)

theorem allocator_consistent_witness:
  "ra_preg_to_vreg (snd (allocate_register [] 3 0 new_allocator)) 30 = Some 3"
proof -
  have "alloc_step\<^sup>*\<^sup>* new_allocator (snd (allocate_register [] 3 0 new_allocator))"
    by (rule r_into_rtranclp, rule step_allocate)
  moreover have "ra_vreg_to_preg (snd (allocate_register [] 3 0 new_allocator)) 3 = Some 30"
    by (simp add: allocate_register_def make_room_def take_free_def new_allocator_def POOL_def Let_def)
  ultimately show ?thesis using allocator_consistent by blast
qed

text \<open>
  C33: the binary search over the recorded uses answers exactly: after \<open>init\<close>, the next use of a
  register is the first instruction after the given one that has it as an operand, and -1 when
  there is none.
\<close>

theorem next_use_exact:
  "get_next_use (ra_init func ra) v i =
     (if \<exists>k. mentions func v k \<and> i < int k then int (LEAST k. mentions func v k \<and> i < int k) else - 1)"
  using get_next_use_spec[of "ra_init func ra" func v i] by (simp add: ra_init_def next_mention_def)

text \<open>
  C32: with no register free, allocation takes the register of a mapped virtual register that is
  not used again, or else of one whose next use is furthest away, whatever order the map is
  walked in, and changes no other mapping.
\<close>

theorem furthest_use_is_spilled:
  assumes "ra_vreg_all_uses ra = compute_next_use func" "set order = dom (ra_vreg_to_preg ra)" "order \<noteq> []" "- 1 \<notin> set order"
    "ra_free_registers ra = []" "ra_vreg_to_preg ra v = None"
  shows "\<exists>w p. ra_vreg_to_preg ra w = Some p \<and>
    (next_mention func w i = - 1 \<or>
     (\<forall>x \<in> dom (ra_vreg_to_preg ra). next_mention func x i \<noteq> - 1 \<and> next_mention func x i \<le> next_mention func w i)) \<and>
    fst (allocate_register order v i ra) = uint p \<and>
    ra_vreg_to_preg (snd (allocate_register order v i ra)) = (ra_vreg_to_preg ra)(w := None, v \<mapsto> p)"
proof -
  let ?w = "find_spill_candidate ra order i"
  note f = find_spill_spec[OF assms(1,3) refl, of i]
  then obtain p where p: "ra_vreg_to_preg ra ?w = Some p" using assms(2) by auto
  have "?w \<noteq> - 1" using f(1) assms(4) by auto
  from allocate_spills[OF assms(5,6) refl this p] f(2) p show ?thesis unfolding assms(2) by blast
qed

theorem furthest_use_is_spilled_witness: "fst (allocate_register [1, 2] 9 0 full_allocator) = 6"
proof -
  have n: "next_mention full_function 1 0 = 1" "next_mention full_function 2 0 = 2"
    using get_next_use_spec[of full_allocator full_function 1 0] get_next_use_spec[of full_allocator full_function 2 0] full_uses
    by (simp_all add: full_allocator_def)
  have d: "dom (ra_vreg_to_preg full_allocator) = {1, 2}" by (auto simp: full_allocator_def split: if_splits)
  obtain w p where w: "ra_vreg_to_preg full_allocator w = Some p" "fst (allocate_register [1, 2] 9 0 full_allocator) = uint p"
    "next_mention full_function w 0 = - 1 \<or> (\<forall>x \<in> dom (ra_vreg_to_preg full_allocator).
       next_mention full_function x 0 \<noteq> - 1 \<and> next_mention full_function x 0 \<le> next_mention full_function w 0)"
    using furthest_use_is_spilled[of full_allocator full_function "[1, 2]" 9 0] d by (auto simp: full_allocator_def)
  have "w = 1 \<or> w = 2" using w(1) d by auto
  then have "w = 2" using w(3) n d by auto
  then show ?thesis using w(1,2) by (simp add: full_allocator_def)
qed

text \<open>
  C34: with enough free registers, none of them about to be clobbered, a system call's clobbering
  leaves nothing in a clobbered register: every value that was in one is in another, the move
  there is among the moves to emit, and every other mapping is kept.
\<close>

theorem clobbered_values_are_moved:
  assumes "alloc_step\<^sup>*\<^sup>* new_allocator ra" "set (ra_free_registers ra) \<inter> set cs = {}" "length cs \<le> length (ra_free_registers ra)"
    "handle_syscall_clobbering cs ra = (moves, ra')"
  shows "(\<forall>c \<in> set cs. ra_preg_to_vreg ra' c = None) \<and>
    (\<forall>v p. ra_vreg_to_preg ra v = Some p \<longrightarrow>
      (if p \<in> set cs then \<exists>q. q \<notin> set cs \<and> ra_vreg_to_preg ra' v = Some q \<and> (p, q) \<in> set moves
       else ra_vreg_to_preg ra' v = Some p))"
  using clobbered_values_move[OF reachable_ok[OF assms(1)] assms(2,3), of "[]" moves ra'] assms(4)
  by (simp add: handle_syscall_clobbering_def)

theorem clobbered_values_are_moved_witness:
  "\<exists>moves ra' q. handle_syscall_clobbering [30] (snd (allocate_register [] 3 0 new_allocator)) = (moves, ra') \<and>
     ra_preg_to_vreg ra' 30 = None \<and> q \<noteq> 30 \<and> ra_vreg_to_preg ra' 3 = Some q \<and> (30, q) \<in> set moves"
proof -
  let ?ra = "snd (allocate_register [] 3 0 new_allocator)"
  obtain moves ra' where h: "handle_syscall_clobbering [30] ?ra = (moves, ra')" by fastforce
  have r: "alloc_step\<^sup>*\<^sup>* new_allocator ?ra" by (rule r_into_rtranclp, rule step_allocate)
  have f: "ra_vreg_to_preg ?ra 3 = Some 30" "set (ra_free_registers ?ra) \<inter> set [30] = {}" "length [30 :: uint8] \<le> length (ra_free_registers ?ra)"
    by (simp_all add: allocate_register_def make_room_def take_free_def new_allocator_def POOL_def Let_def)
  note c = clobbered_values_are_moved[OF r f(2,3) h]
  from conjunct2[OF c, rule_format, OF f(1)] obtain q where "q \<noteq> 30" "ra_vreg_to_preg ra' 3 = Some q" "(30, q) \<in> set moves" by auto
  then show ?thesis using h conjunct1[OF c] by auto
qed

end
